(* ===== verification/Prelude.thy ===== *)
theory Prelude
  imports Complex_Main "HOL-Library.Monad_Syntax"
begin

text \<open>
  Shared vocabulary of the development: the error type of the JavaScript runtime that
  the three exercises run on, the higher-order list operations of \<^verbatim>\<open>Array.prototype\<close>
  whose callback may throw, and the generic facts on lists, \<open>distinct\<close> and sums
  that the component theories use. The collection \<open>model_simps\<close> gathers the
  evaluation equations of the model that the component proofs hand to \<open>simp\<close>.
\<close>

named_theorems model_simps "evaluation equations of the program model"

subsection \<open>Errors of the JavaScript runtime\<close>

text \<open>
  The only exception the modelled code can raise is a \<^verbatim>\<open>TypeError\<close>: a property read
  on \<^verbatim>\<open>null\<close> (or \<^verbatim>\<open>undefined\<close>), or a call of a method the value does not have.
\<close>

datatype js_error = TypeError

type_synonym 'a js = "js_error + 'a"

subsection \<open>Array.prototype.filter and forEach with a throwing callback\<close>

text \<open>
  \<^verbatim>\<open>xs.filter(p)\<close> calls \<open>p\<close> on the elements from left to right; the first call
  that throws ends the whole call with that exception.
\<close>

fun filter_js :: "('a \<Rightarrow> bool js) \<Rightarrow> 'a list \<Rightarrow> 'a list js" where
  "filter_js p [] = Inr []"
| "filter_js p (x # xs) =
     (case p x of
        Inl e \<Rightarrow> Inl e
      | Inr b \<Rightarrow> (case filter_js p xs of
                   Inl e \<Rightarrow> Inl e
                 | Inr ys \<Rightarrow> Inr (if b then x # ys else ys)))"

lemma filter_js_Inr [model_simps]:
  "filter_js (\<lambda>x. Inr (P x)) xs = Inr (filter P xs)"
  by (induction xs) auto

lemma filter_js_Inl_iff:
  "(\<exists>e. filter_js p xs = Inl e) \<longleftrightarrow> (\<exists>x \<in> set xs. \<exists>e. p x = Inl e)"
proof (induction xs)
  case Nil
  then show ?case by simp
next
  case (Cons x xs)
  then show ?case by (auto split: sum.splits)
qed

lemma filter_js_cong_Inr:
  assumes "\<forall>x \<in> set xs. p x = Inr (P x)"
  shows "filter_js p xs = Inr (filter P xs)"
  using assms by (induction xs) auto

text \<open>
  \<^verbatim>\<open>xs.reduce(f, a)\<close> likewise stops at the first callback that throws.
\<close>

fun foldl_js :: "('b \<Rightarrow> 'a \<Rightarrow> 'b js) \<Rightarrow> 'b \<Rightarrow> 'a list \<Rightarrow> 'b js" where
  "foldl_js f a [] = Inr a"
| "foldl_js f a (x # xs) = (case f a x of Inl e \<Rightarrow> Inl e | Inr a' \<Rightarrow> foldl_js f a' xs)"

lemma foldl_js_Inr [model_simps]:
  "foldl_js (\<lambda>a x. Inr (f a x)) a xs = Inr (foldl f a xs)"
  by (induction xs arbitrary: a) auto

subsection \<open>Lists with distinct keys\<close>

text \<open>
  Removing every element with key \<open>k\<close> from a list whose keys are distinct removes
  exactly one element when \<open>k\<close> occurs, and none otherwise.
\<close>

lemma map_sum_id_Inr_iff: "map_sum id f r = Inr y \<longleftrightarrow> (\<exists>x. r = Inr x \<and> y = f x)"
  by (cases r) auto

lemma foldl_js_throws:
  "x \<in> set xs \<Longrightarrow> (\<And>a. \<exists>e. f a x = Inl e) \<Longrightarrow> \<exists>e. foldl_js f acc xs = Inl e"
proof (induction xs arbitrary: acc)
  case Nil then show ?case by simp
next
  case (Cons y ys)
  show ?case
  proof (cases "f acc y")
    case (Inl e) then show ?thesis by simp
  next
    case (Inr a)
    with Cons have "x \<in> set ys" by (metis set_ConsD sum.distinct(1) Cons.prems(2))
    with Cons.IH Cons.prems(2) Inr show ?thesis by simp
  qed
qed

lemma those_map_Some [simp]: "those (map Some xs) = Some xs"
  by (induction xs) auto

lemma length_filter_neq_count:
  "length (filter (\<lambda>x. f x \<noteq> i) xs) + count_list (map f xs) i = length xs"
  by (induction xs) auto

lemma hd_dropWhile_not: "dropWhile P xs \<noteq> [] \<Longrightarrow> \<not> P (hd (dropWhile P xs))"
  by (induction xs) auto

lemma last_dropWhile_not:
  "xs \<noteq> [] \<Longrightarrow> \<not> P (last xs) \<Longrightarrow> dropWhile P xs \<noteq> [] \<and> last (dropWhile P xs) = last xs"
  by (induction xs) auto

lemma length_filter_key_distinct:
  assumes "distinct (map f xs)" and "k \<in> f ` set xs"
  shows "length (filter (\<lambda>x. f x \<noteq> k) xs) = length xs - 1"
  using assms
proof (induction xs)
  case Nil
  then show ?case by simp
next
  case (Cons x xs)
  show ?case
  proof (cases "f x = k")
    case True
    from Cons.prems(1) True have "\<forall>y \<in> set xs. f y \<noteq> k" by (auto simp: image_iff)
    with True show ?thesis by (simp add: filter_True)
  next
    case False
    with Cons.prems have "k \<in> f ` set xs" and "distinct (map f xs)" by auto
    with Cons.IH have "length (filter (\<lambda>x. f x \<noteq> k) xs) = length xs - 1" by blast
    moreover from \<open>k \<in> f ` set xs\<close> have "xs \<noteq> []" by auto
    ultimately show ?thesis using False by simp
  qed
qed

lemma distinct_map_filter_keys [intro]:
  "distinct (map f xs) \<Longrightarrow> distinct (map f (filter P xs))"
  by (induction xs) auto

lemma distinct_map_snoc_iff:
  "distinct (map f (xs @ [x])) \<longleftrightarrow> distinct (map f xs) \<and> f x \<notin> f ` set xs"
  by auto

lemma map_of_filter_other:
  "k \<noteq> n \<Longrightarrow> map_of (filter (\<lambda>x. fst x \<noteq> n) xs) k = map_of xs k"
  by (induction xs) auto

end
