(* ===== verification/JsValue.thy ===== *)
theory JsValue
  imports Prelude
begin

text \<open>
  The values the exercises handle at run time are those \<^verbatim>\<open>JSON.parse\<close> and
  \<^verbatim>\<open>response.json()\<close> return, and the objects the handlers build themselves:
  \<^verbatim>\<open>null\<close>, booleans, numbers, strings, arrays and plain objects. TypeScript's
  \<^verbatim>\<open>as PaintingData\<close> casts check nothing, so the model keeps the untyped values and
  gives the typed views (a shape, a painting) as partial decoders in \<open>Canvas\<close>.
  Numbers are \<open>real\<close>: the finite IEEE doubles idealised; \<^verbatim>\<open>NaN\<close> and the
  infinities are not represented. \<^verbatim>\<open>undefined\<close> is \<open>None\<close> of \<open>jval option\<close>.
\<close>

datatype jval =
    JNull
  | JBool bool
  | JNum real
  | JStr string
  | JArr "jval list"
  | JObj "(string \<times> jval) list"

subsection \<open>Property read\<close>

text \<open>
  \<^verbatim>\<open>v.k\<close> for the data keys the code reads (\<^verbatim>\<open>title\<close>, \<^verbatim>\<open>shapes\<close>, \<^verbatim>\<open>id\<close>,
  \<^verbatim>\<open>type\<close>, \<^verbatim>\<open>x\<close>, \<^verbatim>\<open>y\<close>, \<^verbatim>\<open>token\<close>, \<^verbatim>\<open>message\<close>): none of them is a member of a
  built-in prototype, so only an object's own properties are found. \<^verbatim>\<open>JSON.parse\<close>
  keeps the last of duplicate keys; reading a property of \<^verbatim>\<open>null\<close> throws.
\<close>

fun js_get :: "jval \<Rightarrow> string \<Rightarrow> jval option js" where
  "js_get JNull k = Inl TypeError"
| "js_get (JObj ps) k = Inr (map_of (rev ps) k)"
| "js_get (JBool b) k = Inr None"
| "js_get (JNum n) k = Inr None"
| "js_get (JStr s) k = Inr None"
| "js_get (JArr vs) k = Inr None"

subsection \<open>Truthiness, Array.isArray, strict comparison with a string\<close>

fun truthy :: "jval option \<Rightarrow> bool" where
  "truthy None = False"
| "truthy (Some JNull) = False"
| "truthy (Some (JBool b)) = b"
| "truthy (Some (JNum n)) = (n \<noteq> 0)"
| "truthy (Some (JStr s)) = (s \<noteq> [])"
| "truthy (Some (JArr vs)) = True"
| "truthy (Some (JObj ps)) = True"

fun is_array :: "jval option \<Rightarrow> bool" where
  "is_array (Some (JArr vs)) = True"
| "is_array _ = False"

fun array_elems :: "jval option \<Rightarrow> jval list" where
  "array_elems (Some (JArr vs)) = vs"
| "array_elems _ = []"

text \<open>\<^verbatim>\<open>v !== s\<close> for a string \<open>s\<close>: true unless \<open>v\<close> is that very string.\<close>

definition strict_neq_str :: "jval option \<Rightarrow> string \<Rightarrow> bool" where
  "strict_neq_str v s \<longleftrightarrow> v \<noteq> Some (JStr s)"

subsection \<open>Lemmas\<close>

lemma js_get_Inl_iff [simp]: "(js_get v k = Inl e) \<longleftrightarrow> v = JNull"
  by (cases e; cases v) auto

lemma map_of_rev_distinct:
  assumes "distinct (map fst ps)"
  shows "map_of (rev ps) k = map_of ps k"
proof (cases "k \<in> fst ` set ps")
  case True
  then obtain v where v: "(k, v) \<in> set ps" by auto
  from assms have "distinct (map fst (rev ps))" by (simp add: rev_map[symmetric])
  with v have "map_of (rev ps) k = Some v" by simp
  moreover from assms v have "map_of ps k = Some v" by (rule map_of_is_SomeI)
  ultimately show ?thesis by simp
next
  case False
  then have "map_of ps k = None" and "map_of (rev ps) k = None"
    by (simp_all add: map_of_eq_None_iff)
  then show ?thesis by simp
qed

lemma truthy_is_array: "is_array v \<Longrightarrow> truthy v"
  by (cases v rule: is_array.cases) auto

lemma is_array_elems: "is_array v \<longleftrightarrow> v = Some (JArr (array_elems v))"
  by (cases v rule: is_array.cases) auto

end
