(* ===== verification/Canvas.thy ===== *)
theory Canvas
  imports JsValue
begin

text \<open>
  The shape canvas of \<^verbatim>\<open>src/HW2/src/App.tsx\<close>, whose state and handlers
  \<^verbatim>\<open>src/HW3/frontend/src/App.tsx\<close> repeats line for line. The React state of
  \<^verbatim>\<open>App\<close> (\<^verbatim>\<open>useState\<close> hooks) is the extensible record \<open>canvas\<close>; HW3 extends
  it with its session fields (theory \<open>Session\<close>), so every handler here is
  stated over \<open>'a canvas_scheme\<close> and serves both applications. A handler is a
  function from the state to the new state, a \<^verbatim>\<open>TypeError\<close> being the \<open>Inl\<close> of
  \<open>'a js\<close>; the identifier \<^verbatim>\<open>crypto.randomUUID()\<close> returns is an argument of
  the placing handlers, and the pointer event carries the client coordinates and the
  SVG element's screen transformation matrix. Import, export and the shape counts
  are theory \<open>Painting_IO\<close>; the event relation and reachability are \<open>Canvas_Events\<close>.
\<close>

section \<open>Shapes, the canvas state and its handlers\<close>

text \<open>
  The shape canvas of \<^verbatim>\<open>src/HW2/src/App.tsx\<close>, whose state and handlers
  \<^verbatim>\<open>src/HW3/frontend/src/App.tsx\<close> repeats line for line. The React state of
  \<^verbatim>\<open>App\<close> (\<^verbatim>\<open>useState\<close> hooks) is the extensible record \<open>canvas\<close>; HW3 extends
  it with its session fields (theory \<open>Session\<close>), so every handler here is
  stated over \<open>'a canvas_scheme\<close> and serves both applications. A handler is a
  function from the state to the new state, a \<^verbatim>\<open>TypeError\<close> being the \<open>Inl\<close> of
  \<open>'a js\<close>; the identifier \<^verbatim>\<open>crypto.randomUUID()\<close> returns is an argument of
  the placing handlers, and the pointer event carries the client coordinates and the
  SVG element's screen transformation matrix.
\<close>

datatype ShapeType = Circle | Square | Triangle

fun shapeType_name :: "ShapeType \<Rightarrow> string" where
  "shapeType_name Circle = ''circle''"
| "shapeType_name Square = ''square''"
| "shapeType_name Triangle = ''triangle''"

definition shapeType_of_name :: "string \<Rightarrow> ShapeType option" where
  "shapeType_of_name n =
     (if n = ''circle'' then Some Circle
      else if n = ''square'' then Some Square
      else if n = ''triangle'' then Some Triangle
      else None)"

record Shape =
  shape_id :: string
  shape_type :: ShapeType
  shape_x :: real
  shape_y :: real

text \<open>The object literal \<^verbatim>\<open>{id, type, x, y}\<close> the placing handlers build.\<close>

definition shape_json :: "Shape \<Rightarrow> jval" where
  "shape_json sh =
     JObj [(''id'', JStr (shape_id sh)), (''type'', JStr (shapeType_name (shape_type sh))),
           (''x'', JNum (shape_x sh)), (''y'', JNum (shape_y sh))]"

fun as_str :: "jval option \<Rightarrow> string option" where
  "as_str (Some (JStr s)) = Some s"
| "as_str _ = None"

fun as_num :: "jval option \<Rightarrow> real option" where
  "as_num (Some (JNum n)) = Some n"
| "as_num _ = None"

text \<open>
  The typed view: a value is a \<^verbatim>\<open>Shape\<close> of the interface when it is an object
  whose \<^verbatim>\<open>id\<close> is a string, whose \<^verbatim>\<open>type\<close> names a \<^verbatim>\<open>ShapeType\<close> and whose
  \<^verbatim>\<open>x\<close> and \<^verbatim>\<open>y\<close> are numbers.
\<close>

fun shape_of_json :: "jval \<Rightarrow> Shape option" where
  "shape_of_json (JObj ps) = do {
     i \<leftarrow> as_str (map_of (rev ps) ''id'');
     n \<leftarrow> as_str (map_of (rev ps) ''type'');
     t \<leftarrow> shapeType_of_name n;
     x \<leftarrow> as_num (map_of (rev ps) ''x'');
     y \<leftarrow> as_num (map_of (rev ps) ''y'');
     Some \<lparr>shape_id = i, shape_type = t, shape_x = x, shape_y = y\<rparr>
   }"
| "shape_of_json _ = None"

record PaintingData =
  pd_title :: string
  pd_shapes :: "Shape list"

record canvas =
  title :: jval
  shapes :: "jval list"
  selectedShape :: ShapeType
  draggedShape :: "ShapeType option"

definition canvas_init :: canvas where
  "canvas_init =
     \<lparr>title = JStr ''Untitled'', shapes = [], selectedShape = Circle, draggedShape = None\<rparr>"

text \<open>The typed view of a state: its painting, when title and shapes have their types.\<close>

definition painting_of :: "'a canvas_scheme \<Rightarrow> PaintingData option" where
  "painting_of s = do {
     t \<leftarrow> as_str (Some (title s));
     ss \<leftarrow> those (map shape_of_json (shapes s));
     Some \<lparr>pd_title = t, pd_shapes = ss\<rparr>
   }"

text \<open>
  The document invariant of the design (\<^verbatim>\<open>spec.md\<close> \<section>3): the state is a
  painting and its shape identifiers are distinct.
\<close>

definition doc_wf :: "'a canvas_scheme \<Rightarrow> bool" where
  "doc_wf s \<longleftrightarrow>
     (case painting_of s of None \<Rightarrow> False | Some d \<Rightarrow> distinct (map shape_id (pd_shapes d)))"

text \<open>
  \<^verbatim>\<open>svg.getScreenCTM()\<close> is a 2D affine \<^verbatim>\<open>DOMMatrix\<close> (fields \<^verbatim>\<open>a\<close> to
  \<^verbatim>\<open>f\<close>) or \<^verbatim>\<open>null\<close>; \<^verbatim>\<open>pt.matrixTransform(undefined)\<close> is the identity. A
  singular matrix, which a rendered SVG element does not have, inverts to
  \<^verbatim>\<open>NaN\<close> entries in the browser and to zero entries here.
\<close>

record DOMMatrix =
  m_a :: real
  m_b :: real
  m_c :: real
  m_d :: real
  m_e :: real
  m_f :: real

definition matrixTransform :: "DOMMatrix option \<Rightarrow> real \<times> real \<Rightarrow> real \<times> real" where
  "matrixTransform m p =
     (case m of
        None \<Rightarrow> p
      | Some M \<Rightarrow> (m_a M * fst p + m_c M * snd p + m_e M, m_b M * fst p + m_d M * snd p + m_f M))"

definition matrix_det :: "DOMMatrix \<Rightarrow> real" where
  "matrix_det M = m_a M * m_d M - m_b M * m_c M"

definition matrix_inverse :: "DOMMatrix \<Rightarrow> DOMMatrix" where
  "matrix_inverse M =
     (let d = matrix_det M in
      \<lparr>m_a = m_d M / d, m_b = - m_b M / d, m_c = - m_c M / d, m_d = m_a M / d,
       m_e = (m_c M * m_f M - m_d M * m_e M) / d, m_f = (m_b M * m_e M - m_a M * m_f M) / d\<rparr>)"

record pointer =
  clientX :: real
  clientY :: real
  screenCTM :: "DOMMatrix option"

definition svgPoint :: "pointer \<Rightarrow> real \<times> real" where
  "svgPoint ev = matrixTransform (map_option matrix_inverse (screenCTM ev)) (clientX ev, clientY ev)"

definition newShape :: "string \<Rightarrow> ShapeType \<Rightarrow> real \<times> real \<Rightarrow> Shape" where
  "newShape uuid t p = \<lparr>shape_id = uuid, shape_type = t, shape_x = fst p, shape_y = snd p\<rparr>"

definition handleCanvasClick :: "string \<Rightarrow> pointer \<Rightarrow> 'a canvas_scheme \<Rightarrow> 'a canvas_scheme" where
  "handleCanvasClick uuid ev s =
     (if \<not> truthy (Some (JStr (shapeType_name (selectedShape s)))) then s
      else s\<lparr>shapes := shapes s @ [shape_json (newShape uuid (selectedShape s) (svgPoint ev))]\<rparr>)"

definition handleDragStart :: "ShapeType \<Rightarrow> 'a canvas_scheme \<Rightarrow> 'a canvas_scheme" where
  "handleDragStart t s = s\<lparr>draggedShape := Some t\<rparr>"

definition handleDrop :: "string \<Rightarrow> pointer \<Rightarrow> 'a canvas_scheme \<Rightarrow> 'a canvas_scheme" where
  "handleDrop uuid ev s =
     (case draggedShape s of
        None \<Rightarrow> s
      | Some t \<Rightarrow> s\<lparr>shapes := shapes s @ [shape_json (newShape uuid t (svgPoint ev))],
                   draggedShape := None\<rparr>)"

text \<open>The callback \<^verbatim>\<open>(shape) => shape.id !== id\<close> of the deleting filter.\<close>

definition delete_pred :: "string \<Rightarrow> jval \<Rightarrow> bool js" where
  "delete_pred i sh = map_sum id (\<lambda>v. strict_neq_str v i) (js_get sh ''id'')"

definition handleDeleteShape :: "string \<Rightarrow> 'a canvas_scheme \<Rightarrow> 'a canvas_scheme js" where
  "handleDeleteShape i s =
     (case filter_js (delete_pred i) (shapes s) of
        Inl e \<Rightarrow> Inl e
      | Inr ss \<Rightarrow> Inr (s\<lparr>shapes := ss\<rparr>))"

text \<open>The toolbar's \<^verbatim>\<open>onSelectShape\<close> and the title input's \<^verbatim>\<open>onChange\<close>.\<close>

definition setSelectedShape :: "ShapeType \<Rightarrow> 'a canvas_scheme \<Rightarrow> 'a canvas_scheme" where
  "setSelectedShape t s = s\<lparr>selectedShape := t\<rparr>"

definition setTitle :: "string \<Rightarrow> 'a canvas_scheme \<Rightarrow> 'a canvas_scheme" where
  "setTitle v s = s\<lparr>title := JStr v\<rparr>"

text \<open>
  What \<^verbatim>\<open>spec.md\<close> \<section>4.1 and \<section>4.2 promise of a painting: placement appends
  one shape, deletion removes the shapes with the given identifier.
\<close>

definition doc_place :: "Shape \<Rightarrow> PaintingData \<Rightarrow> PaintingData" where
  "doc_place sh d = d\<lparr>pd_shapes := pd_shapes d @ [sh]\<rparr>"

definition doc_delete :: "string \<Rightarrow> PaintingData \<Rightarrow> PaintingData" where
  "doc_delete i d = d\<lparr>pd_shapes := filter (\<lambda>sh. shape_id sh \<noteq> i) (pd_shapes d)\<rparr>"

text \<open>
  \<^verbatim>\<open>crypto.randomUUID()\<close> is taken to return an identifier no shape of the state
  carries: the assumption under which the placing handlers keep identifiers distinct.
\<close>

definition fresh_id :: "string \<Rightarrow> 'a canvas_scheme \<Rightarrow> bool" where
  "fresh_id u s \<longleftrightarrow> list_all (\<lambda>v. js_get v ''id'' \<noteq> Inr (Some (JStr u))) (shapes s)"

section \<open>Lemmas on the typed view, the geometry and the handlers\<close>

lemma those_append:
  "those (xs @ ys) = do { a \<leftarrow> those xs; b \<leftarrow> those ys; Some (a @ b) }"
proof (induction xs)
  case Nil
  then show ?case by (cases "those ys") simp_all
next
  case (Cons x xs)
  then show ?case by (cases x; cases "those xs"; cases "those ys") simp_all
qed

lemma those_length: "those xs = Some ys \<Longrightarrow> length ys = length xs"
  by (induction xs arbitrary: ys) (auto split: option.splits)

lemma those_map_mem:
  "those (map f xs) = Some ys \<Longrightarrow> y \<in> set ys \<Longrightarrow> \<exists>x \<in> set xs. f x = Some y"
  by (induction xs arbitrary: ys) (auto split: option.splits)

lemma as_str_Some_iff [simp]: "as_str v = Some s \<longleftrightarrow> v = Some (JStr s)"
  by (cases v rule: as_str.cases) auto

lemma as_num_Some_iff [simp]: "as_num v = Some n \<longleftrightarrow> v = Some (JNum n)"
  by (cases v rule: as_num.cases) auto

lemma shape_of_json_id:
  "shape_of_json v = Some sh \<Longrightarrow> js_get v ''id'' = Inr (Some (JStr (shape_id sh)))"
  by (cases v rule: shape_of_json.cases) (auto split: Option.bind_splits)

lemma shape_of_json_shape_json [simp]: "shape_of_json (shape_json sh) = Some sh"
  by (cases sh; cases "shape_type sh") (simp_all add: shape_json_def shapeType_of_name_def)

lemma painting_of_snoc:
  assumes "painting_of s = Some d" and "shape_of_json v = Some sh"
  shows "painting_of (s\<lparr>shapes := shapes s @ [v]\<rparr>) = Some (doc_place sh d)"
  using assms by (auto simp: painting_of_def doc_place_def those_append split: Option.bind_splits)

lemma painting_of_shapes:
  "painting_of s = Some d \<Longrightarrow> those (map shape_of_json (shapes s)) = Some (pd_shapes d)"
  by (auto simp: painting_of_def split: Option.bind_splits)

lemma fresh_id_not_in_painting:
  assumes "painting_of s = Some d" and "fresh_id u s"
  shows "u \<notin> shape_id ` set (pd_shapes d)"
proof
  assume "u \<in> shape_id ` set (pd_shapes d)"
  then obtain sh where sh: "sh \<in> set (pd_shapes d)" and u: "shape_id sh = u" by auto
  from those_map_mem[OF painting_of_shapes[OF assms(1)] sh]
  obtain v where "v \<in> set (shapes s)" and "shape_of_json v = Some sh" by blast
  with assms(2) u shape_of_json_id show False by (auto simp: fresh_id_def list_all_iff)
qed

lemma doc_wf_iff:
  "doc_wf s \<longleftrightarrow> (\<exists>d. painting_of s = Some d \<and> distinct (map shape_id (pd_shapes d)))"
  by (auto simp: doc_wf_def split: option.splits)

lemma doc_wf_snoc:
  assumes "doc_wf s" and "fresh_id u s"
  shows "doc_wf (s\<lparr>shapes := shapes s @ [shape_json (newShape u t p)]\<rparr>)"
proof -
  from assms(1) obtain d where d: "painting_of s = Some d"
    and dist: "distinct (map shape_id (pd_shapes d))" by (auto simp: doc_wf_iff)
  from fresh_id_not_in_painting[OF d assms(2)] dist
  have "distinct (map shape_id (pd_shapes (doc_place (newShape u t p) d)))"
    by (simp add: doc_place_def newShape_def)
  with painting_of_snoc[OF d shape_of_json_shape_json] show ?thesis
    by (simp add: doc_wf_iff)
qed

lemma filter_delete_decoded:
  assumes "those (map shape_of_json vs) = Some ss"
  shows "\<exists>vs'. filter_js (delete_pred i) vs = Inr vs'
           \<and> those (map shape_of_json vs') = Some (filter (\<lambda>sh. shape_id sh \<noteq> i) ss)"
  using assms
proof (induction vs arbitrary: ss)
  case Nil
  then show ?case by simp
next
  case (Cons v vs)
  from Cons.prems obtain sh ss' where v: "shape_of_json v = Some sh"
    and r: "those (map shape_of_json vs) = Some ss'" and ss: "ss = sh # ss'"
    by (auto split: option.splits)
  from Cons.IH[OF r] obtain vs' where f: "filter_js (delete_pred i) vs = Inr vs'"
    and t: "those (map shape_of_json vs') = Some (filter (\<lambda>sh. shape_id sh \<noteq> i) ss')" by blast
  have "delete_pred i v = Inr (shape_id sh \<noteq> i)"
    using shape_of_json_id[OF v] by (simp add: delete_pred_def strict_neq_str_def)
  with f t v ss show ?case by auto
qed

lemma handleDeleteShape_decoded:
  assumes "painting_of s = Some d"
  obtains s' where "handleDeleteShape i s = Inr s'" and "s' = s\<lparr>shapes := shapes s'\<rparr>"
    and "painting_of s' = Some (doc_delete i d)"
proof -
  from filter_delete_decoded[OF painting_of_shapes[OF assms]] obtain vs' where
    f: "filter_js (delete_pred i) (shapes s) = Inr vs'"
    and t: "those (map shape_of_json vs') = Some (filter (\<lambda>sh. shape_id sh \<noteq> i) (pd_shapes d))"
    by blast
  from assms have "title s = JStr (pd_title d)"
    by (auto simp: painting_of_def split: Option.bind_splits)
  with assms t have "painting_of (s\<lparr>shapes := vs'\<rparr>) = Some (doc_delete i d)"
    by (auto simp: painting_of_def doc_delete_def split: Option.bind_splits)
  with f that show ?thesis by (simp add: handleDeleteShape_def)
qed

lemma affine_inverse_fst:
  fixes a b c d e f x y D :: real
  assumes D: "D = a * d - b * c" "D \<noteq> 0"
  shows "a * (d / D * x + - c / D * y + (c * f - d * e) / D)
       + c * (- b / D * x + a / D * y + (b * e - a * f) / D) + e = x"
proof -
  have "a * (d / D * x + - c / D * y + (c * f - d * e) / D)
       + c * (- b / D * x + a / D * y + (b * e - a * f) / D)
      = (a * (d * x - c * y + (c * f - d * e)) + c * (- b * x + a * y + (b * e - a * f))) / D"
    using D(2) by (simp add: field_simps)
  also have "\<dots> = (D * (x - e)) / D"
    unfolding D(1) by (simp add: algebra_simps)
  also have "\<dots> = x - e" using D(2) by simp
  finally show ?thesis by simp
qed

lemma affine_inverse_snd:
  fixes a b c d e f x y D :: real
  assumes D: "D = a * d - b * c" "D \<noteq> 0"
  shows "b * (d / D * x + - c / D * y + (c * f - d * e) / D)
       + d * (- b / D * x + a / D * y + (b * e - a * f) / D) + f = y"
proof -
  have "b * (d / D * x + - c / D * y + (c * f - d * e) / D)
       + d * (- b / D * x + a / D * y + (b * e - a * f) / D)
      = (b * (d * x - c * y + (c * f - d * e)) + d * (- b * x + a * y + (b * e - a * f))) / D"
    using D(2) by (simp add: field_simps)
  also have "\<dots> = (D * (y - f)) / D"
    unfolding D(1) by (simp add: algebra_simps)
  also have "\<dots> = y - f" using D(2) by simp
  finally show ?thesis by simp
qed

lemma matrix_inverse_cancel:
  assumes "matrix_det M \<noteq> 0"
  shows "matrixTransform (Some M) (matrixTransform (Some (matrix_inverse M)) p) = p"
proof -
  let ?D = "matrix_det M"
  have D: "?D = m_a M * m_d M - m_b M * m_c M" by (simp add: matrix_det_def)
  have "matrixTransform (Some M) (matrixTransform (Some (matrix_inverse M)) p)
    = (m_a M * (m_d M / ?D * fst p + - m_c M / ?D * snd p + (m_c M * m_f M - m_d M * m_e M) / ?D)
       + m_c M * (- m_b M / ?D * fst p + m_a M / ?D * snd p + (m_b M * m_e M - m_a M * m_f M) / ?D) + m_e M,
       m_b M * (m_d M / ?D * fst p + - m_c M / ?D * snd p + (m_c M * m_f M - m_d M * m_e M) / ?D)
       + m_d M * (- m_b M / ?D * fst p + m_a M / ?D * snd p + (m_b M * m_e M - m_a M * m_f M) / ?D) + m_f M)"
    by (simp add: matrixTransform_def matrix_inverse_def Let_def)
  also have "\<dots> = p"
    using affine_inverse_fst[OF D assms] affine_inverse_snd[OF D assms] by simp
  finally show ?thesis .
qed

lemma handleCanvasClick_appends:
  "handleCanvasClick u ev s = s\<lparr>shapes := shapes s @ [shape_json (newShape u (selectedShape s) (svgPoint ev))]\<rparr>"
  by (cases "selectedShape s") (simp_all add: handleCanvasClick_def)

lemma doc_wf_cong:
  "title s' = title s \<Longrightarrow> shapes s' = shapes s \<Longrightarrow> doc_wf s' = doc_wf s"
  by (simp add: doc_wf_def painting_of_def)

lemma doc_wf_draggedShape_upd [simp]: "doc_wf (s\<lparr>draggedShape := x\<rparr>) = doc_wf s"
  by (simp add: doc_wf_def painting_of_def)

lemma doc_wf_selectedShape_upd [simp]: "doc_wf (s\<lparr>selectedShape := x\<rparr>) = doc_wf s"
  by (simp add: doc_wf_def painting_of_def)

lemma doc_wf_setTitle: "doc_wf s \<Longrightarrow> doc_wf (s\<lparr>title := JStr v\<rparr>)"
  by (auto simp: doc_wf_def painting_of_def split: option.splits Option.bind_splits)

lemma doc_wf_delete: "doc_wf s \<Longrightarrow> handleDeleteShape i s = Inr s' \<Longrightarrow> doc_wf s'"
proof -
  assume wf: "doc_wf s" and del: "handleDeleteShape i s = Inr s'"
  from wf obtain d where d: "painting_of s = Some d"
    and dist: "distinct (map shape_id (pd_shapes d))" by (auto simp: doc_wf_iff)
  from handleDeleteShape_decoded[OF d, of i] del
  have "painting_of s' = Some (doc_delete i d)" by auto
  with dist show "doc_wf s'" by (auto simp: doc_wf_iff doc_delete_def)
qed

lemma doc_wf_handleDrop:
  assumes "doc_wf s" and "fresh_id u s"
  shows "doc_wf (handleDrop u ev s)"
proof (cases "draggedShape s")
  case None
  with assms(1) show ?thesis by (simp add: handleDrop_def)
next
  case (Some t)
  have "doc_wf (s\<lparr>shapes := shapes s @ [shape_json (newShape u t (svgPoint ev))]\<rparr>)"
    using assms by (rule doc_wf_snoc)
  moreover have "doc_wf (handleDrop u ev s) =
      doc_wf (s\<lparr>shapes := shapes s @ [shape_json (newShape u t (svgPoint ev))]\<rparr>)"
    by (rule doc_wf_cong) (simp_all add: handleDrop_def Some)
  ultimately show ?thesis by simp
qed

section \<open>Properties of the canvas handlers\<close>

text \<open>
  C3. Deleting by the identifier of one shape of a painting with distinct identifiers succeeds, leaves exactly one shape fewer, and leaves no shape with that identifier (spec.md section 8).
\<close>

theorem handleDeleteShape_removes_one:
  assumes d: "painting_of s = Some d" and dist: "distinct (map shape_id (pd_shapes d))"
    and i: "i \<in> shape_id ` set (pd_shapes d)"
  shows "\<exists>s' d'. handleDeleteShape i s = Inr s' \<and> painting_of s' = Some d'
           \<and> length (shapes s') = length (shapes s) - 1 \<and> i \<notin> shape_id ` set (pd_shapes d')"
proof -
  obtain s' where del: "handleDeleteShape i s = Inr s'"
    and p': "painting_of s' = Some (doc_delete i d)"
    using handleDeleteShape_decoded[OF d] by blast
  have "length (shapes s') = length (pd_shapes (doc_delete i d))"
    using those_length[OF painting_of_shapes[OF p']] by simp
  also have "\<dots> = length (pd_shapes d) - 1"
    using length_filter_key_distinct[OF dist i] by (simp add: doc_delete_def)
  also have "\<dots> = length (shapes s) - 1"
    using those_length[OF painting_of_shapes[OF d]] by simp
  finally show ?thesis using del p' by (auto simp: doc_delete_def)
qed

theorem handleDeleteShape_removes_one_witness:
  "painting_of (canvas_init\<lparr>shapes := [shape_json \<lparr>shape_id = ''a'', shape_type = Circle, shape_x = 1, shape_y = 2\<rparr>,
                                         shape_json \<lparr>shape_id = ''b'', shape_type = Square, shape_x = 5, shape_y = 6\<rparr>]\<rparr>)
     = Some \<lparr>pd_title = ''Untitled'', pd_shapes = [\<lparr>shape_id = ''a'', shape_type = Circle, shape_x = 1, shape_y = 2\<rparr>,
                                                  \<lparr>shape_id = ''b'', shape_type = Square, shape_x = 5, shape_y = 6\<rparr>]\<rparr>
   \<and> (\<exists>s' d'. handleDeleteShape ''a'' (canvas_init\<lparr>shapes := [shape_json \<lparr>shape_id = ''a'', shape_type = Circle, shape_x = 1, shape_y = 2\<rparr>,
                                         shape_json \<lparr>shape_id = ''b'', shape_type = Square, shape_x = 5, shape_y = 6\<rparr>]\<rparr>) = Inr s'
        \<and> painting_of s' = Some d' \<and> length (shapes s') = 1 \<and> ''a'' \<notin> shape_id ` set (pd_shapes d'))"
proof -
  let ?sa = "\<lparr>shape_id = ''a'', shape_type = Circle, shape_x = 1, shape_y = 2\<rparr>"
  let ?sb = "\<lparr>shape_id = ''b'', shape_type = Square, shape_x = 5, shape_y = 6\<rparr>"
  let ?s = "canvas_init\<lparr>shapes := [shape_json ?sa, shape_json ?sb]\<rparr>"
  have p: "painting_of ?s = Some \<lparr>pd_title = ''Untitled'', pd_shapes = [?sa, ?sb]\<rparr>"
    by (simp add: painting_of_def canvas_init_def)
  from handleDeleteShape_removes_one[OF p] show ?thesis using p by simp
qed

text \<open>
  C6. Placing a shape by a click refines the abstract placement: on a painting, the new state is the painting with the new shape (fresh identifier, selected type, pointer in document coordinates) appended.
\<close>

theorem handleCanvasClick_refines:
  "painting_of s = Some d \<Longrightarrow>
   painting_of (handleCanvasClick u ev s) = Some (doc_place (newShape u (selectedShape s) (svgPoint ev)) d)"
  by (simp add: handleCanvasClick_appends painting_of_snoc)

theorem handleCanvasClick_refines_witness:
  "painting_of canvas_init = Some \<lparr>pd_title = ''Untitled'', pd_shapes = []\<rparr>
   \<and> painting_of (handleCanvasClick ''u'' \<lparr>clientX = 7, clientY = 8, screenCTM = None\<rparr> canvas_init)
       = Some (doc_place (newShape ''u'' Circle (7, 8)) \<lparr>pd_title = ''Untitled'', pd_shapes = []\<rparr>)"
proof -
  have p: "painting_of canvas_init = Some \<lparr>pd_title = ''Untitled'', pd_shapes = []\<rparr>"
    by (simp add: painting_of_def canvas_init_def)
  show ?thesis
    using p handleCanvasClick_refines[OF p, of "''u''" "\<lparr>clientX = 7, clientY = 8, screenCTM = None\<rparr>"]
    by (simp add: canvas_init_def svgPoint_def matrixTransform_def)
qed

text \<open>
  C7. Deleting by an identifier refines the abstract deletion: on a painting the handler cannot throw, changes only the shapes, and yields the painting without the shapes of that identifier.
\<close>

theorem handleDeleteShape_refines:
  "painting_of s = Some d \<Longrightarrow>
   \<exists>s'. handleDeleteShape i s = Inr s' \<and> s' = s\<lparr>shapes := shapes s'\<rparr> \<and> painting_of s' = Some (doc_delete i d)"
  by (erule handleDeleteShape_decoded) blast

theorem handleDeleteShape_refines_witness:
  "painting_of (canvas_init\<lparr>shapes := [shape_json \<lparr>shape_id = ''a'', shape_type = Circle, shape_x = 1, shape_y = 2\<rparr>]\<rparr>)
     = Some \<lparr>pd_title = ''Untitled'', pd_shapes = [\<lparr>shape_id = ''a'', shape_type = Circle, shape_x = 1, shape_y = 2\<rparr>]\<rparr>
   \<and> (\<exists>s'. handleDeleteShape ''a'' (canvas_init\<lparr>shapes := [shape_json \<lparr>shape_id = ''a'', shape_type = Circle, shape_x = 1, shape_y = 2\<rparr>]\<rparr>) = Inr s'
        \<and> s' = (canvas_init\<lparr>shapes := [shape_json \<lparr>shape_id = ''a'', shape_type = Circle, shape_x = 1, shape_y = 2\<rparr>]\<rparr>)\<lparr>shapes := shapes s'\<rparr>
        \<and> painting_of s' = Some (doc_delete ''a'' \<lparr>pd_title = ''Untitled'', pd_shapes = [\<lparr>shape_id = ''a'', shape_type = Circle, shape_x = 1, shape_y = 2\<rparr>]\<rparr>))"
proof -
  let ?sa = "\<lparr>shape_id = ''a'', shape_type = Circle, shape_x = 1, shape_y = 2\<rparr>"
  have p: "painting_of (canvas_init\<lparr>shapes := [shape_json ?sa]\<rparr>) = Some \<lparr>pd_title = ''Untitled'', pd_shapes = [?sa]\<rparr>"
    by (simp add: painting_of_def canvas_init_def)
  show ?thesis using p handleDeleteShape_refines[OF p, of "''a''"] by simp
qed

text \<open>
  C8. Dropping a dragged tool refines the abstract placement of a shape of the dragged type at the drop point and clears the dragged tool.
\<close>

theorem handleDrop_refines:
  assumes "draggedShape s = Some t" and "painting_of s = Some d"
  shows "painting_of (handleDrop u ev s) = Some (doc_place (newShape u t (svgPoint ev)) d)
         \<and> draggedShape (handleDrop u ev s) = None"
proof -
  have "painting_of (handleDrop u ev s) = painting_of (s\<lparr>shapes := shapes s @ [shape_json (newShape u t (svgPoint ev))]\<rparr>)"
    using assms(1) by (simp add: handleDrop_def painting_of_def)
  with painting_of_snoc[OF assms(2) shape_of_json_shape_json] assms(1) show ?thesis
    by (simp add: handleDrop_def)
qed

theorem handleDrop_refines_witness:
  "draggedShape (canvas_init\<lparr>draggedShape := Some Triangle\<rparr>) = Some Triangle
   \<and> painting_of (canvas_init\<lparr>draggedShape := Some Triangle\<rparr>) = Some \<lparr>pd_title = ''Untitled'', pd_shapes = []\<rparr>
   \<and> painting_of (handleDrop ''d'' \<lparr>clientX = 1, clientY = 2, screenCTM = None\<rparr> (canvas_init\<lparr>draggedShape := Some Triangle\<rparr>))
       = Some (doc_place (newShape ''d'' Triangle (1, 2)) \<lparr>pd_title = ''Untitled'', pd_shapes = []\<rparr>)
   \<and> draggedShape (handleDrop ''d'' \<lparr>clientX = 1, clientY = 2, screenCTM = None\<rparr> (canvas_init\<lparr>draggedShape := Some Triangle\<rparr>)) = None"
proof -
  have t: "draggedShape (canvas_init\<lparr>draggedShape := Some Triangle\<rparr>) = Some Triangle" by simp
  have p: "painting_of (canvas_init\<lparr>draggedShape := Some Triangle\<rparr>) = Some \<lparr>pd_title = ''Untitled'', pd_shapes = []\<rparr>"
    by (simp add: painting_of_def canvas_init_def)
  show ?thesis using t p handleDrop_refines[OF t p, of "''d''" "\<lparr>clientX = 1, clientY = 2, screenCTM = None\<rparr>"]
    by (simp add: svgPoint_def matrixTransform_def)
qed

text \<open>
  C9. A clicked shape is placed under the pointer: for an invertible screen matrix, the matrix maps the new shape's document coordinates back to the client coordinates of the click.
\<close>

theorem handleCanvasClick_under_pointer:
  assumes "screenCTM ev = Some M" and "matrix_det M \<noteq> 0"
  shows "\<exists>sh. shape_of_json (last (shapes (handleCanvasClick u ev s))) = Some sh
           \<and> shape_id sh = u \<and> shape_type sh = selectedShape s
           \<and> matrixTransform (Some M) (shape_x sh, shape_y sh) = (clientX ev, clientY ev)"
proof -
  have "matrixTransform (Some M) (svgPoint ev) = (clientX ev, clientY ev)"
    using matrix_inverse_cancel[OF assms(2)] assms(1) by (simp add: svgPoint_def)
  then show ?thesis by (simp add: handleCanvasClick_appends newShape_def)
qed

theorem handleCanvasClick_under_pointer_witness:
  "screenCTM \<lparr>clientX = 30, clientY = 50, screenCTM = Some \<lparr>m_a = 2, m_b = 0, m_c = 0, m_d = 2, m_e = 10, m_f = 20\<rparr>\<rparr>
     = Some \<lparr>m_a = 2, m_b = 0, m_c = 0, m_d = 2, m_e = 10, m_f = 20\<rparr>
   \<and> matrix_det \<lparr>m_a = 2, m_b = 0, m_c = 0, m_d = 2, m_e = 10, m_f = 20\<rparr> \<noteq> 0
   \<and> (\<exists>sh. shape_of_json (last (shapes (handleCanvasClick ''p''
          \<lparr>clientX = 30, clientY = 50, screenCTM = Some \<lparr>m_a = 2, m_b = 0, m_c = 0, m_d = 2, m_e = 10, m_f = 20\<rparr>\<rparr> canvas_init)))
         = Some sh \<and> shape_id sh = ''p'' \<and> shape_type sh = selectedShape canvas_init
       \<and> matrixTransform (Some \<lparr>m_a = 2, m_b = 0, m_c = 0, m_d = 2, m_e = 10, m_f = 20\<rparr>) (shape_x sh, shape_y sh) = (30, 50))"
proof -
  let ?M = "\<lparr>m_a = 2, m_b = 0, m_c = 0, m_d = 2, m_e = 10, m_f = 20\<rparr> :: DOMMatrix"
  let ?ev = "\<lparr>clientX = 30, clientY = 50, screenCTM = Some ?M\<rparr> :: pointer"
  have c: "screenCTM ?ev = Some ?M" by simp
  have d: "matrix_det ?M \<noteq> 0" by (simp add: matrix_det_def)
  show ?thesis using c d handleCanvasClick_under_pointer[OF c d, of "''p''" canvas_init] by simp
qed

end
