(* ===== verification/Painting_IO.thy ===== *)
theory Painting_IO
  imports Canvas
begin

text \<open>
  The JSON import and export of the painting and the shape counts of
  \<^verbatim>\<open>src/HW2/src/App.tsx\<close> (repeated in HW3): \<^verbatim>\<open>validatePainting\<close>, the
  \<^verbatim>\<open>FileReader\<close> callback of \<^verbatim>\<open>handleFileChange\<close>, \<^verbatim>\<open>handleExport\<close> with its
  file name, and the \<^verbatim>\<open>shapeCounts\<close> reduction the footer renders. The
  \<^verbatim>\<open>JSON.parse\<close> result is a \<open>jval\<close> option (\<open>None\<close> a syntax error), the
  download the value \<open>handleExport\<close> returns.
\<close>

section \<open>Import, export and counts\<close>

text \<open>
  The check \<^verbatim>\<open>d.title && Array.isArray(d.shapes)\<close> that both the file import
  (HW2, HW3) and the remote restore (HW3) apply before replacing the painting:
  \<open>Inr None\<close> when it fails, \<open>Inl TypeError\<close> when \<open>d\<close> is \<^verbatim>\<open>null\<close>.
  Nothing checks that the title is a string or that the elements are shapes.
\<close>

definition validatePainting :: "jval \<Rightarrow> (jval \<times> jval list) option js" where
  "validatePainting d =
     (case js_get d ''title'' of
        Inl e \<Rightarrow> Inl e
      | Inr t \<Rightarrow>
          (if \<not> truthy t then Inr None
           else (case js_get d ''shapes'' of
                   Inl e \<Rightarrow> Inl e
                 | Inr sv \<Rightarrow>
                     (case (t, sv) of
                        (Some tv, Some (JArr vs)) \<Rightarrow> Inr (Some (tv, vs))
                      | _ \<Rightarrow> Inr None))))"

definition msg_read_error :: string where
  "msg_read_error = ''Error: Could not read the file. Please ensure it is a valid painting JSON.''"

definition msg_invalid_format :: string where
  "msg_invalid_format = ''Invalid JSON format for painting file.''"

definition msg_select_json :: string where
  "msg_select_json = ''Please select a valid JSON file.''"

text \<open>
  \<^verbatim>\<open>handleFileChange\<close> either alerts or starts reading the chosen file; the
  reader's \<^verbatim>\<open>onload\<close> receives the outcome of \<^verbatim>\<open>JSON.parse\<close> on its text
  (\<open>None\<close> when it throws a \<^verbatim>\<open>SyntaxError\<close>). Every exception of the
  \<^verbatim>\<open>try\<close> block ends in the same alert.
\<close>

record File =
  file_type :: string

definition handleFileChange :: "File option \<Rightarrow> string + File" where
  "handleFileChange f =
     (case f of
        Some fl \<Rightarrow> (if file_type fl = ''application/json'' then Inr fl else Inl msg_select_json)
      | None \<Rightarrow> Inl msg_select_json)"

definition readerOnload :: "jval option \<Rightarrow> 'a canvas_scheme \<Rightarrow> 'a canvas_scheme \<times> string list" where
  "readerOnload parsed s =
     (case parsed of
        None \<Rightarrow> (s, [msg_read_error])
      | Some d \<Rightarrow>
          (case validatePainting d of
             Inl e \<Rightarrow> (s, [msg_read_error])
           | Inr None \<Rightarrow> (s, [msg_invalid_format])
           | Inr (Some (t, vs)) \<Rightarrow> (s\<lparr>title := t, shapes := vs\<rparr>, [])))"

text \<open>
  \<^verbatim>\<open>handleExport\<close> downloads \<^verbatim>\<open>JSON.stringify({title, shapes}, null, 2)\<close>
  under the name \<^verbatim>\<open>title.replace(/\s+/g, "_") || "painting"\<close> followed by
  \<^verbatim>\<open>.json\<close>. The download carries the value that is serialised; \<^verbatim>\<open>\s\<close> is
  taken on the ASCII white-space characters. A title that is not a string has no
  \<^verbatim>\<open>replace\<close> method: the call throws.
\<close>

definition painting_json :: "'a canvas_scheme \<Rightarrow> jval" where
  "painting_json s = JObj [(''title'', title s), (''shapes'', JArr (shapes s))]"

fun is_ws :: "char \<Rightarrow> bool" where
  "is_ws c \<longleftrightarrow> c \<in> {CHR '' '', CHR 0x09, CHR 0x0A, CHR 0x0B, CHR 0x0C, CHR 0x0D}"

function replace_ws :: "string \<Rightarrow> string" where
  "replace_ws [] = []"
| "replace_ws (c # cs) =
     (if is_ws c then CHR ''_'' # replace_ws (dropWhile is_ws cs) else c # replace_ws cs)"
  by pat_completeness auto
termination
  by (relation "measure length") (auto simp: le_imp_less_Suc length_dropWhile_le)

definition exportFileName :: "string \<Rightarrow> string" where
  "exportFileName t = (let r = replace_ws t in if r = [] then ''painting'' else r) @ ''.json''"

datatype download = Download (dl_data: jval) (dl_name: string)

definition handleExport :: "'a canvas_scheme \<Rightarrow> download js" where
  "handleExport s =
     (case title s of
        JStr t \<Rightarrow> Inr (Download (painting_json s) (exportFileName t))
      | _ \<Rightarrow> Inl TypeError)"

text \<open>
  \<^verbatim>\<open>shapes.reduce((acc, shape) => { acc[shape.type] = (acc[shape.type] || 0) + 1; ... },
  {circle: 0, square: 0, triangle: 0})\<close>. The property key is \<^verbatim>\<open>String(shape.type)\<close>
  (an array joins its elements with commas, \<^verbatim>\<open>null\<close> elements as empty strings);
  a number never converts to one of the three names the footer shows, and keys other
  than these three are not shown, so the model keeps the three counters.
\<close>

fun join_comma :: "string list \<Rightarrow> string" where
  "join_comma [] = []"
| "join_comma [s] = s"
| "join_comma (s # ss) = s @ CHR '','' # join_comma ss"

fun key_str :: "jval \<Rightarrow> string option" where
  "key_str JNull = Some ''null''"
| "key_str (JBool b) = Some (if b then ''true'' else ''false'')"
| "key_str (JNum n) = None"
| "key_str (JStr s) = Some s"
| "key_str (JArr vs) =
     map_option join_comma (those (map (\<lambda>v. if v = JNull then Some [] else key_str v) vs))"
| "key_str (JObj ps) = Some ''[object Object]''"

fun prop_key :: "jval option \<Rightarrow> string option" where
  "prop_key None = Some ''undefined''"
| "prop_key (Some v) = key_str v"

record ShapeCounts =
  circle :: nat
  square :: nat
  triangle :: nat

definition bump :: "string \<Rightarrow> ShapeCounts \<Rightarrow> ShapeCounts" where
  "bump k acc =
     (if k = ''circle'' then acc\<lparr>circle := circle acc + 1\<rparr>
      else if k = ''square'' then acc\<lparr>square := square acc + 1\<rparr>
      else if k = ''triangle'' then acc\<lparr>triangle := triangle acc + 1\<rparr>
      else acc)"

definition count_shape :: "ShapeCounts \<Rightarrow> jval \<Rightarrow> ShapeCounts js" where
  "count_shape acc sh =
     (case js_get sh ''type'' of
        Inl e \<Rightarrow> Inl e
      | Inr t \<Rightarrow> Inr (case prop_key t of Some k \<Rightarrow> bump k acc | None \<Rightarrow> acc))"

definition shapeCounts :: "'a canvas_scheme \<Rightarrow> ShapeCounts js" where
  "shapeCounts s = foldl_js count_shape \<lparr>circle = 0, square = 0, triangle = 0\<rparr> (shapes s)"

definition tally :: "ShapeCounts \<Rightarrow> Shape list \<Rightarrow> ShapeCounts" where
  "tally acc ss = foldl (\<lambda>a sh. bump (shapeType_name (shape_type sh)) a) acc ss"

section \<open>Lemmas on import, export and counts\<close>

lemma readerOnload_cases:
  "readerOnload p s = (s', al) \<Longrightarrow>
     s' = s \<or> (\<exists>d t vs. p = Some d \<and> validatePainting d = Inr (Some (t, vs)) \<and> s' = s\<lparr>title := t, shapes := vs\<rparr>)"
  by (auto simp: readerOnload_def split: option.splits sum.splits prod.splits)

lemma validatePainting_painting_json:
  "truthy (Some (title s)) \<Longrightarrow> validatePainting (painting_json s) = Inr (Some (title s, shapes s))"
  by (simp add: validatePainting_def painting_json_def)

lemma shape_of_json_type:
  "shape_of_json v = Some sh \<Longrightarrow> js_get v ''type'' = Inr (Some (JStr (shapeType_name (shape_type sh))))"
  by (cases v rule: shape_of_json.cases)
    (auto simp: shapeType_of_name_def split: Option.bind_splits if_splits)

lemma foldl_count_shape_decoded:
  "those (map shape_of_json vs) = Some ss \<Longrightarrow> foldl_js count_shape acc vs = Inr (tally acc ss)"
proof (induction vs arbitrary: ss acc)
  case Nil
  then show ?case by (simp add: tally_def)
next
  case (Cons v vs)
  from Cons.prems obtain sh ss' where v: "shape_of_json v = Some sh"
    and r: "those (map shape_of_json vs) = Some ss'" and ss: "ss = sh # ss'"
    by (auto split: option.splits)
  have "count_shape acc v = Inr (bump (shapeType_name (shape_type sh)) acc)"
    by (simp add: count_shape_def shape_of_json_type[OF v])
  with Cons.IH[OF r] ss show ?case by (simp add: tally_def)
qed

lemma tally_counts:
  "tally acc ss = \<lparr>circle = circle acc + length (filter (\<lambda>sh. shape_type sh = Circle) ss),
                   square = square acc + length (filter (\<lambda>sh. shape_type sh = Square) ss),
                   triangle = triangle acc + length (filter (\<lambda>sh. shape_type sh = Triangle) ss)\<rparr>"
proof (induction ss arbitrary: acc)
  case Nil
  then show ?case by (simp add: tally_def)
next
  case (Cons sh ss)
  then show ?case by (cases "shape_type sh") (simp_all add: tally_def bump_def)
qed

lemma length_filter_ShapeType:
  "length (filter (\<lambda>sh. shape_type sh = Circle) ss) + length (filter (\<lambda>sh. shape_type sh = Square) ss)
   + length (filter (\<lambda>sh. shape_type sh = Triangle) ss) = length ss"
proof (induction ss)
  case Nil
  then show ?case by simp
next
  case (Cons sh ss)
  then show ?case by (cases "shape_type sh") simp_all
qed

lemma replace_ws_no_ws: "filter is_ws (replace_ws t) = []"
  by (induction t rule: replace_ws.induct) simp_all

lemma replace_ws_Nil_iff: "replace_ws t = [] \<longleftrightarrow> t = []"
  by (cases t) simp_all

section \<open>Properties of import, export and counts\<close>

text \<open>
  C2. Exporting a painting whose title is a non-empty string and importing the downloaded file restores its title and its shapes exactly, over any current state, with no alert (the export/import round trip of spec.md section 8, given that JSON.parse inverts JSON.stringify).
\<close>

theorem export_import_roundtrip:
  assumes "title s = JStr t" and "t \<noteq> []"
  shows "\<exists>dl. handleExport s = Inr dl \<and>
           readerOnload (Some (dl_data dl)) s' = (s'\<lparr>title := title s, shapes := shapes s\<rparr>, [])"
  using assms
  by (simp add: handleExport_def painting_json_def readerOnload_def validatePainting_def)

theorem export_import_roundtrip_witness:
  "title canvas_init = JStr ''Untitled'' \<and> ''Untitled'' \<noteq> [] \<and>
   (\<exists>dl. handleExport canvas_init = Inr dl \<and>
      readerOnload (Some (dl_data dl)) (canvas_init\<lparr>title := JStr ''other''\<rparr>)
        = ((canvas_init\<lparr>title := JStr ''other''\<rparr>)\<lparr>title := title canvas_init, shapes := shapes canvas_init\<rparr>, []))"
  using export_import_roundtrip[of canvas_init "''Untitled''" "canvas_init\<lparr>title := JStr ''other''\<rparr>"]
  by (simp add: canvas_init_def)

text \<open>
  C4. Importing a parsed object whose shapes field is not an array leaves the whole state unchanged and shows the invalid-format alert (spec.md section 8).
\<close>

theorem readerOnload_rejects_non_array:
  assumes "\<not> is_array (map_of (rev ps) ''shapes'')"
  shows "readerOnload (Some (JObj ps)) s = (s, [msg_invalid_format])"
  using assms
  by (auto simp: readerOnload_def validatePainting_def split: option.splits jval.splits)

theorem readerOnload_rejects_non_array_witness:
  "\<not> is_array (map_of (rev [(''title'', JStr ''t''), (''shapes'', JStr ''none'')]) ''shapes'')
   \<and> readerOnload (Some (JObj [(''title'', JStr ''t''), (''shapes'', JStr ''none'')])) canvas_init
       = (canvas_init, [msg_invalid_format])"
  using readerOnload_rejects_non_array[of "[(''title'', JStr ''t''), (''shapes'', JStr ''none'')]" canvas_init]
  by simp


text \<open>
  C10. The import check admits files that are not paintings: an object with any truthy title and any array of shapes is loaded without alert; afterwards the export handler throws a TypeError exactly when the title is not a string, and the footer counts throw when a shape is null.
\<close>

theorem readerOnload_accepts_ill_typed:
  assumes "truthy (Some t)"
  shows "readerOnload (Some (JObj [(''title'', t), (''shapes'', JArr vs)])) s = (s\<lparr>title := t, shapes := vs\<rparr>, [])
    \<and> (handleExport (s\<lparr>title := t, shapes := vs\<rparr>) = Inl TypeError \<longleftrightarrow> (\<forall>x. t \<noteq> JStr x))
    \<and> (JNull \<in> set vs \<longrightarrow> shapeCounts (s\<lparr>title := t, shapes := vs\<rparr>) = Inl TypeError)"
proof (intro conjI impI)
  show "readerOnload (Some (JObj [(''title'', t), (''shapes'', JArr vs)])) s = (s\<lparr>title := t, shapes := vs\<rparr>, [])"
    using assms by (simp add: readerOnload_def validatePainting_def)
  show "handleExport (s\<lparr>title := t, shapes := vs\<rparr>) = Inl TypeError \<longleftrightarrow> (\<forall>x. t \<noteq> JStr x)"
    by (cases t) (simp_all add: handleExport_def)
  assume "JNull \<in> set vs"
  from foldl_js_throws[OF this, of count_shape] obtain e
    where "foldl_js count_shape \<lparr>circle = 0, square = 0, triangle = 0\<rparr> vs = Inl e"
    by (auto simp: count_shape_def)
  then show "shapeCounts (s\<lparr>title := t, shapes := vs\<rparr>) = Inl TypeError"
    by (cases e) (simp add: shapeCounts_def)
qed

theorem readerOnload_accepts_ill_typed_witness:
  "truthy (Some (JNum 5))
   \<and> readerOnload (Some (JObj [(''title'', JNum 5), (''shapes'', JArr [JNull])])) canvas_init
       = (canvas_init\<lparr>title := JNum 5, shapes := [JNull]\<rparr>, [])
   \<and> handleExport (canvas_init\<lparr>title := JNum 5, shapes := [JNull]\<rparr>) = Inl TypeError
   \<and> shapeCounts (canvas_init\<lparr>title := JNum 5, shapes := [JNull]\<rparr>) = Inl TypeError"
  using readerOnload_accepts_ill_typed[of "JNum 5" "[JNull]" canvas_init] by simp

text \<open>
  C11. A painting whose title is the empty string is exported, but the exported file is refused on import with the invalid-format alert: the round trip of spec.md section 8 fails for untitled paintings.
\<close>

theorem export_untitled_rejected:
  assumes "title s = JStr []"
  shows "\<exists>dl. handleExport s = Inr dl \<and> readerOnload (Some (dl_data dl)) s' = (s', [msg_invalid_format])"
  using assms
  by (simp add: handleExport_def painting_json_def readerOnload_def validatePainting_def)

theorem export_untitled_rejected_witness:
  "title (canvas_init\<lparr>title := JStr []\<rparr>) = JStr []
   \<and> (\<exists>dl. handleExport (canvas_init\<lparr>title := JStr []\<rparr>) = Inr dl
          \<and> readerOnload (Some (dl_data dl)) canvas_init = (canvas_init, [msg_invalid_format]))"
  using export_untitled_rejected[of "canvas_init\<lparr>title := JStr []\<rparr>" canvas_init] by simp

text \<open>
  On a painting the footer counts the circles, squares and triangles of the painting exactly, and the three counts add up to the number of shapes.
\<close>

theorem shapeCounts_painting:
  assumes "painting_of s = Some d"
  shows "\<exists>c. shapeCounts s = Inr c
           \<and> circle c = length (filter (\<lambda>sh. shape_type sh = Circle) (pd_shapes d))
           \<and> square c = length (filter (\<lambda>sh. shape_type sh = Square) (pd_shapes d))
           \<and> triangle c = length (filter (\<lambda>sh. shape_type sh = Triangle) (pd_shapes d))
           \<and> circle c + square c + triangle c = length (shapes s)"
proof -
  have "shapeCounts s = Inr (tally \<lparr>circle = 0, square = 0, triangle = 0\<rparr> (pd_shapes d))"
    using foldl_count_shape_decoded[OF painting_of_shapes[OF assms]] by (simp add: shapeCounts_def)
  moreover have "length (pd_shapes d) = length (shapes s)"
    using those_length[OF painting_of_shapes[OF assms]] by simp
  ultimately show ?thesis
    using length_filter_ShapeType[of "pd_shapes d"] by (simp add: tally_counts)
qed

theorem shapeCounts_painting_witness:
  "painting_of (canvas_init\<lparr>shapes := [shape_json \<lparr>shape_id = ''a'', shape_type = Circle, shape_x = 1, shape_y = 2\<rparr>,
                                        shape_json \<lparr>shape_id = ''b'', shape_type = Triangle, shape_x = 3, shape_y = 4\<rparr>]\<rparr>)
     = Some \<lparr>pd_title = ''Untitled'', pd_shapes = [\<lparr>shape_id = ''a'', shape_type = Circle, shape_x = 1, shape_y = 2\<rparr>,
                                                 \<lparr>shape_id = ''b'', shape_type = Triangle, shape_x = 3, shape_y = 4\<rparr>]\<rparr>
   \<and> (\<exists>c. shapeCounts (canvas_init\<lparr>shapes := [shape_json \<lparr>shape_id = ''a'', shape_type = Circle, shape_x = 1, shape_y = 2\<rparr>,
                                        shape_json \<lparr>shape_id = ''b'', shape_type = Triangle, shape_x = 3, shape_y = 4\<rparr>]\<rparr>) = Inr c
        \<and> circle c = 1 \<and> square c = 0 \<and> triangle c = 1 \<and> circle c + square c + triangle c = 2)"
proof -
  let ?sa = "\<lparr>shape_id = ''a'', shape_type = Circle, shape_x = 1, shape_y = 2\<rparr>"
  let ?sb = "\<lparr>shape_id = ''b'', shape_type = Triangle, shape_x = 3, shape_y = 4\<rparr>"
  have p: "painting_of (canvas_init\<lparr>shapes := [shape_json ?sa, shape_json ?sb]\<rparr>)
      = Some \<lparr>pd_title = ''Untitled'', pd_shapes = [?sa, ?sb]\<rparr>"
    by (simp add: painting_of_def canvas_init_def)
  show ?thesis using p shapeCounts_painting[OF p] by (simp add: numeral_2_eq_2)
qed

text \<open>
  The export file name contains no white space, ends in .json and has a non-empty stem (painting for an empty title).
\<close>

theorem exportFileName_sanitized:
  "filter is_ws (exportFileName t) = [] \<and> (\<exists>b. exportFileName t = b @ ''.json'' \<and> b \<noteq> [])"
  by (auto simp: exportFileName_def Let_def replace_ws_no_ws replace_ws_Nil_iff)

text \<open>
  C14. An exported painting with any list of shapes, duplicate identifiers included, is accepted by the import, and deleting an identifier then removes every shape that carries it, as many as it occurs, not the first only as spec.md section 4.2 describes.
\<close>

theorem readerOnload_duplicate_ids:
  assumes "t \<noteq> []"
  shows "\<exists>s'. readerOnload (Some (JObj [(''title'', JStr t), (''shapes'', JArr (map shape_json shs))])) s = (s', [])
     \<and> painting_of s' = Some \<lparr>pd_title = t, pd_shapes = shs\<rparr>
     \<and> (\<exists>s''. handleDeleteShape i s' = Inr s''
          \<and> painting_of s'' = Some \<lparr>pd_title = t, pd_shapes = filter (\<lambda>sh. shape_id sh \<noteq> i) shs\<rparr>
          \<and> length (shapes s'') = length shs - count_list (map shape_id shs) i)"
proof -
  let ?s' = "s\<lparr>title := JStr t, shapes := map shape_json shs\<rparr>"
  have load: "readerOnload (Some (JObj [(''title'', JStr t), (''shapes'', JArr (map shape_json shs))])) s = (?s', [])"
    using assms by (simp add: readerOnload_def validatePainting_def)
  have p: "painting_of ?s' = Some \<lparr>pd_title = t, pd_shapes = shs\<rparr>"
    by (simp add: painting_of_def comp_def)
  obtain s'' where del: "handleDeleteShape i ?s' = Inr s''"
    and p'': "painting_of s'' = Some (doc_delete i \<lparr>pd_title = t, pd_shapes = shs\<rparr>)"
    by (rule handleDeleteShape_decoded[OF p])
  have "length (shapes s'') = length (filter (\<lambda>sh. shape_id sh \<noteq> i) shs)"
    using those_length[OF painting_of_shapes[OF p'']] by (simp add: doc_delete_def)
  also have "\<dots> = length shs - count_list (map shape_id shs) i"
    using length_filter_neq_count[of shape_id i shs] by arith
  finally show ?thesis
    using load p del p'' by (auto simp: doc_delete_def)
qed

theorem readerOnload_duplicate_ids_witness:
  "''t'' \<noteq> [] \<and>
   (\<exists>s'. readerOnload (Some (JObj [(''title'', JStr ''t''), (''shapes'', JArr (map shape_json
        [\<lparr>shape_id = ''x'', shape_type = Circle, shape_x = 0, shape_y = 0\<rparr>,
         \<lparr>shape_id = ''x'', shape_type = Square, shape_x = 9, shape_y = 9\<rparr>]))])) canvas_init = (s', [])
     \<and> painting_of s' = Some \<lparr>pd_title = ''t'', pd_shapes =
        [\<lparr>shape_id = ''x'', shape_type = Circle, shape_x = 0, shape_y = 0\<rparr>,
         \<lparr>shape_id = ''x'', shape_type = Square, shape_x = 9, shape_y = 9\<rparr>]\<rparr>
     \<and> (\<exists>s''. handleDeleteShape ''x'' s' = Inr s''
          \<and> painting_of s'' = Some \<lparr>pd_title = ''t'', pd_shapes = []\<rparr>
          \<and> length (shapes s'') = 0))"
  using readerOnload_duplicate_ids[where t="''t''" and s=canvas_init and i="''x''" and
      shs="[\<lparr>shape_id = ''x'', shape_type = Circle, shape_x = 0, shape_y = 0\<rparr>,
            \<lparr>shape_id = ''x'', shape_type = Square, shape_x = 9, shape_y = 9\<rparr>]"]
  by simp

end
