(* ===== verification/Canvas_Events.thy ===== *)
theory Canvas_Events
  imports Painting_IO
begin

text \<open>
  The canvas as an event system: \<open>canvas_event\<close> names every handler of the
  canvas of \<^verbatim>\<open>src/HW2/src/App.tsx\<close>, \<open>canvas_step\<close> applies one, and
  \<open>canvas_reach\<close> is the set of states the application reaches from its initial
  state when every file it reads is a well-formed painting export or fails to parse.
  The invariant \<open>doc_wf\<close> of theory \<open>Canvas\<close> holds on every reachable state.
\<close>

section \<open>Canvas events\<close>

text \<open>
  The handlers as the JSX of \<^verbatim>\<open>App\<close> wires them: the canvas's \<^verbatim>\<open>onClick\<close> and
  \<^verbatim>\<open>onDrop\<close>, a shape's \<^verbatim>\<open>onDoubleClick\<close>, the toolbar's \<^verbatim>\<open>onClick\<close> and
  \<^verbatim>\<open>onDragStart\<close>, the title input, and the file reader's \<^verbatim>\<open>onload\<close>. Each
  step returns the new state and the alerts it shows.
\<close>

datatype canvas_event =
    CanvasClick string pointer
  | DragStart ShapeType
  | Drop string pointer
  | DoubleClickShape string
  | SelectTool ShapeType
  | EditTitle string
  | FileLoaded "jval option"

fun canvas_step :: "canvas_event \<Rightarrow> 'a canvas_scheme \<Rightarrow> ('a canvas_scheme \<times> string list) js" where
  "canvas_step (CanvasClick u ev) s = Inr (handleCanvasClick u ev s, [])"
| "canvas_step (DragStart t) s = Inr (handleDragStart t s, [])"
| "canvas_step (Drop u ev) s = Inr (handleDrop u ev s, [])"
| "canvas_step (DoubleClickShape i) s = map_sum id (\<lambda>s'. (s', [])) (handleDeleteShape i s)"
| "canvas_step (SelectTool t) s = Inr (setSelectedShape t s, [])"
| "canvas_step (EditTitle v) s = Inr (setTitle v s, [])"
| "canvas_step (FileLoaded p) s = Inr (readerOnload p s)"

text \<open>
  What the environment supplies: fresh identifiers for placed shapes, and files whose
  painting, when they pass the import check, is well formed (files this application
  exported from a well-formed state are such files).
\<close>

definition file_ok :: "jval option \<Rightarrow> bool" where
  "file_ok p =
     (case p of
        None \<Rightarrow> True
      | Some d \<Rightarrow> (case validatePainting d of
                   Inr (Some (t, vs)) \<Rightarrow> doc_wf (canvas_init\<lparr>title := t, shapes := vs\<rparr>)
                 | _ \<Rightarrow> True))"

fun env_ok :: "canvas_event \<Rightarrow> 'a canvas_scheme \<Rightarrow> bool" where
  "env_ok (CanvasClick u ev) s = fresh_id u s"
| "env_ok (Drop u ev) s = fresh_id u s"
| "env_ok (FileLoaded p) s = file_ok p"
| "env_ok _ s = True"

inductive canvas_reach :: "canvas \<Rightarrow> bool" where
  init: "canvas_reach canvas_init"
| step: "canvas_reach s \<Longrightarrow> env_ok e s \<Longrightarrow> canvas_step e s = Inr (s', al) \<Longrightarrow> canvas_reach s'"

section \<open>Every event preserves the invariant\<close>

lemma doc_wf_readerOnload:
  assumes "doc_wf s" and "file_ok p"
  shows "doc_wf (fst (readerOnload p s))"
proof (cases "\<exists>d t vs. p = Some d \<and> validatePainting d = Inr (Some (t, vs))")
  case True
  then obtain d t vs where p: "p = Some d" and v: "validatePainting d = Inr (Some (t, vs))"
    by blast
  from assms(2) p v have "doc_wf (canvas_init\<lparr>title := t, shapes := vs\<rparr>)"
    by (simp add: file_ok_def)
  moreover have "doc_wf (fst (readerOnload p s)) = doc_wf (canvas_init\<lparr>title := t, shapes := vs\<rparr>)"
    by (rule doc_wf_cong) (simp_all add: readerOnload_def p v canvas_init_def)
  ultimately show ?thesis by simp
next
  case False
  then have "fst (readerOnload p s) = s"
    by (auto simp: readerOnload_def split: option.splits sum.splits)
  with assms(1) show ?thesis by simp
qed

lemma canvas_step_doc_wf:
  assumes wf: "doc_wf s" and env: "env_ok e s" and st: "canvas_step e s = Inr (s', al)"
  shows "doc_wf s'"
proof (cases e)
  case (CanvasClick u ev)
  with st have "s' = handleCanvasClick u ev s" by simp
  with wf env CanvasClick show ?thesis by (simp add: handleCanvasClick_appends doc_wf_snoc)
next
  case (DragStart t)
  with st have "s' = handleDragStart t s" by simp
  with wf show ?thesis by (simp add: handleDragStart_def)
next
  case (Drop u ev)
  with st have "s' = handleDrop u ev s" by simp
  with wf env Drop show ?thesis by (simp add: doc_wf_handleDrop)
next
  case (DoubleClickShape i)
  with st have "handleDeleteShape i s = Inr s'" by (auto simp: map_sum_def split: sum.splits)
  with wf show ?thesis by (rule doc_wf_delete)
next
  case (SelectTool t)
  with st have "s' = setSelectedShape t s" by simp
  with wf show ?thesis by (simp add: setSelectedShape_def)
next
  case (EditTitle v)
  with st have "s' = setTitle v s" by simp
  with wf show ?thesis by (simp add: setTitle_def doc_wf_setTitle)
next
  case (FileLoaded p)
  with st have "s' = fst (readerOnload p s)" by simp
  with wf env FileLoaded show ?thesis by (simp add: doc_wf_readerOnload)
qed

section \<open>Properties of the canvas event system\<close>

text \<open>
  C1. Every state the canvas reaches from its initial state, through clicks and drops with fresh identifiers, drags, deletions, tool selections, title edits and the import of well-formed files, is a painting whose shape identifiers are distinct.
\<close>

theorem canvas_reach_doc_wf: "canvas_reach s \<Longrightarrow> doc_wf s"
proof (induction rule: canvas_reach.induct)
  case init
  show ?case by (simp add: doc_wf_def painting_of_def canvas_init_def)
next
  case (step s e s' al)
  then show ?case by (blast intro: canvas_step_doc_wf)
qed

theorem canvas_reach_doc_wf_witness:
  "canvas_reach (handleCanvasClick ''u1'' \<lparr>clientX = 3, clientY = 4, screenCTM = None\<rparr> canvas_init)
   \<and> doc_wf (handleCanvasClick ''u1'' \<lparr>clientX = 3, clientY = 4, screenCTM = None\<rparr> canvas_init)"
proof -
  have r: "canvas_reach (handleCanvasClick ''u1'' \<lparr>clientX = 3, clientY = 4, screenCTM = None\<rparr> canvas_init)"
    by (rule canvas_reach.step[OF canvas_reach.init,
          of "CanvasClick ''u1'' \<lparr>clientX = 3, clientY = 4, screenCTM = None\<rparr>" _ "[]"])
      (simp_all add: fresh_id_def canvas_init_def)
  show ?thesis using r canvas_reach_doc_wf[OF r] by simp
qed

end
