(* ===== verification/Session.thy ===== *)
theory Session
  imports Canvas_Events
begin

text \<open>
  The authenticated save and restore of \<^verbatim>\<open>src/HW3/frontend/src/App.tsx\<close>. The
  state of HW3's \<^verbatim>\<open>App\<close> is the canvas record of theory \<open>Canvas\<close> extended with
  the bearer token, the open authentication modal, and the requests in flight: each
  \<^verbatim>\<open>async\<close> handler is cut at its \<^verbatim>\<open>await fetch(...)\<close> into the part that sends
  the request (it records what the continuation needs) and the continuation, which runs
  when the environment delivers that request's response, in any order. A response is
  its status and the outcome of \<^verbatim>\<open>response.json()\<close> (\<open>None\<close>: the body is not
  JSON and the call rejects); \<open>None\<close> for the whole response is a rejected
  \<^verbatim>\<open>fetch\<close> (no network). The server at \<^verbatim>\<open>localhost:8080\<close> is not part of the
  repository and is not modelled.
\<close>

section \<open>Requests, responses, alerts\<close>

datatype auth_mode = Signup | Login

datatype http_method = GET | POST

record request =
  req_url :: string
  req_method :: http_method
  req_token :: "jval option"
  req_body :: "jval option"

record response =
  resp_status :: nat
  resp_json :: "jval option"

definition resp_ok :: "response \<Rightarrow> bool" where
  "resp_ok r \<longleftrightarrow> 200 \<le> resp_status r \<and> resp_status r \<le> 299"

text \<open>An alert's text, or a fixed prefix followed by a value the template interpolates.\<close>

datatype alert = Alert string | AlertVal string jval

text \<open>What a pending request's continuation remembers: the handler, and for the modal its mode and user name.\<close>

datatype pending_kind = PendingAuth auth_mode string | PendingSave | PendingRestore

section \<open>The application state\<close>

record app = canvas +
  token :: "jval option"
  authModal :: "auth_mode option"
  pending :: "(nat \<times> pending_kind \<times> request) list"
  next_req :: nat

definition app_init :: app where
  "app_init =
     \<lparr>title = JStr ''Untitled'', shapes = [], selectedShape = Circle, draggedShape = None,
      token = None, authModal = None, pending = [], next_req = 0\<rparr>"

definition send :: "pending_kind \<Rightarrow> request \<Rightarrow> 'a app_scheme \<Rightarrow> 'a app_scheme" where
  "send k r s = s\<lparr>pending := pending s @ [(next_req s, k, r)], next_req := Suc (next_req s)\<rparr>"

section \<open>Authentication\<close>

definition authUrl :: "auth_mode \<Rightarrow> string" where
  "authUrl m =
     (if m = Signup then ''http://localhost:8080/auth/signup'' else ''http://localhost:8080/auth/login'')"

definition handleSubmit :: "auth_mode \<Rightarrow> string \<Rightarrow> string \<Rightarrow> 'a app_scheme \<Rightarrow> 'a app_scheme \<times> alert list" where
  "handleSubmit m u pw s =
     (if u = [] \<or> pw = [] then (s, [Alert ''Please fill in all fields.''])
      else (send (PendingAuth m u)
              \<lparr>req_url = authUrl m, req_method = POST, req_token = None,
               req_body = Some (JObj [(''username'', JStr u), (''password'', JStr pw)])\<rparr> s, []))"

definition handleAuthSuccess :: "jval \<Rightarrow> 'a app_scheme \<Rightarrow> 'a app_scheme" where
  "handleAuthSuccess jwt s = s\<lparr>token := Some jwt, authModal := None\<rparr>"

definition msg_auth_connect :: string where
  "msg_auth_connect = ''Failed to connect to the server. Please try again later.''"

definition authResponse ::
  "auth_mode \<Rightarrow> string \<Rightarrow> response option \<Rightarrow> 'a app_scheme \<Rightarrow> 'a app_scheme \<times> alert list" where
  "authResponse m u r s =
     (case r of
        None \<Rightarrow> (s, [Alert msg_auth_connect])
      | Some resp \<Rightarrow>
          (case resp_json resp of
             None \<Rightarrow> (s, [Alert msg_auth_connect])
           | Some data \<Rightarrow>
               (if resp_ok resp then
                  (case js_get data ''token'' of
                     Inl e \<Rightarrow> (s, [Alert msg_auth_connect])
                   | Inr (Some t) \<Rightarrow>
                       (if truthy (Some t)
                        then (handleAuthSuccess t s,
                              [Alert (''Successfully '' @
                                 (if m = Signup then ''signed up and logged in'' else ''logged in'')
                                 @ '' as '' @ u)])
                        else (s\<lparr>authModal := None\<rparr>, [Alert ''Sign up successful! Please log in to continue.'']))
                   | Inr None \<Rightarrow>
                       (s\<lparr>authModal := None\<rparr>, [Alert ''Sign up successful! Please log in to continue.'']))
                else
                  (case js_get data ''message'' of
                     Inl e \<Rightarrow> (s, [Alert msg_auth_connect])
                   | Inr (Some mv) \<Rightarrow>
                       (s, [if truthy (Some mv) then AlertVal ''Error: '' mv
                            else Alert ''Error: Something went wrong''])
                   | Inr None \<Rightarrow> (s, [Alert ''Error: Something went wrong''])))))"

definition handleLogout :: "'a app_scheme \<Rightarrow> 'a app_scheme \<times> alert list" where
  "handleLogout s = (s\<lparr>token := None\<rparr>, [Alert ''You have been logged out.''])"

section \<open>Remote save and restore\<close>

definition painting_url :: string where
  "painting_url = ''http://localhost:8080/painting''"

definition handleSave :: "'a app_scheme \<Rightarrow> 'a app_scheme \<times> alert list" where
  "handleSave s =
     (if \<not> truthy (token s) then (s, [Alert ''You must be logged in to save your painting.''])
      else (send PendingSave
              \<lparr>req_url = painting_url, req_method = POST, req_token = token s,
               req_body = Some (painting_json s)\<rparr> s, []))"

definition msg_save_connect :: string where
  "msg_save_connect = ''Failed to connect to the server to save the painting.''"

definition saveResponse :: "response option \<Rightarrow> 'a app_scheme \<Rightarrow> 'a app_scheme \<times> alert list" where
  "saveResponse r s =
     (case r of
        None \<Rightarrow> (s, [Alert msg_save_connect])
      | Some resp \<Rightarrow>
          (if resp_ok resp then (s, [Alert ''Your painting has been saved successfully.''])
           else
             (case resp_json resp of
                None \<Rightarrow> (s, [Alert msg_save_connect])
              | Some ed \<Rightarrow>
                  (case js_get ed ''message'' of
                     Inl e \<Rightarrow> (s, [Alert msg_save_connect])
                   | Inr (Some mv) \<Rightarrow>
                       (s, [if truthy (Some mv) then AlertVal ''Error saving painting: '' mv
                            else Alert ''Error saving painting: Unknown error''])
                   | Inr None \<Rightarrow> (s, [Alert ''Error saving painting: Unknown error''])))))"

definition handleRestore :: "'a app_scheme \<Rightarrow> 'a app_scheme \<times> alert list" where
  "handleRestore s =
     (if \<not> truthy (token s) then (s, [Alert ''You must be logged in to restore a painting.''])
      else (send PendingRestore
              \<lparr>req_url = painting_url, req_method = GET, req_token = token s, req_body = None\<rparr> s, []))"

definition msg_restore_connect :: string where
  "msg_restore_connect = ''Failed to connect to the server to restore the painting.''"

definition msg_no_saved :: string where
  "msg_no_saved = ''No saved painting found for your account.''"

definition restoreResponse :: "response option \<Rightarrow> 'a app_scheme \<Rightarrow> 'a app_scheme \<times> alert list" where
  "restoreResponse r s =
     (case r of
        None \<Rightarrow> (s, [Alert msg_restore_connect])
      | Some resp \<Rightarrow>
          (if resp_ok resp then
             (case resp_json resp of
                None \<Rightarrow> (s, [Alert msg_restore_connect])
              | Some d \<Rightarrow>
                  (case validatePainting d of
                     Inl e \<Rightarrow> (s, [Alert msg_restore_connect])
                   | Inr None \<Rightarrow> (s, [Alert ''Invalid data format received from server.''])
                   | Inr (Some (t, vs)) \<Rightarrow>
                       (s\<lparr>title := t, shapes := vs\<rparr>, [Alert ''Your painting has been restored successfully.''])))
           else if resp_status resp = 404 then (s, [Alert msg_no_saved])
           else
             (case resp_json resp of
                None \<Rightarrow> (s, [Alert msg_restore_connect])
              | Some ed \<Rightarrow>
                  (case js_get ed ''message'' of
                     Inl e \<Rightarrow> (s, [Alert msg_restore_connect])
                   | Inr (Some mv) \<Rightarrow>
                       (s, [if truthy (Some mv) then AlertVal ''Error restoring painting: '' mv
                            else Alert ''Error restoring painting: Unknown error''])
                   | Inr None \<Rightarrow> (s, [Alert ''Error restoring painting: Unknown error''])))))"

section \<open>Events\<close>

text \<open>
  The delivery of the response to request \<open>n\<close> runs the continuation recorded for it
  and forgets the request; a response to no pending request changes nothing.
\<close>

definition respond :: "nat \<Rightarrow> response option \<Rightarrow> 'a app_scheme \<Rightarrow> 'a app_scheme \<times> alert list" where
  "respond n r s =
     (case map_of (pending s) n of
        None \<Rightarrow> (s, [])
      | Some (k, rq) \<Rightarrow>
          (let s1 = s\<lparr>pending := filter (\<lambda>x. fst x \<noteq> n) (pending s)\<rparr> in
           case k of
             PendingAuth m u \<Rightarrow> authResponse m u r s1
           | PendingSave \<Rightarrow> saveResponse r s1
           | PendingRestore \<Rightarrow> restoreResponse r s1))"

datatype app_event =
    CanvasEv canvas_event
  | OpenSignUp
  | OpenLogin
  | CloseModal
  | SubmitAuth string string
  | Logout
  | Save
  | Restore
  | Respond nat "response option"

fun app_step :: "app_event \<Rightarrow> 'a app_scheme \<Rightarrow> ('a app_scheme \<times> alert list) js" where
  "app_step (CanvasEv e) s = map_sum id (\<lambda>(s', al). (s', map Alert al)) (canvas_step e s)"
| "app_step OpenSignUp s = Inr (s\<lparr>authModal := Some Signup\<rparr>, [])"
| "app_step OpenLogin s = Inr (s\<lparr>authModal := Some Login\<rparr>, [])"
| "app_step CloseModal s = Inr (s\<lparr>authModal := None\<rparr>, [])"
| "app_step (SubmitAuth u pw) s =
     (case authModal s of None \<Rightarrow> Inr (s, []) | Some m \<Rightarrow> Inr (handleSubmit m u pw s))"
| "app_step Logout s = Inr (handleLogout s)"
| "app_step Save s = Inr (handleSave s)"
| "app_step Restore s = Inr (handleRestore s)"
| "app_step (Respond n r) s = Inr (respond n r s)"


section \<open>Runs, reachable states, invariant\<close>

text \<open>
  A sequence of events run from a state, the alerts of every step collected in order; the
  first step that throws stops the run (React reports the error and the remaining events
  are not delivered). \<open>app_reach\<close> is every state a session reaches from \<open>app_init\<close>
  by events whose handler returns.
\<close>

fun app_run :: "app_event list \<Rightarrow> 'a app_scheme \<Rightarrow> ('a app_scheme \<times> alert list) js" where
  "app_run [] s = Inr (s, [])"
| "app_run (e # es) s =
     (case app_step e s of
        Inl err \<Rightarrow> Inl err
      | Inr (s', al) \<Rightarrow> map_sum id (\<lambda>(s'', al'). (s'', al @ al')) (app_run es s'))"

inductive app_reach :: "app \<Rightarrow> bool" where
  init: "app_reach app_init"
| step: "app_reach s \<Longrightarrow> app_step e s = Inr (s', al) \<Longrightarrow> app_reach s'"

text \<open>
  The bookkeeping invariant of the session: request ids are distinct and issued below the
  counter; the authentication requests go out without a credential and the painting requests
  with a truthy one; the held token is absent or truthy.
\<close>

definition req_ok :: "pending_kind \<Rightarrow> request \<Rightarrow> bool" where
  "req_ok k rq = (case k of PendingAuth m u \<Rightarrow> req_token rq = None | _ \<Rightarrow> truthy (req_token rq))"

definition ids_ok :: "'a app_scheme \<Rightarrow> bool" where
  "ids_ok s \<longleftrightarrow> distinct (map fst (pending s)) \<and> list_all (\<lambda>(n, k, rq). n < next_req s) (pending s)"

definition app_inv :: "'a app_scheme \<Rightarrow> bool" where
  "app_inv s \<longleftrightarrow> ids_ok s
     \<and> list_all (\<lambda>(n, k, rq). req_ok k rq) (pending s)
     \<and> (token s = None \<or> truthy (token s))"

subsection \<open>Scenario states\<close>

text \<open>Concrete requests, responses and states that the examples below run on.\<close>

abbreviation ok_resp :: "jval \<Rightarrow> response" where
  "ok_resp d \<equiv> \<lparr>resp_status = 200, resp_json = Some d\<rparr>"

abbreviation login_req :: request where
  "login_req \<equiv> \<lparr>req_url = authUrl Login, req_method = POST, req_token = None,
      req_body = Some (JObj [(''username'', JStr ''bob''), (''password'', JStr ''pw'')])\<rparr>"

abbreviation restore_req :: request where
  "restore_req \<equiv> \<lparr>req_url = painting_url, req_method = GET, req_token = Some (JStr ''jwt''), req_body = None\<rparr>"

abbreviation logged_in :: app where
  "logged_in \<equiv> app_init\<lparr>token := Some (JStr ''jwt'')\<rparr>"

abbreviation awaiting_login :: app where
  "awaiting_login \<equiv> app_init\<lparr>authModal := Some Login, pending := [(0, PendingAuth Login ''bob'', login_req)], next_req := 1\<rparr>"

abbreviation saved_body :: jval where
  "saved_body \<equiv> JObj [(''title'', JStr ''Art''), (''shapes'', JArr [shape_json \<lparr>shape_id = ''a'', shape_type = Square, shape_x = 1, shape_y = 2\<rparr>])]"

section \<open>Lemmas\<close>

lemma respond_pending:
  assumes "map_of (pending s) n = Some (k, rq)"
  shows "respond n r s =
     (case k of
        PendingAuth m u \<Rightarrow> authResponse m u r (s\<lparr>pending := filter (\<lambda>x. fst x \<noteq> n) (pending s)\<rparr>)
      | PendingSave \<Rightarrow> saveResponse r (s\<lparr>pending := filter (\<lambda>x. fst x \<noteq> n) (pending s)\<rparr>)
      | PendingRestore \<Rightarrow> restoreResponse r (s\<lparr>pending := filter (\<lambda>x. fst x \<noteq> n) (pending s)\<rparr>))"
  using assms by (simp add: respond_def Let_def)

lemma authResponse_token:
  assumes "authResponse m u r s = (s', al)" and "token s' \<noteq> token s"
  shows "\<exists>resp d t. r = Some resp \<and> resp_ok resp \<and> resp_json resp = Some d
           \<and> js_get d ''token'' = Inr (Some t) \<and> truthy (Some t) \<and> token s' = Some t"
  using assms
  by (auto simp: authResponse_def handleAuthSuccess_def split: option.splits sum.splits if_splits)

lemma saveResponse_state: "fst (saveResponse r s) = s"
  by (simp add: saveResponse_def split: option.splits sum.splits)

lemma restoreResponse_token: "token (fst (restoreResponse r s)) = token s"
  by (simp add: restoreResponse_def split: option.splits sum.splits prod.splits)

lemma restoreResponse_ok:
  assumes "resp_ok p" "resp_json p = Some b" "validatePainting b = Inr (Some (t, vs))"
  shows "restoreResponse (Some p) s = (s\<lparr>title := t, shapes := vs\<rparr>, [Alert ''Your painting has been restored successfully.''])"
  using assms by (simp add: restoreResponse_def)

lemma authResponse_fields:
  "pending (fst (authResponse m u r s)) = pending s \<and> next_req (fst (authResponse m u r s)) = next_req s
   \<and> title (fst (authResponse m u r s)) = title s \<and> shapes (fst (authResponse m u r s)) = shapes s"
  by (simp add: authResponse_def handleAuthSuccess_def split: option.splits sum.splits)

lemma restoreResponse_fields:
  "pending (fst (restoreResponse r s)) = pending s \<and> next_req (fst (restoreResponse r s)) = next_req s"
  by (simp add: restoreResponse_def split: option.splits sum.splits prod.splits)

lemma restoreResponse_painting:
  assumes "(title (fst (restoreResponse r s)), shapes (fst (restoreResponse r s))) \<noteq> (title s, shapes s)"
  shows "\<exists>p b. r = Some p \<and> resp_ok p \<and> resp_json p = Some b
           \<and> validatePainting b = Inr (Some (title (fst (restoreResponse r s)), shapes (fst (restoreResponse r s))))"
  using assms by (auto simp: restoreResponse_def split: option.splits sum.splits prod.splits if_splits)

lemma respond_fields:
  "pending (fst (respond n r s)) = filter (\<lambda>x. fst x \<noteq> n) (pending s)
   \<and> next_req (fst (respond n r s)) = next_req s"
proof (cases "map_of (pending s) n")
  case None
  then have "filter (\<lambda>x. fst x \<noteq> n) (pending s) = pending s"
    by (auto simp: filter_id_conv map_of_eq_None_iff)
  with None show ?thesis by (simp add: respond_def)
next
  case (Some krq)
  then obtain k rq where krq: "map_of (pending s) n = Some (k, rq)" by (cases krq) auto
  then show ?thesis
    by (cases k) (simp_all add: respond_pending authResponse_fields restoreResponse_fields saveResponse_state)
qed

lemma canvas_step_app_fields:
  "canvas_step e s = Inr (s', al) \<Longrightarrow>
     token s' = token s \<and> pending s' = pending s \<and> next_req s' = next_req s"
  by (cases e) (auto simp: handleCanvasClick_def handleDragStart_def handleDrop_def handleDeleteShape_def
       setSelectedShape_def setTitle_def readerOnload_def
       split: option.splits sum.splits prod.splits)

lemma respond_token:
  assumes "respond n r s = (s', al)" and "token s' \<noteq> token s"
  shows "\<exists>m u rq resp d t. map_of (pending s) n = Some (PendingAuth m u, rq) \<and> r = Some resp
           \<and> resp_ok resp \<and> resp_json resp = Some d \<and> js_get d ''token'' = Inr (Some t)
           \<and> truthy (Some t) \<and> token s' = Some t"
proof (cases "map_of (pending s) n")
  case None
  with assms show ?thesis by (simp add: respond_def)
next
  case (Some krq)
  then obtain k rq where krq: "map_of (pending s) n = Some (k, rq)" by (cases krq) auto
  let ?s1 = "s\<lparr>pending := filter (\<lambda>x. fst x \<noteq> n) (pending s)\<rparr>"
  show ?thesis
  proof (cases k)
    case (PendingAuth m u)
    with assms krq have "authResponse m u r ?s1 = (s', al)" and "token s' \<noteq> token ?s1"
      by (simp_all add: respond_pending)
    from authResponse_token[OF this] krq PendingAuth show ?thesis by blast
  next
    case PendingSave
    with assms krq have "saveResponse r ?s1 = (s', al)" by (simp add: respond_pending)
    then have "s' = ?s1" using saveResponse_state[of r ?s1] by simp
    with assms(2) show ?thesis by simp
  next
    case PendingRestore
    with assms krq have "token (fst (restoreResponse r ?s1)) = token s'" by (simp add: respond_pending)
    with assms(2) show ?thesis by (simp add: restoreResponse_token)
  qed
qed

lemma respond_painting:
  assumes "respond n r s = (s', al)" "(title s', shapes s') \<noteq> (title s, shapes s)"
  shows "\<exists>rq p b. map_of (pending s) n = Some (PendingRestore, rq) \<and> r = Some p \<and> resp_ok p
           \<and> resp_json p = Some b \<and> validatePainting b = Inr (Some (title s', shapes s'))"
proof (cases "map_of (pending s) n")
  case None
  with assms show ?thesis by (simp add: respond_def)
next
  case (Some krq)
  then obtain k rq where krq: "map_of (pending s) n = Some (k, rq)" by (cases krq) auto
  let ?s1 = "s\<lparr>pending := filter (\<lambda>x. fst x \<noteq> n) (pending s)\<rparr>"
  show ?thesis
  proof (cases k)
    case (PendingAuth m u)
    with assms krq authResponse_fields[of m u r ?s1] show ?thesis by (simp add: respond_pending)
  next
    case PendingSave
    with assms krq saveResponse_state[of r ?s1] show ?thesis by (simp add: respond_pending)
  next
    case PendingRestore
    with assms krq have "restoreResponse r ?s1 = (s', al)" by (simp add: respond_pending)
    with assms(2) restoreResponse_painting[of r ?s1] krq PendingRestore show ?thesis by auto
  qed
qed

lemma send_ids:
  assumes "ids_ok s"
  shows "ids_ok (send k rq s)"
proof -
  have "n \<noteq> next_req s" if "n \<in> fst ` set (pending s)" for n
    using assms that by (auto simp: ids_ok_def list_all_iff)
  then show ?thesis using assms
    by (auto simp: ids_ok_def send_def list_all_iff)
qed

lemma respond_ids:
  assumes "ids_ok s" "respond n r s = (s', al)"
  shows "ids_ok s'"
proof -
  from respond_fields[of n r s] assms(2)
  have "pending s' = filter (\<lambda>x. fst x \<noteq> n) (pending s)" "next_req s' = next_req s" by simp_all
  with assms(1) show ?thesis by (auto simp: ids_ok_def list_all_iff distinct_map_filter_keys)
qed

lemma app_step_ids:
  assumes "ids_ok s" "app_step e s = Inr (s', al)"
  shows "ids_ok s'"
proof (cases e)
  case (CanvasEv ce)
  with assms(2) have "\<exists>al0. canvas_step ce s = Inr (s', al0)" by (cases "canvas_step ce s") auto
  then obtain al0 where "canvas_step ce s = Inr (s', al0)" ..
  from canvas_step_app_fields[OF this] assms(1) show ?thesis by (simp add: ids_ok_def)
next
  case (SubmitAuth u pw)
  with assms show ?thesis
    by (auto simp: handleSubmit_def intro!: send_ids split: option.splits if_splits)
next
  case Save
  with assms show ?thesis by (auto simp: handleSave_def intro!: send_ids split: if_splits)
next
  case Restore
  with assms show ?thesis by (auto simp: handleRestore_def intro!: send_ids split: if_splits)
next
  case (Respond n r)
  with assms show ?thesis by (auto intro: respond_ids)
qed (use assms in \<open>auto simp: ids_ok_def handleLogout_def\<close>)

lemma send_inv:
  assumes "app_inv s" "req_ok k rq"
  shows "app_inv (send k rq s)"
  using assms send_ids[of s k rq] by (auto simp: app_inv_def send_def)

lemma respond_inv:
  assumes "app_inv s" "respond n r s = (s', al)"
  shows "app_inv s'"
proof -
  from respond_fields[of n r s] assms(2)
  have f: "pending s' = filter (\<lambda>x. fst x \<noteq> n) (pending s)" by simp
  have t: "token s' = None \<or> truthy (token s')"
  proof (cases "token s' = token s")
    case True with assms(1) show ?thesis by (simp add: app_inv_def)
  next
    case False from respond_token[OF assms(2) this] show ?thesis by auto
  qed
  from assms(1) have "ids_ok s'" by (intro respond_ids[OF _ assms(2)]) (simp add: app_inv_def)
  with assms(1) f t show ?thesis by (auto simp: app_inv_def list_all_iff)
qed

lemma app_step_inv:
  assumes "app_inv s" "app_step e s = Inr (s', al)"
  shows "app_inv s'"
proof (cases e)
  case (CanvasEv ce)
  with assms(2) have "\<exists>al0. canvas_step ce s = Inr (s', al0)" by (cases "canvas_step ce s") auto
  then obtain al0 where "canvas_step ce s = Inr (s', al0)" ..
  from canvas_step_app_fields[OF this] assms(1) show ?thesis by (simp add: app_inv_def ids_ok_def)
next
  case (SubmitAuth u pw)
  with assms show ?thesis
    by (auto simp: handleSubmit_def req_ok_def intro!: send_inv split: option.splits if_splits)
next
  case Save
  with assms show ?thesis by (auto simp: handleSave_def req_ok_def intro!: send_inv split: if_splits)
next
  case Restore
  with assms show ?thesis by (auto simp: handleRestore_def req_ok_def intro!: send_inv split: if_splits)
next
  case (Respond n r)
  with assms show ?thesis by (auto intro: respond_inv)
qed (use assms in \<open>auto simp: app_inv_def ids_ok_def handleLogout_def\<close>)

section \<open>Properties\<close>

text \<open>C21. Save and restore without a truthy bearer token send no request: the state is returned unchanged (no entry is added to the pending requests) and the user is told to log in.\<close>

theorem save_restore_need_token:
  assumes "\<not> truthy (token s)"
  shows "app_step Save s = Inr (s, [Alert ''You must be logged in to save your painting.''])
       \<and> app_step Restore s = Inr (s, [Alert ''You must be logged in to restore a painting.''])"
  using assms by (simp add: handleSave_def handleRestore_def)

theorem save_restore_need_token_witness:
  "\<not> truthy (token app_init)
   \<and> app_step Save app_init = Inr (app_init, [Alert ''You must be logged in to save your painting.''])
   \<and> app_step Restore app_init = Inr (app_init, [Alert ''You must be logged in to restore a painting.''])"
  using save_restore_need_token[of app_init] by (simp add: app_init_def)

text \<open>C22. The held token changes only on logout, which clears it, or on a successful (2xx) response to a pending signup or login request whose JSON body carries a truthy token, which becomes the held token.\<close>

theorem token_provenance:
  assumes "app_step e s = Inr (s', al)" and "token s' \<noteq> token s"
  shows "(e = Logout \<and> token s' = None)
       \<or> (\<exists>n resp m u rq d t. e = Respond n (Some resp) \<and> map_of (pending s) n = Some (PendingAuth m u, rq)
            \<and> resp_ok resp \<and> resp_json resp = Some d \<and> js_get d ''token'' = Inr (Some t)
            \<and> truthy (Some t) \<and> token s' = Some t)"
  using assms
proof (cases e)
  case (CanvasEv ce)
  with assms have "\<exists>al0. canvas_step ce s = Inr (s', al0)" by (cases "canvas_step ce s") auto
  then obtain al0 where "canvas_step ce s = Inr (s', al0)" ..
  with assms(2) show ?thesis by (auto dest: canvas_step_app_fields)
next
  case (SubmitAuth u pw)
  with assms show ?thesis by (auto simp: handleSubmit_def send_def split: option.splits if_splits)
next
  case (Respond n r)
  with assms have "respond n r s = (s', al)" by simp
  from respond_token[OF this assms(2)] Respond show ?thesis by blast
qed (auto simp: handleLogout_def handleSave_def handleRestore_def send_def split: if_splits)

theorem token_provenance_witness:
  "app_step (Respond 0 (Some (ok_resp (JObj [(''token'', JStr ''jwt'')])))) awaiting_login
     = Inr (logged_in\<lparr>next_req := 1\<rparr>, [Alert ''Successfully logged in as bob''])
   \<and> token (logged_in\<lparr>next_req := 1\<rparr>) \<noteq> token awaiting_login
   \<and> ((Respond 0 (Some (ok_resp (JObj [(''token'', JStr ''jwt'')]))) = Logout \<and> token (logged_in\<lparr>next_req := 1\<rparr>) = None)
      \<or> (\<exists>n resp m u rq d t. Respond 0 (Some (ok_resp (JObj [(''token'', JStr ''jwt'')]))) = Respond n (Some resp)
            \<and> map_of (pending awaiting_login) n = Some (PendingAuth m u, rq)
            \<and> resp_ok resp \<and> resp_json resp = Some d \<and> js_get d ''token'' = Inr (Some t)
            \<and> truthy (Some t) \<and> token (logged_in\<lparr>next_req := 1\<rparr>) = Some t))"
proof -
  have step: "app_step (Respond 0 (Some (ok_resp (JObj [(''token'', JStr ''jwt'')])))) awaiting_login
     = Inr (logged_in\<lparr>next_req := 1\<rparr>, [Alert ''Successfully logged in as bob''])"
    by (simp add: respond_def authResponse_def handleAuthSuccess_def resp_ok_def app_init_def)
  have ne: "token (logged_in\<lparr>next_req := 1\<rparr>) \<noteq> token awaiting_login" by (simp add: app_init_def)
  from step ne token_provenance[OF step ne] show ?thesis by blast
qed

text \<open>C23. Every reachable session state satisfies the bookkeeping invariant: distinct request ids below the counter, credentials only on painting requests, and an absent or truthy token.\<close>

theorem app_reach_inv: "app_reach s \<Longrightarrow> app_inv s"
proof (induction rule: app_reach.induct)
  case init
  show ?case by (simp add: app_inv_def ids_ok_def app_init_def)
next
  case (step s e s' al)
  from step.IH step.hyps(2) show ?case by (rule app_step_inv)
qed

theorem app_reach_inv_witness:
  "app_inv awaiting_login"
proof -
  have r0: "app_reach (app_init\<lparr>authModal := Some Login\<rparr>)"
    by (rule app_reach.step[OF app_reach.init, of OpenLogin]) simp
  have "app_reach awaiting_login"
    by (rule app_reach.step[OF r0, of "SubmitAuth ''bob'' ''pw''"])
       (simp add: handleSubmit_def send_def app_init_def)
  then show ?thesis using app_reach_inv by (simp add: app_init_def)
qed

text \<open>C24. Saving sends the current painting with the held token; when a later restore is answered with exactly that body, the restored title and shapes are those of the saved document, whatever edits came in between.\<close>

theorem save_restore_roundtrip:
  assumes "truthy (token s0)" "truthy (Some (title s0))" "app_step Save s0 = Inr (s1, al)"
    "map_of (pending s) n = Some (PendingRestore, rq)" "resp_ok p"
  shows "\<exists>rq0 b. (next_req s0, PendingSave, rq0) \<in> set (pending s1) \<and> req_token rq0 = token s0
           \<and> req_body rq0 = Some b
           \<and> title (fst (respond n (Some (p\<lparr>resp_json := Some b\<rparr>)) s)) = title s0
           \<and> shapes (fst (respond n (Some (p\<lparr>resp_json := Some b\<rparr>)) s)) = shapes s0"
proof -
  let ?rq0 = "\<lparr>req_url = painting_url, req_method = POST, req_token = token s0,
               req_body = Some (painting_json s0)\<rparr>"
  let ?p = "p\<lparr>resp_json := Some (painting_json s0)\<rparr>"
  let ?s1 = "s\<lparr>pending := filter (\<lambda>x. fst x \<noteq> n) (pending s)\<rparr>"
  have v: "validatePainting (painting_json s0) = Inr (Some (title s0, shapes s0))"
    using assms(2) by (rule validatePainting_painting_json)
  from assms(1,3) have "(next_req s0, PendingSave, ?rq0) \<in> set (pending s1)"
    by (auto simp: handleSave_def send_def)
  moreover from assms(4) have "respond n (Some ?p) s = restoreResponse (Some ?p) ?s1"
    by (simp add: respond_pending)
  moreover from assms(5) v have "restoreResponse (Some ?p) ?s1 =
      (?s1\<lparr>title := title s0, shapes := shapes s0\<rparr>, [Alert ''Your painting has been restored successfully.''])"
    by (intro restoreResponse_ok) (simp_all add: resp_ok_def)
  ultimately show ?thesis by (intro exI[of _ ?rq0] exI[of _ "painting_json s0"]) simp
qed

theorem save_restore_roundtrip_witness:
  "title (fst (respond 0 (Some (ok_resp (painting_json (logged_in\<lparr>title := JStr ''Art''\<rparr>))))
       (logged_in\<lparr>pending := [(0, PendingRestore, restore_req)]\<rparr>))) = JStr ''Art''"
proof -
  have save: "app_step Save (logged_in\<lparr>title := JStr ''Art''\<rparr>) = Inr (fst (handleSave (logged_in\<lparr>title := JStr ''Art''\<rparr>)), [])"
    by (simp add: handleSave_def)
  obtain rq0 b where "(next_req (logged_in\<lparr>title := JStr ''Art''\<rparr>), PendingSave, rq0) \<in> set (pending (fst (handleSave (logged_in\<lparr>title := JStr ''Art''\<rparr>))))"
    and "req_body rq0 = Some b"
    and t: "title (fst (respond 0 (Some ((ok_resp JNull)\<lparr>resp_json := Some b\<rparr>)) (logged_in\<lparr>pending := [(0, PendingRestore, restore_req)]\<rparr>))) = JStr ''Art''"
    using save_restore_roundtrip[OF _ _ save, where s="logged_in\<lparr>pending := [(0, PendingRestore, restore_req)]\<rparr>" and n=0 and rq=restore_req and p="ok_resp JNull"] by (auto simp: resp_ok_def app_init_def)
  then have "b = painting_json (logged_in\<lparr>title := JStr ''Art''\<rparr>)"
    by (auto simp: handleSave_def send_def app_init_def)
  with t show ?thesis by simp
qed

text \<open>C25. A restore answered with 404 reports that no painting is saved, distinctly from a server error carrying a message and from a transport failure; neither changes the painting.\<close>

theorem restore_404_distinct:
  assumes "map_of (pending s) n = Some (PendingRestore, rq)"
  shows "snd (respond n (Some \<lparr>resp_status = 404, resp_json = j\<rparr>) s) = [Alert msg_no_saved]
       \<and> snd (respond n (Some \<lparr>resp_status = 500, resp_json = Some (JObj [(''message'', JStr ''boom'')])\<rparr>) s)
           = [AlertVal ''Error restoring painting: '' (JStr ''boom'')]
       \<and> snd (respond n None s) = [Alert msg_restore_connect]
       \<and> msg_no_saved \<noteq> msg_restore_connect
       \<and> title (fst (respond n (Some \<lparr>resp_status = 404, resp_json = j\<rparr>) s)) = title s
       \<and> shapes (fst (respond n (Some \<lparr>resp_status = 404, resp_json = j\<rparr>) s)) = shapes s
       \<and> title (fst (respond n (Some \<lparr>resp_status = 500, resp_json = Some (JObj [(''message'', JStr ''boom'')])\<rparr>) s)) = title s
       \<and> shapes (fst (respond n (Some \<lparr>resp_status = 500, resp_json = Some (JObj [(''message'', JStr ''boom'')])\<rparr>) s)) = shapes s"
  using assms
  by (simp add: respond_pending restoreResponse_def resp_ok_def msg_no_saved_def msg_restore_connect_def)

theorem restore_404_distinct_witness:
  "snd (respond 0 (Some \<lparr>resp_status = 404, resp_json = None\<rparr>) (logged_in\<lparr>pending := [(0, PendingRestore, restore_req)]\<rparr>))
     = [Alert msg_no_saved]"
  using restore_404_distinct[of "logged_in\<lparr>pending := [(0, PendingRestore, restore_req)]\<rparr>" 0 restore_req None] by simp

text \<open>C26. A delivered response changes the painting only when it answers a pending restore with a 2xx JSON body that passes the import validation, and the painting becomes that body's title and shapes.\<close>

theorem respond_painting_change:
  assumes "app_step (Respond n r) s = Inr (s', al)" "(title s', shapes s') \<noteq> (title s, shapes s)"
  shows "\<exists>rq p b. map_of (pending s) n = Some (PendingRestore, rq) \<and> r = Some p \<and> resp_ok p
           \<and> resp_json p = Some b \<and> validatePainting b = Inr (Some (title s', shapes s'))"
proof -
  from assms(1) have "respond n r s = (s', al)" by simp
  from respond_painting [OF this assms(2)] show ?thesis .
qed

theorem respond_painting_change_witness:
  "app_step (Respond 0 (Some (ok_resp saved_body))) (logged_in\<lparr>pending := [(0, PendingRestore, restore_req)]\<rparr>)
     = Inr (logged_in\<lparr>title := JStr ''Art'', shapes := [shape_json \<lparr>shape_id = ''a'', shape_type = Square, shape_x = 1, shape_y = 2\<rparr>]\<rparr>,
            [Alert ''Your painting has been restored successfully.''])
   \<and> validatePainting saved_body = Inr (Some (JStr ''Art'', [shape_json \<lparr>shape_id = ''a'', shape_type = Square, shape_x = 1, shape_y = 2\<rparr>]))"
proof -
  have step: "app_step (Respond 0 (Some (ok_resp saved_body))) (logged_in\<lparr>pending := [(0, PendingRestore, restore_req)]\<rparr>)
     = Inr (logged_in\<lparr>title := JStr ''Art'', shapes := [shape_json \<lparr>shape_id = ''a'', shape_type = Square, shape_x = 1, shape_y = 2\<rparr>]\<rparr>,
            [Alert ''Your painting has been restored successfully.''])"
    by (simp add: respond_def restoreResponse_def resp_ok_def validatePainting_def app_init_def)
  have ne: "(title (logged_in\<lparr>title := JStr ''Art'', shapes := [shape_json \<lparr>shape_id = ''a'', shape_type = Square, shape_x = 1, shape_y = 2\<rparr>]\<rparr>),
             shapes (logged_in\<lparr>title := JStr ''Art'', shapes := [shape_json \<lparr>shape_id = ''a'', shape_type = Square, shape_x = 1, shape_y = 2\<rparr>]\<rparr>))
           \<noteq> (title (logged_in\<lparr>pending := [(0, PendingRestore, restore_req)]\<rparr>), shapes (logged_in\<lparr>pending := [(0, PendingRestore, restore_req)]\<rparr>))"
    by (simp add: app_init_def)
  from respond_painting_change[OF step ne] step show ?thesis by auto
qed

text \<open>C27. Two overlapping restores: whichever response is delivered last determines the painting (last-response-wins), independently of the order the requests were sent.\<close>

theorem restore_last_response_wins:
  assumes "map_of (pending s) n1 = Some (PendingRestore, r1)" "map_of (pending s) n2 = Some (PendingRestore, r2)"
    "n1 \<noteq> n2" "resp_ok p1" "resp_json p1 = Some b1" "validatePainting b1 = Inr (Some (t1, vs1))"
    "resp_ok p2" "resp_json p2 = Some b2" "validatePainting b2 = Inr (Some (t2, vs2))"
  shows "title (fst (respond n2 (Some p2) (fst (respond n1 (Some p1) s)))) = t2
       \<and> shapes (fst (respond n2 (Some p2) (fst (respond n1 (Some p1) s)))) = vs2"
  using assms by (simp add: respond_pending restoreResponse_ok map_of_filter_other)

theorem restore_last_response_wins_witness:
  "map_of (pending (logged_in\<lparr>pending := [(0, PendingRestore, restore_req), (1, PendingRestore, restore_req)]\<rparr>)) 0 = Some (PendingRestore, restore_req)
   \<and> title (fst (respond 0 (Some (ok_resp (JObj [(''title'', JStr ''B''), (''shapes'', JArr [])])))
        (fst (respond 1 (Some (ok_resp saved_body)) (logged_in\<lparr>pending := [(0, PendingRestore, restore_req), (1, PendingRestore, restore_req)]\<rparr>))))) = JStr ''B''"
  using restore_last_response_wins[of "logged_in\<lparr>pending := [(0, PendingRestore, restore_req), (1, PendingRestore, restore_req)]\<rparr>"
      1 restore_req 0 restore_req "ok_resp saved_body" saved_body "JStr ''Art''" _ "ok_resp (JObj [(''title'', JStr ''B''), (''shapes'', JArr [])])"]
  by (simp add: resp_ok_def validatePainting_def)

text \<open>C28. A non-2xx response other than 404 whose body is not JSON is reported exactly as a transport failure (no network), for signup/login, save and restore alike.\<close>

theorem error_without_json_is_connect_failure:
  assumes "\<not> resp_ok p" "resp_json p = None" "resp_status p \<noteq> 404"
  shows "respond n (Some p) s = respond n None s"
  using assms
  by (cases "map_of (pending s) n")
     (auto simp: respond_def Let_def authResponse_def saveResponse_def restoreResponse_def
      split: pending_kind.splits)

theorem error_without_json_is_connect_failure_witness:
  "respond 0 (Some \<lparr>resp_status = 500, resp_json = None\<rparr>) (logged_in\<lparr>pending := [(0, PendingSave, restore_req)]\<rparr>)
     = respond 0 None (logged_in\<lparr>pending := [(0, PendingSave, restore_req)]\<rparr>)
   \<and> snd (respond 0 None (logged_in\<lparr>pending := [(0, PendingSave, restore_req)]\<rparr>)) = [Alert msg_save_connect]"
  using error_without_json_is_connect_failure[of "\<lparr>resp_status = 500, resp_json = None\<rparr>" 0 "logged_in\<lparr>pending := [(0, PendingSave, restore_req)]\<rparr>"]
  by (simp add: resp_ok_def respond_def saveResponse_def)

lemma map_of_fresh_snoc:
  "ids_ok s \<Longrightarrow> map_of (pending s @ [(next_req s, v)]) (next_req s) = Some v"
  by (auto simp: ids_ok_def list_all_iff map_add_def map_of_eq_None_iff split: option.split)

lemma filter_fresh_snoc:
  "ids_ok s \<Longrightarrow> filter (\<lambda>x. fst x \<noteq> next_req s) (pending s @ [(next_req s, v)]) = pending s"
  by (auto simp: ids_ok_def list_all_iff intro!: filter_True)

text \<open>
  C29. A 2xx answer without a truthy token to any pending authentication request, a login
  as much as a signup, closes the modal, holds no token and says that sign up succeeded
  and the user should log in.
\<close>

theorem login_without_token_reports_signup:
  assumes "map_of (pending s) n = Some (PendingAuth m u, rq)" "resp_ok resp" "resp_json resp = Some data"
    "js_get data ''token'' = Inr t" "\<not> truthy t"
  shows "app_step (Respond n (Some resp)) s
           = Inr (s\<lparr>pending := filter (\<lambda>x. fst x \<noteq> n) (pending s), authModal := None\<rparr>,
                  [Alert ''Sign up successful! Please log in to continue.''])"
  using assms by (cases t) (auto simp: respond_pending authResponse_def)

theorem login_without_token_reports_signup_witness:
  "app_step (Respond 0 (Some (ok_resp (JObj [])))) awaiting_login
     = Inr (awaiting_login\<lparr>pending := [], authModal := None\<rparr>, [Alert ''Sign up successful! Please log in to continue.''])"
  using login_without_token_reports_signup[where s=awaiting_login and n=0 and m=Login and u="''bob''"
      and rq=login_req and resp="ok_resp (JObj [])" and data="JObj []" and t=None]
  by (simp add: resp_ok_def)

text \<open>
  C30. Closing the modal does not cancel a login in flight: from any session with the modal
  open, submitting credentials, closing the modal, and then receiving a 2xx answer with a
  truthy token logs the user in.
\<close>

theorem closed_modal_still_logs_in:
  assumes "ids_ok s" "authModal s = Some m" "u \<noteq> []" "pw \<noteq> []"
    "resp_ok resp" "resp_json resp = Some data" "js_get data ''token'' = Inr (Some t)" "truthy (Some t)"
  shows "\<exists>al. app_run [SubmitAuth u pw, CloseModal, Respond (next_req s) (Some resp)] s
                = Inr (s\<lparr>token := Some t, authModal := None, next_req := Suc (next_req s)\<rparr>, al)"
  using assms map_of_fresh_snoc[OF assms(1)] filter_fresh_snoc[OF assms(1)]
  by (simp add: handleSubmit_def send_def respond_def authResponse_def handleAuthSuccess_def)

theorem closed_modal_still_logs_in_witness:
  "\<exists>al. app_run [SubmitAuth ''bob'' ''pw'', CloseModal, Respond 0 (Some (ok_resp (JObj [(''token'', JStr ''jwt'')])))]
          (app_init\<lparr>authModal := Some Login\<rparr>)
        = Inr (app_init\<lparr>token := Some (JStr ''jwt''), authModal := None, next_req := 1\<rparr>, al)"
  using closed_modal_still_logs_in[where s="app_init\<lparr>authModal := Some Login\<rparr>" and m=Login and u="''bob''"
      and pw="''pw''" and resp="ok_resp (JObj [(''token'', JStr ''jwt'')])" and data="JObj [(''token'', JStr ''jwt'')]"
      and t="JStr ''jwt''"]
  by (simp add: resp_ok_def ids_ok_def app_init_def)

text \<open>
  C31. From any logged-in session, a restore sent before a logout still replaces the
  painting when its valid answer arrives afterwards, although no credential is held any
  more.
\<close>

theorem restore_after_logout_applies:
  assumes "ids_ok s" "truthy (token s)" "resp_ok resp" "resp_json resp = Some body"
    "validatePainting body = Inr (Some (t, vs))"
  shows "\<exists>al. app_run [Restore, Logout, Respond (next_req s) (Some resp)] s
                = Inr (s\<lparr>title := t, shapes := vs, token := None, next_req := Suc (next_req s)\<rparr>, al)"
  using assms map_of_fresh_snoc[OF assms(1)] filter_fresh_snoc[OF assms(1)]
  by (simp add: handleRestore_def handleLogout_def send_def respond_def restoreResponse_def)

theorem restore_after_logout_applies_witness:
  "\<exists>al. app_run [Restore, Logout, Respond 0 (Some (ok_resp saved_body))] logged_in
        = Inr (logged_in\<lparr>title := JStr ''Art'', shapes := [shape_json \<lparr>shape_id = ''a'', shape_type = Square, shape_x = 1, shape_y = 2\<rparr>],
                 token := None, next_req := 1\<rparr>, al)"
  using restore_after_logout_applies[where s=logged_in and resp="ok_resp saved_body" and body=saved_body
      and t="JStr ''Art''" and vs="[shape_json \<lparr>shape_id = ''a'', shape_type = Square, shape_x = 1, shape_y = 2\<rparr>]"]
  by (simp add: resp_ok_def ids_ok_def app_init_def validatePainting_def)

end
