(* ===== verification/Render.thy ===== *)
theory Render
  imports Session
begin

text \<open>
  The JSX components of \<^verbatim>\<open>src/HW3/frontend/src/App.tsx\<close> that decide which handler
  an input reaches: \<^verbatim>\<open>Shape\<close> (the SVG element of each shape, whose \<^verbatim>\<open>onClick\<close>
  stops propagation and whose \<^verbatim>\<open>onDoubleClick\<close> deletes it), \<^verbatim>\<open>Canvas\<close> (the
  transparent background, the placeholder text, the shapes in document order, the
  \<^verbatim>\<open>onClick\<close> of the \<^verbatim>\<open>svg\<close>) and \<^verbatim>\<open>Header\<close> (the buttons shown for
  \<^verbatim>\<open>isLoggedIn = !!token\<close>). The browser's hit testing is part of the environment:
  a pointer event goes to the topmost element whose area contains the point (later
  elements paint over earlier ones), tested in document coordinates, i.e. at the point
  \<open>svgPoint\<close> computes; stroke width and the rounded corners of squares are ignored.
  A double-click is delivered as two clicks followed by a \<^verbatim>\<open>dblclick\<close>.
  \<^verbatim>\<open>src/HW2/src/App.tsx\<close> declares the same \<^verbatim>\<open>Toolbar\<close>, \<^verbatim>\<open>Canvas\<close>,
  \<^verbatim>\<open>Shape\<close> and \<^verbatim>\<open>Footer\<close> components; its \<^verbatim>\<open>Header\<close> has only the title input
  and the export and import buttons.
\<close>

section \<open>SVG elements\<close>

datatype svg =
    SvgBackground
  | SvgText string
  | SvgCircle real real real
  | SvgRect real real real real
  | SvgPolygon "(real \<times> real) list"

definition shapeElem :: "Shape \<Rightarrow> svg" where
  "shapeElem sh =
     (let x = shape_x sh; y = shape_y sh in
      case shape_type sh of
        Circle \<Rightarrow> SvgCircle x y 20
      | Square \<Rightarrow> SvgRect (x - 20) (y - 20) 40 40
      | Triangle \<Rightarrow> SvgPolygon [(x, y - 23), (x - 20, y + 17), (x + 20, y + 17)])"

text \<open>A rendered node: its element, and for a \<^verbatim>\<open>Shape\<close> the identifier its handlers carry.\<close>

datatype node = Node (n_elem: svg) (n_shape: "string option")

definition shapeNode :: "Shape \<Rightarrow> node" where
  "shapeNode sh = Node (shapeElem sh) (Some (shape_id sh))"

definition canvasView :: "Shape list \<Rightarrow> node list" where
  "canvasView shs =
     Node SvgBackground None # (if shs = [] then [Node (SvgText ''Canvas'') None] else [])
     @ map shapeNode shs"

section \<open>Hit testing (environment)\<close>

definition cross :: "real \<times> real \<Rightarrow> real \<times> real \<Rightarrow> real \<times> real \<Rightarrow> real" where
  "cross a b p = (fst b - fst a) * (snd p - snd a) - (snd b - snd a) * (fst p - fst a)"

fun inside :: "svg \<Rightarrow> real \<times> real \<Rightarrow> bool" where
  "inside SvgBackground p = True"
| "inside (SvgText t) p = False"
| "inside (SvgCircle cx cy r) p = ((fst p - cx)\<^sup>2 + (snd p - cy)\<^sup>2 \<le> r\<^sup>2)"
| "inside (SvgRect x y w h) p = (x \<le> fst p \<and> fst p \<le> x + w \<and> y \<le> snd p \<and> snd p \<le> y + h)"
| "inside (SvgPolygon [a, b, c]) p =
     ((0 \<le> cross a b p \<and> 0 \<le> cross b c p \<and> 0 \<le> cross c a p)
      \<or> (cross a b p \<le> 0 \<and> cross b c p \<le> 0 \<and> cross c a p \<le> 0))"
| "inside (SvgPolygon vs) p = False"

definition shapeAt :: "Shape list \<Rightarrow> real \<times> real \<Rightarrow> Shape option" where
  "shapeAt shs p = find (\<lambda>sh. inside (shapeElem sh) p) (rev shs)"

definition topmost :: "node list \<Rightarrow> real \<times> real \<Rightarrow> node option" where
  "topmost ns p = find (\<lambda>n. inside (n_elem n) p) (rev ns)"

section \<open>Pointer input\<close>

datatype gesture = Click pointer | DoubleClick pointer

text \<open>
  The handler a pointer event reaches: a click on a shape stops there, any other click
  bubbles to the \<^verbatim>\<open>svg\<close>'s \<^verbatim>\<open>onClick\<close> (placing a shape with the fresh identifier
  \<open>u\<close>); a \<^verbatim>\<open>dblclick\<close> on a shape deletes by its identifier, elsewhere it has no handler.
\<close>

definition pointer_event :: "string \<Rightarrow> gesture \<Rightarrow> Shape list \<Rightarrow> canvas_event option" where
  "pointer_event u g shs =
     (case g of
        Click ev \<Rightarrow>
          (case topmost (canvasView shs) (svgPoint ev) of
             Some (Node e (Some i)) \<Rightarrow> None
           | _ \<Rightarrow> Some (CanvasClick u ev))
      | DoubleClick ev \<Rightarrow>
          (case topmost (canvasView shs) (svgPoint ev) of
             Some (Node e (Some i)) \<Rightarrow> Some (DoubleClickShape i)
           | _ \<Rightarrow> None))"

text \<open>
  One pointer event on the rendered canvas; \<open>None\<close> when the state's shapes are not all
  shape objects, whose rendering the model does not cover.
\<close>

definition ui_step ::
  "string \<Rightarrow> gesture \<Rightarrow> 'a canvas_scheme \<Rightarrow> ('a canvas_scheme \<times> string list) js option" where
  "ui_step u g s =
     (case those (map shape_of_json (shapes s)) of
        None \<Rightarrow> None
      | Some shs \<Rightarrow>
          (case pointer_event u g shs of
             None \<Rightarrow> Some (Inr (s, []))
           | Some e \<Rightarrow> Some (canvas_step e s)))"

fun ui_run ::
  "(string \<times> gesture) list \<Rightarrow> 'a canvas_scheme \<Rightarrow> ('a canvas_scheme \<times> string list) js option" where
  "ui_run [] s = Some (Inr (s, []))"
| "ui_run ((u, g) # gs) s =
     (case ui_step u g s of
        None \<Rightarrow> None
      | Some (Inl e) \<Rightarrow> Some (Inl e)
      | Some (Inr (s', al)) \<Rightarrow>
          (case ui_run gs s' of
             Some (Inr (s'', al')) \<Rightarrow> Some (Inr (s'', al @ al'))
           | r \<Rightarrow> r))"

definition double_click :: "string \<Rightarrow> string \<Rightarrow> pointer \<Rightarrow> (string \<times> gesture) list" where
  "double_click u1 u2 ev = [(u1, Click ev), (u2, Click ev), (u2, DoubleClick ev)]"

section \<open>Header\<close>

datatype button = ExportBtn | ImportBtn | SaveBtn | RestoreBtn | LogoutBtn | SignUpBtn | LoginBtn

definition headerButtons :: "bool \<Rightarrow> button list" where
  "headerButtons isLoggedIn =
     [ExportBtn, ImportBtn] @ (if isLoggedIn then [SaveBtn, RestoreBtn, LogoutBtn] else [SignUpBtn, LoginBtn])"

text \<open>The session event a header button dispatches; export and import act on the host (download, file dialog).\<close>

fun button_event :: "button \<Rightarrow> app_event option" where
  "button_event SaveBtn = Some Save"
| "button_event RestoreBtn = Some Restore"
| "button_event LogoutBtn = Some Logout"
| "button_event SignUpBtn = Some OpenSignUp"
| "button_event LoginBtn = Some OpenLogin"
| "button_event ExportBtn = None"
| "button_event ImportBtn = None"

text \<open>
  HW2's \<^verbatim>\<open>Header\<close>: the controlled title input and the Export and Import buttons.
  What the host is asked to do is a \<open>host_effect\<close>: the download \<^verbatim>\<open>handleExport\<close>
  starts with \<^verbatim>\<open>link.click()\<close>, and the file dialog \<^verbatim>\<open>handleImportClick\<close> opens
  by clicking the hidden file input (whose \<^verbatim>\<open>onChange\<close> is \<open>handleFileChange\<close>).
\<close>

datatype host_effect = StartDownload download | OpenFileDialog

definition handleImportClick :: "host_effect list" where
  "handleImportClick = [OpenFileDialog]"

datatype header_action = TypeTitle string | ClickExport | ClickImport

fun header_event :: "header_action \<Rightarrow> 'a canvas_scheme \<Rightarrow> ('a canvas_scheme \<times> host_effect list) js" where
  "header_event (TypeTitle v) s = Inr (setTitle v s, [])"
| "header_event ClickExport s = map_sum id (\<lambda>d. (s, [StartDownload d])) (handleExport s)"
| "header_event ClickImport s = Inr (s, handleImportClick)"

text \<open>The header's controls as rendered: the input's value is the title state.\<close>

datatype header_control = TitleInput jval | ExportButton | ImportButton

definition headerView :: "'a canvas_scheme \<Rightarrow> header_control list" where
  "headerView s = [TitleInput (title s), ExportButton, ImportButton]"

section \<open>Toolbar and footer\<close>

text \<open>
  \<^verbatim>\<open>Toolbar\<close>: the three tools in the order of its \<^verbatim>\<open>tools\<close> array, each with
  whether it carries the \<^verbatim>\<open>selected\<close> class; a click on a tool dispatches
  \<open>SelectTool\<close>, a drag start \<open>DragStart\<close> (events of \<open>canvas_step\<close>).
  \<^verbatim>\<open>Footer\<close>: the three numbers it shows.
\<close>

definition toolbarView :: "ShapeType \<Rightarrow> (ShapeType \<times> bool) list" where
  "toolbarView selected = map (\<lambda>t. (t, selected = t)) [Circle, Square, Triangle]"

definition footerView :: "ShapeCounts \<Rightarrow> nat list" where
  "footerView c = [circle c, square c, triangle c]"

section \<open>Lemmas\<close>

lemma inside_shapeElem_anchor [simp]: "inside (shapeElem sh) (shape_x sh, shape_y sh)"
proof (cases "shape_type sh")
  case Circle then show ?thesis by (simp add: shapeElem_def)
next
  case Square then show ?thesis by (simp add: shapeElem_def)
next
  case Triangle then show ?thesis by (simp add: shapeElem_def cross_def Let_def)
qed

lemma topmost_snoc:
  "topmost (ns @ [n]) p = (if inside (n_elem n) p then Some n else topmost ns p)"
  by (simp add: topmost_def)


lemma find_append_option:
  "find P (xs @ ys) = (case find P xs of None \<Rightarrow> find P ys | Some x \<Rightarrow> Some x)"
  by (induction xs) auto

lemma find_map_option: "find P (map f xs) = map_option f (find (\<lambda>x. P (f x)) xs)"
  by (induction xs) auto

lemma topmost_canvasView:
  "topmost (canvasView shs) p =
     (case shapeAt shs p of
        Some sh \<Rightarrow> Some (shapeNode sh)
      | None \<Rightarrow> Some (Node SvgBackground None))"
  by (auto simp: topmost_def shapeAt_def canvasView_def find_append_option rev_map find_map_option shapeNode_def
      split: option.splits)


lemma inside_newShape: "inside (shapeElem (newShape u t p)) p"
  using inside_shapeElem_anchor[of "newShape u t p"] by (simp add: newShape_def)

lemma shapeAt_snoc_newShape: "shapeAt (shs @ [newShape u t p]) p = Some (newShape u t p)"
  by (simp add: shapeAt_def inside_newShape)

lemma pointer_event_Click:
  "pointer_event u (Click ev) shs =
     (case shapeAt shs (svgPoint ev) of None \<Rightarrow> Some (CanvasClick u ev) | Some sh \<Rightarrow> None)"
  by (simp add: pointer_event_def topmost_canvasView shapeNode_def split: option.splits)

lemma pointer_event_DoubleClick:
  "pointer_event u (DoubleClick ev) shs =
     map_option (\<lambda>sh. DoubleClickShape (shape_id sh)) (shapeAt shs (svgPoint ev))"
  by (simp add: pointer_event_def topmost_canvasView shapeNode_def split: option.splits)

lemma filter_js_append_Inr:
  "filter_js p xs = Inr as \<Longrightarrow> filter_js p ys = Inr bs \<Longrightarrow> filter_js p (xs @ ys) = Inr (as @ bs)"
  by (induction xs arbitrary: as) (auto split: sum.splits)

lemma shape_id_newShape [simp]: "shape_id (newShape u t p) = u"
  by (simp add: newShape_def)

lemma delete_fresh_keeps:
  assumes "those (map shape_of_json vs) = Some ss"
    and "list_all (\<lambda>v. js_get v ''id'' \<noteq> Inr (Some (JStr u))) vs"
  shows "filter_js (delete_pred u) vs = Inr vs"
  using assms
proof (induction vs arbitrary: ss)
  case Nil
  then show ?case by simp
next
  case (Cons v vs)
  then obtain sh ss' where v: "shape_of_json v = Some sh" and vs: "those (map shape_of_json vs) = Some ss'"
    by (auto split: option.splits)
  from shape_of_json_id[OF v] Cons.prems(2) have "delete_pred u v = Inr True"
    by (auto simp: delete_pred_def strict_neq_str_def)
  with Cons.IH[OF vs] Cons.prems(2) show ?case by simp
qed

lemma delete_pred_shape_json: "delete_pred (shape_id sh) (shape_json sh) = Inr False"
  using shape_of_json_id[OF shape_of_json_shape_json[of sh]]
  by (simp add: delete_pred_def strict_neq_str_def)

lemma shapeCounts_decoded:
  assumes "painting_of s = Some d"
  shows "shapeCounts s = Inr (tally \<lparr>circle = 0, square = 0, triangle = 0\<rparr> (pd_shapes d))"
  using foldl_count_shape_decoded [OF painting_of_shapes [OF assms]] by (simp add: shapeCounts_def)

lemma canvasView_shape_nodes:
  "length (filter (\<lambda>n. n_shape n \<noteq> None) (canvasView shs)) = length shs"
  by (simp add: canvasView_def shapeNode_def comp_def)

lemma inside_circle_bounds:
  assumes "(px - x)\<^sup>2 + (py - y)\<^sup>2 \<le> (20::real)\<^sup>2"
  shows "\<bar>px - x\<bar> \<le> 20 \<and> \<bar>py - y\<bar> \<le> 20"
proof -
  have "(px - x)\<^sup>2 \<le> 20\<^sup>2" "(py - y)\<^sup>2 \<le> 20\<^sup>2"
    using assms zero_le_power2 [of "px - x"] zero_le_power2 [of "py - y"] by linarith+
  then show ?thesis using abs_le_square_iff [of "px - x" 20] abs_le_square_iff [of "py - y" 20] by simp
qed

lemma header_event_error:
  "header_event a s = Inl e \<longleftrightarrow> a = ClickExport \<and> e = TypeError \<and> (\<forall>t. title s \<noteq> JStr t)"
  by (cases a) (auto simp: handleExport_def split: jval.splits)

lemma header_event_state:
  "header_event a s = Inr (s', fx) \<Longrightarrow> s' = (case a of TypeTitle v \<Rightarrow> setTitle v s | _ \<Rightarrow> s)"
  by (cases a) (auto simp: map_sum_id_Inr_iff handleImportClick_def)

section \<open>Properties\<close>

text \<open>C38. The area a rendered shape covers stays within 20 units of its anchor horizontally and between 23 above and 20 below it: a pointer event farther from a shape's coordinates cannot reach that shape.\<close>

theorem shapeElem_bounds:
  assumes "inside (shapeElem sh) p"
  shows "\<bar>fst p - shape_x sh\<bar> \<le> 20 \<and> shape_y sh - 23 \<le> snd p \<and> snd p \<le> shape_y sh + 20"
proof (cases "shape_type sh")
  case Circle
  with assms have "\<bar>fst p - shape_x sh\<bar> \<le> 20 \<and> \<bar>snd p - shape_y sh\<bar> \<le> 20"
    by (intro inside_circle_bounds) (simp add: shapeElem_def)
  then show ?thesis by linarith
next
  case Square
  with assms show ?thesis by (simp add: shapeElem_def Let_def) linarith
next
  case Triangle
  with assms show ?thesis by (simp add: shapeElem_def cross_def Let_def) linarith
qed

text \<open>C39. On a well-typed painting the canvas shows its "Canvas" placeholder exactly when the footer shows three zeros, and the footer's numbers add up to the number of shapes the canvas draws.\<close>

theorem placeholder_iff_no_counts:
  assumes "painting_of s = Some d"
  shows "\<exists>c. shapeCounts s = Inr c
           \<and> (Node (SvgText ''Canvas'') None \<in> set (canvasView (pd_shapes d)) \<longleftrightarrow> footerView c = [0, 0, 0])
           \<and> sum_list (footerView c) = length (filter (\<lambda>n. n_shape n \<noteq> None) (canvasView (pd_shapes d)))"
proof -
  let ?c = "tally \<lparr>circle = 0, square = 0, triangle = 0\<rparr> (pd_shapes d)"
  have sum: "sum_list (footerView ?c) = length (pd_shapes d)"
    using length_filter_ShapeType [of "pd_shapes d"] by (simp add: footerView_def tally_counts)
  have "Node (SvgText ''Canvas'') None \<in> set (canvasView (pd_shapes d)) \<longleftrightarrow> pd_shapes d = []"
    by (auto simp: canvasView_def shapeNode_def)
  moreover have "footerView ?c = [0, 0, 0] \<longleftrightarrow> pd_shapes d = []"
    using sum by (auto simp: footerView_def)
  ultimately show ?thesis
    using shapeCounts_decoded [OF assms] sum canvasView_shape_nodes [of "pd_shapes d"] by auto
qed

theorem shapeElem_bounds_witness:
  "inside (shapeElem \<lparr>shape_id = ''c'', shape_type = Circle, shape_x = 0, shape_y = 0\<rparr>) (3, 4)
   \<and> \<bar>fst (3::real, 4::real) - 0\<bar> \<le> 20"
proof -
  have i: "inside (shapeElem \<lparr>shape_id = ''c'', shape_type = Circle, shape_x = 0, shape_y = 0\<rparr>) (3, 4)"
    by (simp add: shapeElem_def power2_eq_square)
  from shapeElem_bounds [OF i] i show ?thesis by simp
qed

theorem placeholder_iff_no_counts_witness:
  "\<exists>c. shapeCounts canvas_init = Inr c \<and> footerView c = [0, 0, 0]
     \<and> Node (SvgText ''Canvas'') None \<in> set (canvasView [])"
proof -
  have p: "painting_of canvas_init = Some \<lparr>pd_title = ''Untitled'', pd_shapes = []\<rparr>"
    by (simp add: painting_of_def canvas_init_def)
  from placeholder_iff_no_counts [OF p] show ?thesis by (auto simp: canvasView_def)
qed

end
