(* ===== verification/Formula.thy ===== *)
theory Formula
  imports JsValue
begin

text \<open>
  The formula page of \<^verbatim>\<open>src/HW1/script.js\<close>. The regular expression
  \<^verbatim>\<open>/[a-zA-Z]\w*/g\<close> is a scanner that cuts the formula text into identifier
  matches and the characters between them (\<open>scan\<close>); \<^verbatim>\<open>getInputIds\<close> keeps the
  matches in first-occurrence order without repetition, as \<^verbatim>\<open>Array.from(new Set(...))\<close>
  does. The page is a record of the elements by id, the \<^verbatim>\<open>evaluator\<close> attribute of
  each \<^verbatim>\<open><formula>\<close> element, their shown text and the registered \<^verbatim>\<open>input\<close>
  listeners. The browser's \<^verbatim>\<open>eval\<close> is a parameter \<open>ev\<close>: the text of the value an
  expression evaluates to, or \<open>None\<close> when it throws.
\<close>

section \<open>The identifier scanner\<close>

definition is_alpha :: "char \<Rightarrow> bool" where
  "is_alpha c \<longleftrightarrow> (let n = of_char c :: nat in (65 \<le> n \<and> n \<le> 90) \<or> (97 \<le> n \<and> n \<le> 122))"

definition is_word :: "char \<Rightarrow> bool" where
  "is_word c \<longleftrightarrow> is_alpha c \<or> (let n = of_char c :: nat in (48 \<le> n \<and> n \<le> 57) \<or> n = 95)"

datatype seg = Chr char | Ident string

function scan :: "string \<Rightarrow> seg list" where
  "scan [] = []"
| "scan (c # cs) =
     (if is_alpha c then Ident (c # takeWhile is_word cs) # scan (dropWhile is_word cs)
      else Chr c # scan cs)"
  by pat_completeness auto
termination
  by (relation "measure length") (auto simp: le_imp_less_Suc length_dropWhile_le)

fun unscan :: "seg list \<Rightarrow> string" where
  "unscan [] = []"
| "unscan (Chr c # ss) = c # unscan ss"
| "unscan (Ident i # ss) = i @ unscan ss"

fun idents :: "seg list \<Rightarrow> string list" where
  "idents [] = []"
| "idents (Chr c # ss) = idents ss"
| "idents (Ident i # ss) = i # idents ss"

text \<open>\<^verbatim>\<open>formulaString.match(idRegex)\<close>: the matches in order.\<close>

definition idMatches :: "string \<Rightarrow> string list" where
  "idMatches f = idents (scan f)"

text \<open>\<^verbatim>\<open>Array.from(new Set(xs))\<close>: insertion order, each element once.\<close>

fun set_from :: "'a list \<Rightarrow> 'a list \<Rightarrow> 'a list" where
  "set_from seen [] = seen"
| "set_from seen (x # xs) = set_from (if x \<in> set seen then seen else seen @ [x]) xs"

definition getInputIds :: "string \<Rightarrow> string list" where
  "getInputIds f = (let ms = idMatches f in if ms = [] then [] else set_from [] ms)"

section \<open>Evaluating a formula\<close>

text \<open>
  An element found by \<^verbatim>\<open>document.getElementById\<close>: an input with its current value,
  or another element, whose \<^verbatim>\<open>value\<close> is \<^verbatim>\<open>undefined\<close>.
\<close>

datatype elem = InputElem string | OtherElem

fun value_str :: "elem \<Rightarrow> string" where
  "value_str (InputElem v) = v"
| "value_str OtherElem = ''undefined''"

fun value_truthy :: "elem \<Rightarrow> bool" where
  "value_truthy (InputElem v) = (v \<noteq> [])"
| "value_truthy OtherElem = False"

text \<open>
  The \<^verbatim>\<open>replace\<close> callback: each match becomes its element's value in parentheses,
  an empty value clears \<^verbatim>\<open>inputEntered\<close>, and a match with no element throws (the
  property read on \<^verbatim>\<open>null\<close>).
\<close>

fun subst_segs :: "(string \<rightharpoonup> elem) \<Rightarrow> seg list \<Rightarrow> (bool \<times> string) js" where
  "subst_segs d [] = Inr (True, [])"
| "subst_segs d (Chr c # ss) =
     (case subst_segs d ss of Inl e \<Rightarrow> Inl e | Inr (b, r) \<Rightarrow> Inr (b, c # r))"
| "subst_segs d (Ident i # ss) =
     (case d i of
        None \<Rightarrow> Inl TypeError
      | Some el \<Rightarrow>
          (case subst_segs d ss of
             Inl e \<Rightarrow> Inl e
           | Inr (b, r) \<Rightarrow> Inr (b \<and> value_truthy el, ''('' @ value_str el @ '')'' @ r)))"

definition evaluateFormula :: "(string \<Rightarrow> string option) \<Rightarrow> (string \<rightharpoonup> elem) \<Rightarrow> string \<Rightarrow> string js" where
  "evaluateFormula ev d f =
     (case subst_segs d (scan f) of
        Inl e \<Rightarrow> Inl e
      | Inr (entered, expr) \<Rightarrow>
          Inr (if entered
               then (case ev expr of
                       Some r \<Rightarrow> ''Result: '' @ r @ ''.''
                     | None \<Rightarrow> ''Invalid Formula.'')
               else ''Please enter all inputs.''))"

section \<open>The page and its script\<close>

record page =
  dom :: "string \<rightharpoonup> elem"
  formulas :: "string option list"
  display :: "nat \<Rightarrow> string"
  listeners :: "(string \<times> nat) list"

text \<open>\<^verbatim>\<open>inputIds.forEach(id => document.getElementById(id).addEventListener(...))\<close>.\<close>

fun register :: "nat \<Rightarrow> string list \<Rightarrow> 'a page_scheme \<Rightarrow> 'a page_scheme \<times> js_error option" where
  "register k [] p = (p, None)"
| "register k (i # is) p =
     (case dom p i of
        None \<Rightarrow> (p, Some TypeError)
      | Some el \<Rightarrow> register k is (p\<lparr>listeners := listeners p @ [(i, k)]\<rparr>))"

text \<open>
  The body of the \<^verbatim>\<open>forEach\<close> over the formula elements, for the \<open>k\<close>-th one: a
  missing \<^verbatim>\<open>evaluator\<close> attribute throws on \<^verbatim>\<open>.value\<close>; then the listeners are
  registered and the formula is evaluated once.
\<close>

definition setup_formula ::
  "(string \<Rightarrow> string option) \<Rightarrow> nat \<Rightarrow> 'a page_scheme \<Rightarrow> 'a page_scheme \<times> js_error option" where
  "setup_formula ev k p =
     (case formulas p ! k of
        None \<Rightarrow> (p, Some TypeError)
      | Some f \<Rightarrow>
          (case register k (getInputIds f) p of
             (p', Some e) \<Rightarrow> (p', Some e)
           | (p', None) \<Rightarrow>
               (case evaluateFormula ev (dom p') f of
                  Inl e \<Rightarrow> (p', Some e)
                | Inr h \<Rightarrow> (p'\<lparr>display := (display p')(k := h)\<rparr>, None))))"

text \<open>An exception ends the whole script: the formulas after it are never set up.\<close>

fun setup_list ::
  "(string \<Rightarrow> string option) \<Rightarrow> nat list \<Rightarrow> 'a page_scheme \<Rightarrow> 'a page_scheme \<times> js_error option" where
  "setup_list ev [] p = (p, None)"
| "setup_list ev (k # ks) p =
     (case setup_formula ev k p of
        (p', Some e) \<Rightarrow> (p', Some e)
      | (p', None) \<Rightarrow> setup_list ev ks p')"

definition script_init :: "(string \<Rightarrow> string option) \<Rightarrow> 'a page_scheme \<Rightarrow> 'a page_scheme \<times> js_error option" where
  "script_init ev p = setup_list ev [0..<length (formulas p)] p"

text \<open>
  An \<^verbatim>\<open>input\<close> event on element \<open>i\<close> with new value \<open>v\<close> runs the listeners
  registered on \<open>i\<close> in registration order; an exception in one listener is reported
  and does not stop the others.
\<close>

fun run_listeners ::
  "(string \<Rightarrow> string option) \<Rightarrow> (string \<times> nat) list \<Rightarrow> string \<Rightarrow> 'a page_scheme \<Rightarrow> 'a page_scheme" where
  "run_listeners ev [] i p = p"
| "run_listeners ev ((j, k) # ls) i p =
     run_listeners ev ls i
       (if j = i then
          (case formulas p ! k of
             Some f \<Rightarrow> (case evaluateFormula ev (dom p) f of
                          Inr h \<Rightarrow> p\<lparr>display := (display p)(k := h)\<rparr>
                        | Inl e \<Rightarrow> p)
           | None \<Rightarrow> p)
        else p)"

definition input_event ::
  "(string \<Rightarrow> string option) \<Rightarrow> string \<Rightarrow> string \<Rightarrow> 'a page_scheme \<Rightarrow> 'a page_scheme" where
  "input_event ev i v p =
     (let p' = p\<lparr>dom := (dom p)(i \<mapsto> InputElem v)\<rparr> in run_listeners ev (listeners p') i p')"

fun input_events ::
  "(string \<Rightarrow> string option) \<Rightarrow> (string \<times> string) list \<Rightarrow> 'a page_scheme \<Rightarrow> 'a page_scheme" where
  "input_events ev [] p = p"
| "input_events ev ((i, v) # es) p = input_events ev es (input_event ev i v p)"

text \<open>
  What the page promises: every formula element shows the evaluation of its formula
  over the current values of the page.
\<close>

definition consistent :: "(string \<Rightarrow> string option) \<Rightarrow> 'a page_scheme \<Rightarrow> bool" where
  "consistent ev p \<longleftrightarrow>
     list_all (\<lambda>k. case formulas p ! k of
                     None \<Rightarrow> False
                   | Some f \<Rightarrow> evaluateFormula ev (dom p) f = Inr (display p k))
       [0..<length (formulas p)]"

section \<open>Reference definitions\<close>

text \<open>
  What the code is meant to compute, written directly: the matches without
  repetition, each kept at its first occurrence; and the expression handed to
  \<^verbatim>\<open>eval\<close>, the formula with every identifier replaced by its element's value in
  parentheses.
\<close>

fun dedup :: "'a list \<Rightarrow> 'a list" where
  "dedup [] = []"
| "dedup (x # xs) = x # dedup (filter (\<lambda>y. y \<noteq> x) xs)"

fun subst_seg :: "(string \<rightharpoonup> elem) \<Rightarrow> seg \<Rightarrow> seg" where
  "subst_seg d (Chr c) = Chr c"
| "subst_seg d (Ident i) = Ident (''('' @ value_str (the (d i)) @ '')'')"

definition expression :: "(string \<rightharpoonup> elem) \<Rightarrow> string \<Rightarrow> string" where
  "expression d f = unscan (map (subst_seg d) (scan f))"

section \<open>Lemmas on the scanner and the page\<close>

lemma unscan_scan: "unscan (scan s) = s"
  by (induction s rule: scan.induct) simp_all

lemma is_alpha_is_word: "is_alpha c \<Longrightarrow> is_word c"
  by (simp add: is_word_def)

lemma scan_idents_shape:
  "Ident i \<in> set (scan s) \<Longrightarrow> i \<noteq> [] \<and> is_alpha (hd i) \<and> list_all is_word i"
proof (induction s rule: scan.induct)
  case 1
  then show ?case by simp
next
  case (2 c cs)
  then show ?case
    by (auto simp: list_all_iff is_alpha_is_word split: if_splits dest!: set_takeWhileD)
qed

lemma set_idents: "i \<in> set (idents ss) \<longleftrightarrow> Ident i \<in> set ss"
  by (induction ss rule: idents.induct) auto

lemma filter_dedup: "filter P (dedup xs) = dedup (filter P xs)"
proof (induction xs rule: dedup.induct)
  case 1
  then show ?case by simp
next
  case (2 x xs)
  have "filter (\<lambda>y. P y \<and> y \<noteq> x) xs = filter P xs" if "\<not> P x"
    using that by (auto intro: filter_cong)
  with 2 show ?case by (simp add: filter_filter conj_commute)
qed

lemma set_from_dedup:
  "set_from seen xs = seen @ dedup (filter (\<lambda>y. y \<notin> set seen) xs)"
proof (induction xs arbitrary: seen)
  case Nil
  then show ?case by simp
next
  case (Cons x xs)
  show ?case
  proof (cases "x \<in> set seen")
    case True
    with Cons.IH show ?thesis by simp
  next
    case False
    with Cons.IH[of "seen @ [x]"] show ?thesis
      by (simp add: filter_filter conj_commute)
  qed
qed

lemma getInputIds_dedup: "getInputIds f = dedup (idMatches f)"
  by (simp add: getInputIds_def Let_def set_from_dedup)

lemma set_dedup [simp]: "set (dedup xs) = set xs"
  by (induction xs rule: dedup.induct) auto

lemma distinct_dedup: "distinct (dedup xs)"
  by (induction xs rule: dedup.induct) (auto simp: set_dedup)

lemma subst_segs_local:
  "(\<And>i. i \<in> set (idents ss) \<Longrightarrow> d i = d' i) \<Longrightarrow> subst_segs d ss = subst_segs d' ss"
  by (induction ss rule: idents.induct) (simp_all split: sum.splits prod.splits option.splits)

lemma evaluateFormula_local:
  "(\<And>i. i \<in> set (idMatches f) \<Longrightarrow> d i = d' i) \<Longrightarrow> evaluateFormula ev d f = evaluateFormula ev d' f"
  unfolding evaluateFormula_def idMatches_def by (subst subst_segs_local) auto

lemma subst_segs_Inr:
  assumes "\<And>i. i \<in> set (idents ss) \<Longrightarrow> d i \<noteq> None"
  shows "subst_segs d ss = Inr (list_all (\<lambda>i. value_truthy (the (d i))) (idents ss),
                              unscan (map (subst_seg d) ss))"
  using assms
  by (induction ss rule: idents.induct) (auto split: sum.splits prod.splits option.splits)

lemma subst_segs_Inl:
  "(\<exists>e. subst_segs d ss = Inl e) \<longleftrightarrow> (\<exists>i \<in> set (idents ss). d i = None)"
  by (induction ss rule: idents.induct) (auto split: sum.splits prod.splits option.splits)

definition formula_ok :: "(string \<Rightarrow> string option) \<Rightarrow> nat \<Rightarrow> 'a page_scheme \<Rightarrow> bool" where
  "formula_ok ev k q \<longleftrightarrow>
     (case formulas q ! k of
        None \<Rightarrow> False
      | Some f \<Rightarrow> evaluateFormula ev (dom q) f = Inr (display q k)
                  \<and> list_all (\<lambda>i. (i, k) \<in> set (listeners q) \<and> dom q i \<noteq> None) (idMatches f))"

lemma register_ok:
  "register k is p = (p', None) \<Longrightarrow>
     dom p' = dom p \<and> formulas p' = formulas p \<and> display p' = display p
     \<and> set (listeners p') = set (listeners p) \<union> (\<lambda>i. (i, k)) ` set is \<and> list_all (\<lambda>i. dom p i \<noteq> None) is"
  by (induction k "is" p rule: register.induct) (auto split: option.splits)

lemma setup_formula_ok:
  assumes "setup_formula ev k p = (p', None)"
  shows "dom p' = dom p \<and> formulas p' = formulas p \<and> set (listeners p) \<subseteq> set (listeners p')
         \<and> (\<forall>k'. k' \<noteq> k \<longrightarrow> display p' k' = display p k') \<and> formula_ok ev k p'"
proof -
  from assms obtain f where f: "formulas p ! k = Some f"
    by (auto simp: setup_formula_def split: option.splits)
  from assms f obtain p1 h where r: "register k (getInputIds f) p = (p1, None)"
    and ev: "evaluateFormula ev (dom p1) f = Inr h" and p': "p' = p1\<lparr>display := (display p1)(k := h)\<rparr>"
    by (auto simp: setup_formula_def split: prod.splits option.splits sum.splits)
  from register_ok[OF r] have "dom p1 = dom p" "formulas p1 = formulas p" "display p1 = display p"
    and L: "set (listeners p1) = set (listeners p) \<union> (\<lambda>i. (i, k)) ` set (getInputIds f)"
    and D: "list_all (\<lambda>i. dom p i \<noteq> None) (getInputIds f)" by auto
  moreover have "set (getInputIds f) = set (idMatches f)" by (simp add: getInputIds_dedup)
  ultimately show ?thesis using f ev p'
    by (auto simp: formula_ok_def list_all_iff)
qed

lemma formula_ok_mono:
  "formula_ok ev k q \<Longrightarrow> dom q' = dom q \<Longrightarrow> formulas q' = formulas q \<Longrightarrow> display q' k = display q k
   \<Longrightarrow> set (listeners q) \<subseteq> set (listeners q') \<Longrightarrow> formula_ok ev k q'"
  by (auto simp: formula_ok_def list_all_iff split: option.splits)

lemma setup_list_ok:
  assumes "setup_list ev ks p = (p', None)" and "distinct ks"
  shows "dom p' = dom p \<and> formulas p' = formulas p \<and> set (listeners p) \<subseteq> set (listeners p')
         \<and> (\<forall>k'. k' \<notin> set ks \<longrightarrow> display p' k' = display p k') \<and> list_all (\<lambda>k. formula_ok ev k p') ks"
  using assms
proof (induction ev ks p rule: setup_list.induct)
  case (1 ev p)
  then show ?case by simp
next
  case (2 ev k ks p)
  from "2.prems" obtain p1 where s: "setup_formula ev k p = (p1, None)"
    and r: "setup_list ev ks p1 = (p', None)"
    by (auto split: prod.splits option.splits)
  note S = setup_formula_ok[OF s]
  from "2.IH"[OF s[symmetric] refl r] "2.prems"(2) have R:
    "dom p' = dom p1 \<and> formulas p' = formulas p1 \<and> set (listeners p1) \<subseteq> set (listeners p')
     \<and> (\<forall>k'. k' \<notin> set ks \<longrightarrow> display p' k' = display p1 k') \<and> list_all (\<lambda>k. formula_ok ev k p') ks"
    by simp
  from "2.prems"(2) have "k \<notin> set ks" by simp
  with S R have "formula_ok ev k p'"
    by (blast intro: formula_ok_mono)
  with S R show ?case by auto
qed

definition covered :: "'a page_scheme \<Rightarrow> bool" where
  "covered p \<longleftrightarrow>
     list_all (\<lambda>k. case formulas p ! k of
                     None \<Rightarrow> False
                   | Some f \<Rightarrow> list_all (\<lambda>i. (i, k) \<in> set (listeners p) \<and> dom p i \<noteq> None) (idMatches f))
       [0..<length (formulas p)]"

lemma script_init_inv:
  assumes "script_init ev p = (p', None)"
  shows "covered p' \<and> consistent ev p'"
proof -
  have "list_all (\<lambda>k. formula_ok ev k p') [0..<length (formulas p)]"
    and "formulas p' = formulas p"
    using setup_list_ok[OF assms[unfolded script_init_def]] by auto
  then show ?thesis
    by (auto simp: covered_def consistent_def formula_ok_def list_all_iff split: option.splits)
qed

lemma run_listeners_fields [simp]:
  "dom (run_listeners ev ls i p) = dom p \<and> formulas (run_listeners ev ls i p) = formulas p
   \<and> listeners (run_listeners ev ls i p) = listeners p"
  by (induction ev ls i p rule: run_listeners.induct) (auto split: option.splits sum.splits)

lemma run_listeners_display:
  "display (run_listeners ev ls i p) k =
     (if (i, k) \<in> set ls then
        (case formulas p ! k of
           Some f \<Rightarrow> (case evaluateFormula ev (dom p) f of Inr h \<Rightarrow> h | Inl e \<Rightarrow> display p k)
         | None \<Rightarrow> display p k)
      else display p k)"
  by (induction ev ls i p rule: run_listeners.induct) (auto split: option.splits sum.splits)

lemma evaluateFormula_Inr:
  assumes "\<And>i. i \<in> set (idMatches f) \<Longrightarrow> d i \<noteq> None"
  shows "\<exists>h. evaluateFormula ev d f = Inr h"
proof -
  have "\<not> (\<exists>e. subst_segs d (scan f) = Inl e)"
    using subst_segs_Inl[of d "scan f"] assms by (auto simp: idMatches_def)
  then show ?thesis
    by (cases "subst_segs d (scan f)") (auto simp: evaluateFormula_def split: prod.splits)
qed

lemma input_event_inv:
  assumes "covered p" and "consistent ev p"
  shows "covered (input_event ev i v p) \<and> consistent ev (input_event ev i v p)"
proof -
  let ?p' = "p\<lparr>dom := (dom p)(i \<mapsto> InputElem v)\<rparr>"
  let ?q = "input_event ev i v p"
  have q: "?q = run_listeners ev (listeners p) i ?p'" by (simp add: input_event_def)
  have cov: "covered ?q"
    using assms(1) by (auto simp: q covered_def list_all_iff split: option.splits)
  have "formulas ?q ! k = Some f \<Longrightarrow> evaluateFormula ev (dom ?q) f = Inr (display ?q k)"
    if k: "k < length (formulas p)" for k f
  proof -
    assume fk: "formulas ?q ! k = Some f"
    then have f: "formulas p ! k = Some f" by (simp add: q)
    from assms(1) k have "case formulas p ! k of None \<Rightarrow> False
        | Some f \<Rightarrow> list_all (\<lambda>i. (i, k) \<in> set (listeners p) \<and> dom p i \<noteq> None) (idMatches f)"
      by (simp add: covered_def list_all_iff)
    with f have ids: "\<And>j. j \<in> set (idMatches f) \<Longrightarrow> (j, k) \<in> set (listeners p) \<and> dom p j \<noteq> None"
      by (simp add: list_all_iff)
    from assms(2) k have "case formulas p ! k of None \<Rightarrow> False
        | Some f \<Rightarrow> evaluateFormula ev (dom p) f = Inr (display p k)"
      by (simp add: consistent_def list_all_iff)
    with f have old: "evaluateFormula ev (dom p) f = Inr (display p k)" by simp
    obtain h where h: "evaluateFormula ev (dom ?p') f = Inr h"
      using evaluateFormula_Inr[of f "dom ?p'" ev] ids by fastforce
    show ?thesis
    proof (cases "i \<in> set (idMatches f)")
      case True
      with ids h f show ?thesis by (simp add: q run_listeners_display)
    next
      case False
      then have same: "evaluateFormula ev (dom ?p') f = evaluateFormula ev (dom p) f"
        by (intro evaluateFormula_local) auto
      with h old f show ?thesis by (auto simp: q run_listeners_display)
    qed
  qed
  with cov assms(2) show ?thesis
    by (auto simp: consistent_def list_all_iff q split: option.splits)
qed

lemma input_events_inv:
  "covered p \<Longrightarrow> consistent ev p \<Longrightarrow> covered (input_events ev es p) \<and> consistent ev (input_events ev es p)"
proof (induction ev es p rule: input_events.induct)
  case (1 ev p)
  then show ?case by simp
next
  case (2 ev i v es p)
  from input_event_inv[OF "2.prems"] have "covered (input_event ev i v p)"
    and "consistent ev (input_event ev i v p)" by blast+
  with "2.IH" show ?case by simp
qed

lemma register_listeners:
  "register k is p = (p', None) \<Longrightarrow> listeners p' = listeners p @ map (\<lambda>i. (i, k)) is \<and> formulas p' = formulas p"
  by (induction k "is" p rule: register.induct) (auto split: option.splits)

lemma setup_formula_listeners:
  assumes "setup_formula ev k p = (p', None)"
  shows "listeners p' = listeners p @ map (\<lambda>i. (i, k)) (getInputIds (the (formulas p ! k))) \<and> formulas p' = formulas p"
proof -
  from assms obtain f where f: "formulas p ! k = Some f"
    by (auto simp: setup_formula_def split: option.splits)
  from assms f obtain p1 h where r: "register k (getInputIds f) p = (p1, None)"
    and p': "p' = p1\<lparr>display := (display p1)(k := h)\<rparr>"
    by (auto simp: setup_formula_def split: prod.splits option.splits sum.splits)
  from register_listeners [OF r] f p' show ?thesis by simp
qed

lemma setup_list_listeners:
  "setup_list ev ks p = (p', None) \<Longrightarrow>
   listeners p' = listeners p @ concat (map (\<lambda>k. map (\<lambda>i. (i, k)) (getInputIds (the (formulas p ! k)))) ks)
   \<and> formulas p' = formulas p"
proof (induction ks arbitrary: p)
  case Nil
  then show ?case by simp
next
  case (Cons k ks)
  from Cons.prems obtain p1 where s1: "setup_formula ev k p = (p1, None)" and s2: "setup_list ev ks p1 = (p', None)"
    by (auto split: prod.splits option.splits)
  from setup_formula_listeners [OF s1] Cons.IH [OF s2] show ?case by simp
qed

lemma distinct_concat_tagged:
  "distinct ks \<Longrightarrow> (\<And>k. distinct (g k)) \<Longrightarrow> distinct (concat (map (\<lambda>k. map (\<lambda>i. (i, k)) (g k)) ks))"
  by (induction ks) (auto simp: distinct_map inj_on_def)

section \<open>Properties of the formula page\<close>

text \<open>
  C15. Once the script has set up every formula without an exception, after any sequence of input events every formula element shows the evaluation of its formula over the current values of the page.
\<close>

theorem formula_display_consistent:
  "script_init ev p = (p', None) \<Longrightarrow> consistent ev (input_events ev es p')"
  using script_init_inv input_events_inv by blast

theorem formula_display_consistent_witness:
  "snd (script_init (\<lambda>s. Some s) \<lparr>dom = [''A'' \<mapsto> InputElem ''2'', ''B'' \<mapsto> InputElem ''3''],
          formulas = [Some ''A+B''], display = (\<lambda>_. []), listeners = []\<rparr>) = None
   \<and> consistent (\<lambda>s. Some s) (input_events (\<lambda>s. Some s) [(''B'', ''''), (''B'', ''4'')]
        (fst (script_init (\<lambda>s. Some s) \<lparr>dom = [''A'' \<mapsto> InputElem ''2'', ''B'' \<mapsto> InputElem ''3''],
          formulas = [Some ''A+B''], display = (\<lambda>_. []), listeners = []\<rparr>)))"
proof -
  let ?p = "\<lparr>dom = [''A'' \<mapsto> InputElem ''2'', ''B'' \<mapsto> InputElem ''3''],
             formulas = [Some ''A+B''], display = (\<lambda>_. []), listeners = []\<rparr> :: page"
  have n: "snd (script_init (\<lambda>s. Some s) ?p) = None"
    by (simp add: script_init_def setup_formula_def getInputIds_def idMatches_def evaluateFormula_def
        is_alpha_def is_word_def)
  then have i: "script_init (\<lambda>s. Some s) ?p = (fst (script_init (\<lambda>s. Some s) ?p), None)"
    by (metis prod.collapse)
  show ?thesis
    using n formula_display_consistent[OF i, of "[(''B'', ''''), (''B'', ''4'')]"] by simp
qed

text \<open>
  The identifier scanner loses nothing: joining its segments gives back the formula text, and every match is a letter followed by word characters (the regular expression /[a-zA-Z]\w*/).
\<close>

theorem scan_roundtrip:
  "unscan (scan s) = s \<and> list_all (\<lambda>i. i \<noteq> [] \<and> is_alpha (hd i) \<and> list_all is_word i) (idMatches s)"
  using scan_idents_shape by (auto simp: unscan_scan idMatches_def list_all_iff set_idents)

text \<open>
  getInputIds keeps each identifier of the formula once, at its first occurrence: it equals the first-occurrence deduplication of the matches, is free of repetitions and has the same identifiers.
\<close>

theorem getInputIds_first_occurrence:
  "getInputIds f = dedup (idMatches f) \<and> distinct (getInputIds f) \<and> set (getInputIds f) = set (idMatches f)"
  by (simp add: getInputIds_dedup distinct_dedup)

text \<open>
  C18. When every identifier of a formula names an element, evaluating it shows the prompt to enter all inputs if some value is empty, and otherwise the result of eval on the formula with each identifier replaced by its value in parentheses, or the invalid-formula message when eval throws.
\<close>

theorem evaluateFormula_spec:
  assumes "\<And>i. i \<in> set (idMatches f) \<Longrightarrow> d i \<noteq> None"
  shows "evaluateFormula ev d f =
           Inr (if list_all (\<lambda>i. value_truthy (the (d i))) (idMatches f)
                then (case ev (expression d f) of
                        Some r \<Rightarrow> ''Result: '' @ r @ ''.''
                      | None \<Rightarrow> ''Invalid Formula.'')
                else ''Please enter all inputs.'')"
  using subst_segs_Inr[of "scan f" d] assms
  by (simp add: evaluateFormula_def expression_def idMatches_def)

theorem evaluateFormula_spec_witness:
  "idMatches ''x*2'' = [''x'']
   \<and> evaluateFormula (\<lambda>s. Some s) [''x'' \<mapsto> InputElem ''4''] ''x*2'' = Inr ''Result: (4)*2.''"
proof -
  have h: "\<And>i. i \<in> set (idMatches ''x*2'') \<Longrightarrow> [''x'' \<mapsto> InputElem ''4''] i \<noteq> None"
    by (simp add: idMatches_def is_alpha_def is_word_def)
  show ?thesis using h evaluateFormula_spec[of "''x*2''" "[''x'' \<mapsto> InputElem ''4'']" "\<lambda>s. Some s", OF h]
    by (simp add: idMatches_def expression_def is_alpha_def is_word_def)
qed

text \<open>
  The example of spec.md section 8: with A = 2 and B = 3 the formula A+B is evaluated as (2)+(3), and clearing B shows the prompt to enter all inputs.
\<close>

theorem formula_spec_example:
  "evaluateFormula ev [''A'' \<mapsto> InputElem ''2'', ''B'' \<mapsto> InputElem ''3''] ''A+B''
     = Inr (case ev ''(2)+(3)'' of Some r \<Rightarrow> ''Result: '' @ r @ ''.'' | None \<Rightarrow> ''Invalid Formula.'')
   \<and> evaluateFormula ev [''A'' \<mapsto> InputElem ''2'', ''B'' \<mapsto> InputElem ''''] ''A+B''
     = Inr ''Please enter all inputs.''"
  by (simp add: evaluateFormula_def is_alpha_def is_word_def)

text \<open>C19. After the script has set up every formula, the listeners are exactly one per formula and per distinct identifier of its text, in the order of the formulas and of the identifiers' first occurrences; none is registered twice, so an input event re-evaluates each formula that mentions the input exactly once.\<close>

theorem script_init_listeners:
  assumes "script_init ev p = (p', None)" "listeners p = []"
  shows "listeners p' = concat (map (\<lambda>k. map (\<lambda>i. (i, k)) (getInputIds (the (formulas p ! k))))
                                   [0..<length (formulas p)])
         \<and> distinct (listeners p')"
proof -
  from setup_list_listeners [OF assms(1) [unfolded script_init_def]] assms(2)
  have l: "listeners p' = concat (map (\<lambda>k. map (\<lambda>i. (i, k)) (getInputIds (the (formulas p ! k))))
                                   [0..<length (formulas p)])" by simp
  moreover have "distinct (getInputIds f)" for f by (simp add: getInputIds_dedup distinct_dedup)
  ultimately show ?thesis by (simp add: distinct_concat_tagged)
qed

theorem script_init_listeners_witness:
  "script_init (\<lambda>s. Some s)
     \<lparr>dom = [''a'' \<mapsto> InputElem ''1'', ''b'' \<mapsto> InputElem ''2''], formulas = [Some ''a+a*b''],
      display = (\<lambda>k. ''''), listeners = []\<rparr>
   = (\<lparr>dom = [''a'' \<mapsto> InputElem ''1'', ''b'' \<mapsto> InputElem ''2''], formulas = [Some ''a+a*b''],
      display = (\<lambda>k. '''')(0 := ''Result: (1)+(1)*(2).''), listeners = [(''a'', 0), (''b'', 0)]\<rparr>, None)
   \<and> distinct [(''a'', 0::nat), (''b'', 0)]"
proof -
  have s: "script_init (\<lambda>s. Some s)
     \<lparr>dom = [''a'' \<mapsto> InputElem ''1'', ''b'' \<mapsto> InputElem ''2''], formulas = [Some ''a+a*b''],
      display = (\<lambda>k. ''''), listeners = []\<rparr>
   = (\<lparr>dom = [''a'' \<mapsto> InputElem ''1'', ''b'' \<mapsto> InputElem ''2''], formulas = [Some ''a+a*b''],
      display = (\<lambda>k. '''')(0 := ''Result: (1)+(1)*(2).''), listeners = [(''a'', 0), (''b'', 0)]\<rparr>, None)"
    by (simp add: script_init_def setup_formula_def getInputIds_def idMatches_def evaluateFormula_def
        is_alpha_def is_word_def)
  have "distinct [(''a'', 0::nat), (''b'', 0)]"
    using conjunct2 [OF script_init_listeners [OF s]] by simp
  with s show ?thesis by simp
qed

lemma register_frame:
  "register k is p = (p', r) \<Longrightarrow>
     dom p' = dom p \<and> formulas p' = formulas p \<and> display p' = display p
     \<and> set (listeners p) \<subseteq> set (listeners p')
     \<and> set (listeners p') \<subseteq> set (listeners p) \<union> (\<lambda>i. (i, k)) ` set is
     \<and> (r = None \<longleftrightarrow> list_all (\<lambda>i. dom p i \<noteq> None) is)"
  by (induction k "is" p arbitrary: p' rule: register.induct) (fastforce split: option.splits)+

lemma setup_formula_frame:
  assumes "setup_formula ev k p = (p', r)"
  shows "dom p' = dom p \<and> formulas p' = formulas p \<and> (\<forall>k'. k' \<noteq> k \<longrightarrow> display p' k' = display p k')
         \<and> (\<forall>x k'. k' \<noteq> k \<longrightarrow> ((x, k') \<in> set (listeners p') \<longleftrightarrow> (x, k') \<in> set (listeners p)))"
proof (cases "formulas p ! k")
  case None with assms show ?thesis by (simp add: setup_formula_def)
next
  case (Some f)
  obtain p1 r1 where reg: "register k (getInputIds f) p = (p1, r1)" by fastforce
  note F = register_frame[OF reg]
  from assms Some reg have "p' = p1 \<or> (\<exists>h. p' = p1\<lparr>display := (display p1)(k := h)\<rparr>)"
    by (auto simp: setup_formula_def split: option.splits sum.splits)
  with F show ?thesis by auto
qed

lemma setup_formula_bad:
  assumes "formulas p ! k = Some f" "i \<in> set (idMatches f)" "dom p i = None"
  shows "snd (setup_formula ev k p) = Some TypeError"
proof -
  obtain p1 r1 where reg: "register k (getInputIds f) p = (p1, r1)" by fastforce
  have "i \<in> set (getInputIds f)" using assms(2) by (simp add: getInputIds_dedup)
  with register_frame[OF reg] assms(3) obtain e where "r1 = Some e"
    by (cases r1) (auto simp: list_all_iff)
  with assms(1) reg show ?thesis by (cases e) (simp add: setup_formula_def)
qed

lemma setup_list_abort:
  assumes "sorted ks" "distinct ks" "k \<in> set ks"
    and "formulas p ! k = Some f" "i \<in> set (idMatches f)" "dom p i = None"
  shows "snd (setup_list ev ks p) = Some TypeError
         \<and> (\<forall>k' > k. display (fst (setup_list ev ks p)) k' = display p k'
              \<and> (\<forall>x. (x, k') \<in> set (listeners (fst (setup_list ev ks p))) \<longleftrightarrow> (x, k') \<in> set (listeners p)))"
  using assms
proof (induction ev ks p rule: setup_list.induct)
  case (1 ev p) then show ?case by simp
next
  case (2 ev j ks p)
  obtain p1 r where s: "setup_formula ev j p = (p1, r)" by fastforce
  note F = setup_formula_frame[OF s]
  have jk: "j \<le> k" using "2.prems"(1,3) by auto
  show ?case
  proof (cases r)
    case (Some e)
    with s jk F show ?thesis by (cases e) auto
  next
    case None
    have "j \<noteq> k"
      using setup_formula_bad[OF "2.prems"(4-6), of ev] s None by auto
    with "2.prems" have "k \<in> set ks" by auto
    with "2.prems" F have "snd (setup_list ev ks p1) = Some TypeError
         \<and> (\<forall>k' > k. display (fst (setup_list ev ks p1)) k' = display p1 k'
              \<and> (\<forall>x. (x, k') \<in> set (listeners (fst (setup_list ev ks p1))) \<longleftrightarrow> (x, k') \<in> set (listeners p1)))"
      using "2.IH"[OF s[symmetric] None] by auto
    with s None F jk show ?thesis by auto
  qed
qed

text \<open>
  C20. When a formula names an identifier that no element of the page carries (the
  identifier regex also matches the exponent of a numeric literal, e5 in 1e5), the script
  throws a TypeError while registering listeners, and every later formula is never set up:
  its shown text is unchanged and no listener is registered for it.
\<close>

theorem script_init_exponent_aborts:
  assumes "k < length (formulas p)" "formulas p ! k = Some f" "i \<in> set (idMatches f)" "dom p i = None"
  shows "snd (script_init ev p) = Some TypeError
         \<and> (\<forall>k' > k. display (fst (script_init ev p)) k' = display p k'
              \<and> (\<forall>x. (x, k') \<in> set (listeners (fst (script_init ev p))) \<longleftrightarrow> (x, k') \<in> set (listeners p)))"
  unfolding script_init_def using assms by (intro setup_list_abort) auto

theorem script_init_exponent_aborts_witness:
  "idMatches ''1e5+a'' = [''e5'', ''a'']
   \<and> snd (script_init (\<lambda>_. None) \<lparr>dom = [''a'' \<mapsto> InputElem ''1''], formulas = [Some ''1e5+a'', Some ''a''],
                         display = (\<lambda>_. []), listeners = []\<rparr>) = Some TypeError
   \<and> display (fst (script_init (\<lambda>_. None) \<lparr>dom = [''a'' \<mapsto> InputElem ''1''], formulas = [Some ''1e5+a'', Some ''a''],
                         display = (\<lambda>_. []), listeners = []\<rparr>)) 1 = []
   \<and> (\<forall>x. (x, 1) \<notin> set (listeners (fst (script_init (\<lambda>_. None) \<lparr>dom = [''a'' \<mapsto> InputElem ''1''],
                         formulas = [Some ''1e5+a'', Some ''a''], display = (\<lambda>_. []), listeners = []\<rparr>))))"
proof -
  have m: "idMatches ''1e5+a'' = [''e5'', ''a'']"
    by (simp add: idMatches_def is_alpha_def is_word_def)
  show ?thesis
    using script_init_exponent_aborts[where k=0 and f="''1e5+a''" and i="''e5''" and ev="\<lambda>_. None" and
        p="\<lparr>dom = [''a'' \<mapsto> InputElem ''1''], formulas = [Some ''1e5+a'', Some ''a''], display = (\<lambda>_. []), listeners = []\<rparr>"]
    by (simp add: m)
qed

end
