(* ===== verification/RegExp.thy ===== *)
theory RegExp
  imports Formula "HOL-Library.While_Combinator"
begin

text \<open>
  \<^verbatim>\<open>formulaString.match(idRegex)\<close> as ECMAScript specifies it for a regular
  expression with the \<^verbatim>\<open>g\<close> flag (\<^verbatim>\<open>RegExp.prototype[@@match]\<close> over
  \<^verbatim>\<open>RegExpBuiltinExec\<close>): starting at \<^verbatim>\<open>lastIndex = 0\<close>, each execution searches
  the first position from \<^verbatim>\<open>lastIndex\<close> where \<^verbatim>\<open>/[a-zA-Z]\w*/\<close> matches (the
  pattern is greedy, so the match runs to the last word character), appends the matched
  text and moves \<^verbatim>\<open>lastIndex\<close> to its end; the first execution that fails ends the loop,
  which returns \<^verbatim>\<open>null\<close> when nothing matched. The loop is kept as a loop
  (\<open>while_option\<close>), so that it returning is a theorem. This is the host's algorithm,
  the environment of \<^verbatim>\<open>getInputIds\<close>. The lemmas below connect it to the scanner
  \<open>scan\<close> in which theory \<open>Formula\<close> states the script, and the property specifies
  what \<^verbatim>\<open>getInputIds\<close> returns directly in terms of the regular expression's
  character classes.
\<close>

function exec_from :: "string \<Rightarrow> nat \<Rightarrow> (nat \<times> string) option" where
  "exec_from S q =
     (if length S \<le> q then None
      else if is_alpha (S ! q) then Some (q, S ! q # takeWhile is_word (drop (Suc q) S))
      else exec_from S (Suc q))"
  by pat_completeness auto
termination
  by (relation "measure (\<lambda>(S, q). length S - q)") auto

declare exec_from.simps [simp del]

definition match_step :: "string \<Rightarrow> nat \<times> string list \<Rightarrow> nat \<times> string list" where
  "match_step S st =
     (case exec_from S (fst st) of
        None \<Rightarrow> st
      | Some (q, m) \<Rightarrow> (q + length m, snd st @ [m]))"

definition match_loop :: "string \<Rightarrow> (nat \<times> string list) option" where
  "match_loop S = while_option (\<lambda>st. exec_from S (fst st) \<noteq> None) (match_step S) (0, [])"

text \<open>The value of \<^verbatim>\<open>S.match(idRegex)\<close>: \<open>None\<close> if the loop did not return,
  else \<^verbatim>\<open>null\<close> (\<open>None\<close>) or the array of matches.\<close>

definition js_match :: "string \<Rightarrow> string list option option" where
  "js_match S = map_option (\<lambda>st. if snd st = [] then None else Some (snd st)) (match_loop S)"

text \<open>Lines 6 and 7 of \<^verbatim>\<open>getInputIds\<close> over that value.\<close>

definition getInputIds_js :: "string \<Rightarrow> string list option" where
  "getInputIds_js f = map_option (\<lambda>r. case r of None \<Rightarrow> [] | Some ms \<Rightarrow> set_from [] ms) (js_match f)"

text \<open>The loop invariant: the matches found so far followed by those of the rest of the text are all the matches.\<close>

definition match_inv :: "string \<Rightarrow> nat \<times> string list \<Rightarrow> bool" where
  "match_inv S st \<longleftrightarrow> snd st @ idents (scan (drop (fst st) S)) = idMatches S \<and> fst st \<le> length S"

text \<open>
  The two character classes of \<^verbatim>\<open>/[a-zA-Z]\w*/\<close> spelled out as the regular
  expression writes them: the letters of the first position and the word characters of
  \<^verbatim>\<open>\w\<close>. The specification of \<^verbatim>\<open>getInputIds\<close> below is stated over them, not over
  the scanner's tests.
\<close>

definition letter_chars :: string where
  "letter_chars = ''ABCDEFGHIJKLMNOPQRSTUVWXYZabcdefghijklmnopqrstuvwxyz''"

definition word_chars :: string where
  "word_chars = letter_chars @ ''0123456789_''"

section \<open>Lemmas\<close>

lemma exec_from_scan:
  "idents (scan (drop q S)) =
     (case exec_from S q of None \<Rightarrow> [] | Some (q', m) \<Rightarrow> m # idents (scan (drop (q' + length m) S)))"
proof (induction S q rule: exec_from.induct)
  case (1 S q)
  show ?case
  proof (cases "length S \<le> q")
    case True
    then show ?thesis by (simp add: exec_from.simps [of S q])
  next
    case False
    then have d: "drop q S = S ! q # drop (Suc q) S" by (simp add: Cons_nth_drop_Suc)
    show ?thesis
    proof (cases "is_alpha (S ! q)")
      case True
      have "dropWhile is_word (drop (Suc q) S)
            = drop (q + length (S ! q # takeWhile is_word (drop (Suc q) S))) S"
        by (simp add: dropWhile_eq_drop add.commute)
      with False True d show ?thesis by (simp add: exec_from.simps [of S q])
    next
      case na: False
      with False d "1.IH" show ?thesis by (simp add: exec_from.simps [of S q])
    qed
  qed
qed

lemma exec_from_bounds:
  "exec_from S q = Some (q', m) \<Longrightarrow> q \<le> q' \<and> q' + length m \<le> length S \<and> m \<noteq> []"
proof (induction S q rule: exec_from.induct)
  case (1 S q)
  show ?case
  proof (cases "length S \<le> q")
    case True
    with "1.prems" show ?thesis by (simp add: exec_from.simps [of S q])
  next
    case False
    show ?thesis
    proof (cases "is_alpha (S ! q)")
      case True
      have "length (takeWhile is_word (drop (Suc q) S)) \<le> length S - Suc q"
        using length_takeWhile_le[of is_word "drop (Suc q) S"] by simp
      with False True "1.prems" show ?thesis by (auto simp: exec_from.simps [of S q])
    next
      case na: False
      with False "1.prems" "1.IH" show ?thesis by (fastforce simp: exec_from.simps [of S q])
    qed
  qed
qed

lemma match_inv_step:
  assumes "match_inv S st" "exec_from S (fst st) \<noteq> None"
  shows "match_inv S (match_step S st) \<and> length S - fst (match_step S st) < length S - fst st"
proof -
  from assms(2) obtain q m where e: "exec_from S (fst st) = Some (q, m)" by auto
  from exec_from_bounds[OF e] have b: "fst st \<le> q" "q + length m \<le> length S" "m \<noteq> []" by auto
  from exec_from_scan[of "fst st" S] e
  have "idents (scan (drop (fst st) S)) = m # idents (scan (drop (q + length m) S))" by simp
  moreover from b have "length S - (q + length m) < length S - fst st" by (cases m) auto
  ultimately show ?thesis using assms(1) b e by (auto simp: match_inv_def match_step_def)
qed

lemma match_loop_Some: "\<exists>st. match_loop S = Some st"
  unfolding match_loop_def
proof (rule measure_while_option_Some [where P = "match_inv S" and f = "\<lambda>st. length S - fst st"])
  show "match_inv S (0, [])" by (simp add: match_inv_def idMatches_def)
next
  fix st assume "match_inv S st" "exec_from S (fst st) \<noteq> None"
  then show "match_inv S (match_step S st) \<and> length S - fst (match_step S st) < length S - fst st"
    by (rule match_inv_step)
qed

lemma match_loop_result: "match_loop S = Some st \<Longrightarrow> snd st = idMatches S"
proof -
  assume r: "match_loop S = Some st"
  have "match_inv S st"
    using while_option_rule [where P = "match_inv S", OF _ r [unfolded match_loop_def]] match_inv_step
    by (simp add: match_inv_def idMatches_def)
  moreover have "exec_from S (fst st) = None"
    using while_option_stop [OF r [unfolded match_loop_def]] by (simp del: not_None_eq)
  ultimately show ?thesis using exec_from_scan[of "fst st" S] by (simp add: match_inv_def)
qed

lemma getInputIds_js_eq: "getInputIds_js f = Some (getInputIds f)"
proof -
  obtain st where r: "match_loop f = Some st" using match_loop_Some by blast
  with match_loop_result[OF r] show ?thesis
    by (simp add: getInputIds_js_def js_match_def getInputIds_def)
qed

lemma is_alpha_letter_chars: "is_alpha c \<longleftrightarrow> c \<in> set letter_chars"
proof -
  have "list_all (\<lambda>c. is_alpha c \<longleftrightarrow> c \<in> set letter_chars) (Enum.enum :: char list)"
    by code_simp
  then have "\<forall>c. is_alpha c \<longleftrightarrow> c \<in> set letter_chars"
    by (simp add: list_all_iff enum_UNIV)
  then show ?thesis by blast
qed

lemma is_word_word_chars: "is_word c \<longleftrightarrow> c \<in> set word_chars"
proof -
  have "list_all (\<lambda>c. is_word c \<longleftrightarrow> c \<in> set word_chars) (Enum.enum :: char list)"
    by code_simp
  then show ?thesis by (simp add: list_all_iff enum_UNIV)
qed

lemma scan_ident_split:
  "Ident x \<in> set (scan s) \<Longrightarrow> \<exists>a b. s = a @ x @ b \<and> (b = [] \<or> \<not> is_word (hd b))"
proof (induction s rule: scan.induct)
  case 1 then show ?case by simp
next
  case (2 c cs)
  show ?case
  proof (cases "is_alpha c")
    case True
    show ?thesis
    proof (cases "x = c # takeWhile is_word cs")
      case True
      then show ?thesis
        using hd_dropWhile_not[of is_word cs]
        by (intro exI[of _ "[]"] exI[of _ "dropWhile is_word cs"]) auto
    next
      case False
      with "2.prems" \<open>is_alpha c\<close> have "Ident x \<in> set (scan (dropWhile is_word cs))" by simp
      from "2.IH"(1)[OF \<open>is_alpha c\<close> this] obtain a b where
        dw: "dropWhile is_word cs = a @ x @ b" and b: "b = [] \<or> \<not> is_word (hd b)" by blast
      have "c # cs = (c # takeWhile is_word cs @ a) @ x @ b"
        using takeWhile_dropWhile_id[of is_word cs] dw by (metis append_Cons append.assoc)
      with b show ?thesis by blast
    qed
  next
    case False
    with "2.prems" have "Ident x \<in> set (scan cs)" by simp
    from "2.IH"(2)[OF False this] obtain a b where "cs = a @ x @ b" "b = [] \<or> \<not> is_word (hd b)" by blast
    then show ?thesis by (intro exI[of _ "c # a"] exI[of _ b]) simp
  qed
qed

lemma scan_append_boundary:
  "a \<noteq> [] \<Longrightarrow> \<not> is_word (last a) \<Longrightarrow> scan (a @ r) = scan a @ scan r"
proof (induction a rule: scan.induct)
  case 1 then show ?case by simp
next
  case (2 c cs)
  show ?case
  proof (cases "is_alpha c")
    case True
    with "2.prems" have "cs \<noteq> []" "\<not> is_word (last cs)"
      by (auto simp: is_alpha_is_word split: if_splits)
    then have tw: "takeWhile is_word (cs @ r) = takeWhile is_word cs"
      and dw: "dropWhile is_word (cs @ r) = dropWhile is_word cs @ r"
      and ne: "dropWhile is_word cs \<noteq> []" "last (dropWhile is_word cs) = last cs"
      using last_dropWhile_not[of cs is_word]
      by (auto simp: takeWhile_append dropWhile_append)
    from "2.IH"(1)[OF True ne(1)] ne(2) \<open>\<not> is_word (last cs)\<close>
    have "scan (dropWhile is_word cs @ r) = scan (dropWhile is_word cs) @ scan r" by simp
    with True tw dw show ?thesis by simp
  next
    case False
    show ?thesis
    proof (cases "cs = []")
      case True with False show ?thesis by simp
    next
      case ne: False
      with "2.prems" have "\<not> is_word (last cs)" by simp
      with "2.IH"(2)[OF False ne] False show ?thesis by simp
    qed
  qed
qed

lemma scan_token:
  assumes "x \<noteq> []" "is_alpha (hd x)" "list_all is_word x" "b = [] \<or> \<not> is_word (hd b)"
  shows "scan (x @ b) = Ident x # scan b"
proof -
  obtain c w where x: "x = c # w" using assms(1) by (cases x) auto
  from assms(3) x have w: "\<And>y. y \<in> set w \<Longrightarrow> is_word y" by (simp add: list_all_iff)
  have "takeWhile is_word b = [] \<and> dropWhile is_word b = b" using assms(4) by (cases b) auto
  then have "takeWhile is_word (w @ b) = w" "dropWhile is_word (w @ b) = b"
    using w by (simp_all add: takeWhile_append2 dropWhile_append2)
  with assms(2) x show ?thesis by simp
qed

section \<open>Properties\<close>

text \<open>C35. \<^verbatim>\<open>getInputIds\<close> as written returns, on every formula text, a list without
  repetitions of exactly the identifiers the regular expression \<^verbatim>\<open>/[a-zA-Z]\w*/g\<close> finds:
  every element is a piece of the text that starts with an ASCII letter, consists of word
  characters and is not followed by one; and every such piece that is not preceded by a
  word character either is in the list. (A piece preceded by a word character, such as the
  e5 of 1e5, can be found too: that is the finding of C20.)\<close>

theorem getInputIds_js_spec:
  "\<exists>ids. getInputIds_js f = Some ids \<and> distinct ids
     \<and> (\<forall>x \<in> set ids. \<exists>a b. f = a @ x @ b \<and> x \<noteq> [] \<and> hd x \<in> set letter_chars \<and> set x \<subseteq> set word_chars
                          \<and> (b = [] \<or> hd b \<notin> set word_chars))
     \<and> (\<forall>a x b. f = a @ x @ b \<and> x \<noteq> [] \<and> hd x \<in> set letter_chars \<and> set x \<subseteq> set word_chars
                \<and> (a = [] \<or> last a \<notin> set word_chars) \<and> (b = [] \<or> hd b \<notin> set word_chars)
                \<longrightarrow> x \<in> set ids)"
proof (rule exI[of _ "getInputIds f"], intro conjI ballI allI impI)
  show "getInputIds_js f = Some (getInputIds f)" by (rule getInputIds_js_eq)
  show "distinct (getInputIds f)" by (simp add: getInputIds_dedup distinct_dedup)
next
  fix x assume "x \<in> set (getInputIds f)"
  then have "Ident x \<in> set (scan f)" by (simp add: getInputIds_dedup idMatches_def set_idents)
  from scan_ident_split[OF this] scan_idents_shape[OF this] show
    "\<exists>a b. f = a @ x @ b \<and> x \<noteq> [] \<and> hd x \<in> set letter_chars \<and> set x \<subseteq> set word_chars
          \<and> (b = [] \<or> hd b \<notin> set word_chars)"
    by (auto simp: is_alpha_letter_chars is_word_word_chars list_all_iff)
next
  fix a x b
  assume h: "f = a @ x @ b \<and> x \<noteq> [] \<and> hd x \<in> set letter_chars \<and> set x \<subseteq> set word_chars
                \<and> (a = [] \<or> last a \<notin> set word_chars) \<and> (b = [] \<or> hd b \<notin> set word_chars)"
  then have t: "scan (x @ b) = Ident x # scan b"
    by (intro scan_token) (auto simp: is_alpha_letter_chars is_word_word_chars list_all_iff)
  have "scan f = scan a @ Ident x # scan b"
  proof (cases "a = []")
    case True with h t show ?thesis by simp
  next
    case False
    with h have "\<not> is_word (last a)" by (simp add: is_word_word_chars)
    with False h t show ?thesis by (simp add: scan_append_boundary)
  qed
  then show "x \<in> set (getInputIds f)"
    by (simp add: getInputIds_dedup idMatches_def set_idents)
qed

theorem getInputIds_js_spec_witness:
  "\<exists>ids. getInputIds_js ''1e5+a'' = Some ids \<and> ''a'' \<in> set ids"
proof -
  have "''1e5+'' = [] \<or> last ''1e5+'' \<notin> set word_chars"
    by (simp add: word_chars_def letter_chars_def)
  moreover have "hd ''a'' \<in> set letter_chars" "set ''a'' \<subseteq> set word_chars"
    by (simp_all add: word_chars_def letter_chars_def)
  ultimately show ?thesis
    using getInputIds_js_spec[of "''1e5+a''"] by (metis append.right_neutral append_Cons append_Nil list.distinct(1))
qed

end
