(* ===== verification/Session_Run.thy ===== *)
theory Session_Run
  imports Session "HOL-Library.Multiset"
begin

text \<open>
  Runs of HW3's session over many events. The responses the server may send are the
  environment: \<open>Session\<close> admits any of them; here a second reachability predicate admits
  only responses whose painting, when it passes the restore check, is well typed (the
  responses of a server that stores what \<^verbatim>\<open>handleSave\<close> sent), and shows that the
  TypeScript type \<^verbatim>\<open>PaintingData\<close> then holds of the state throughout the session.
  The delivery of responses is the progress of the session: every request in flight is
  answered by exactly one alert once its response, or its failure, arrives.
\<close>

section \<open>Well-typed environment\<close>

definition resp_typed :: "response option \<Rightarrow> bool" where
  "resp_typed r = (case r of None \<Rightarrow> True | Some p \<Rightarrow> file_ok (resp_json p))"

fun app_env_ok :: "app_event \<Rightarrow> 'a app_scheme \<Rightarrow> bool" where
  "app_env_ok (CanvasEv e) s = env_ok e s"
| "app_env_ok (Respond n r) s = resp_typed r"
| "app_env_ok e s = True"

inductive app_reach_typed :: "app \<Rightarrow> bool" where
  init: "app_reach_typed app_init"
| step: "app_reach_typed s \<Longrightarrow> app_env_ok e s \<Longrightarrow> app_step e s = Inr (s', al) \<Longrightarrow> app_reach_typed s'"

section \<open>Lemmas\<close>

lemma doc_wf_app_cong:
  "title s' = title s \<Longrightarrow> shapes s' = shapes s \<Longrightarrow> doc_wf s \<Longrightarrow> doc_wf s'"
  using doc_wf_cong by blast

lemma respond_doc_wf:
  assumes "doc_wf s" "resp_typed r" "respond n r s = (s', al)"
  shows "doc_wf s'"
proof (cases "(title s', shapes s') = (title s, shapes s)")
  case True
  with assms(1) show ?thesis by (auto intro: doc_wf_app_cong)
next
  case False
  from respond_painting [OF assms(3) False] obtain p b where
    "r = Some p" "resp_json p = Some b" "validatePainting b = Inr (Some (title s', shapes s'))"
    by blast
  with assms(2) have "doc_wf (canvas_init\<lparr>title := title s', shapes := shapes s'\<rparr>)"
    by (simp add: resp_typed_def file_ok_def)
  then show ?thesis
    using doc_wf_app_cong [of s' "canvas_init\<lparr>title := title s', shapes := shapes s'\<rparr>"] by simp
qed

lemma app_step_doc_wf:
  assumes "doc_wf s" "app_env_ok e s" "app_step e s = Inr (s', al)"
  shows "doc_wf s'"
proof (cases e)
  case (CanvasEv ce)
  with assms(3) have "\<exists>al0. canvas_step ce s = Inr (s', al0)" by (cases "canvas_step ce s") auto
  then obtain al0 where "canvas_step ce s = Inr (s', al0)" ..
  with assms(1,2) CanvasEv show ?thesis by (auto intro: canvas_step_doc_wf)
next
  case (Respond n r)
  with assms show ?thesis by (auto intro: respond_doc_wf)
next
  case (SubmitAuth u pw)
  with assms show ?thesis
    by (auto simp: handleSubmit_def send_def split: option.splits if_splits intro: doc_wf_app_cong)
qed (use assms in \<open>auto simp: handleLogout_def handleSave_def handleRestore_def send_def
       split: if_splits intro: doc_wf_app_cong\<close>)

lemma respond_one_alert:
  assumes "map_of (pending s) n = Some (k, rq)"
  shows "length (snd (respond n r s)) = 1"
  using assms
  by (cases k) (simp_all add: respond_pending authResponse_def saveResponse_def restoreResponse_def
      split: option.splits sum.splits prod.splits)

lemma mset_filter_key:
  "distinct (map fst ps) \<Longrightarrow> n \<in> fst ` set ps \<Longrightarrow>
   mset (map fst (filter (\<lambda>x. fst x \<noteq> n) ps)) = mset (map fst ps) - {#n#}"
proof (induction ps)
  case Nil
  then show ?case by simp
next
  case (Cons x ps)
  show ?case
  proof (cases "fst x = n")
    case True
    with Cons.prems have "n \<notin> fst ` set ps" by auto
    then have "filter (\<lambda>x. fst x \<noteq> n) ps = ps" by (auto simp: filter_id_conv)
    with True show ?thesis by simp
  next
    case False
    with Cons show ?thesis by auto
  qed
qed

lemma responses_drain_inv:
  assumes "distinct (map fst (pending s))" "mset ns = mset (map fst (pending s))" "length rs = length ns"
  shows "\<exists>s' al. app_run (map2 Respond ns rs) s = Inr (s', al) \<and> pending s' = [] \<and> length al = length ns"
  using assms
proof (induction ns arbitrary: s rs)
  case Nil
  then show ?case by simp
next
  case (Cons n ns)
  then obtain r rs' where rs: "rs = r # rs'" and l: "length rs' = length ns" by (cases rs) auto
  from Cons.prems(2) have n: "n \<in> fst ` set (pending s)"
    by (metis image_set list.set_intros(1) set_mset_mset union_single_eq_member mset.simps(2))
  then obtain k rq where krq: "map_of (pending s) n = Some (k, rq)"
    by (metis map_of_eq_None_iff not_None_eq surj_pair)
  let ?s1 = "fst (respond n r s)"
  from respond_fields[of n r s]
  have p1: "pending ?s1 = filter (\<lambda>x. fst x \<noteq> n) (pending s)" by simp
  with Cons.prems(1) have d1: "distinct (map fst (pending ?s1))" by auto
  have "mset (map fst (pending ?s1)) = mset (map fst (pending s)) - {#n#}"
    using p1 mset_filter_key [OF Cons.prems(1) n] by simp
  moreover from Cons.prems(2) have "mset ns = mset (map fst (pending s)) - {#n#}"
    by (metis add_mset_remove_trivial mset.simps(2))
  ultimately have m1: "mset ns = mset (map fst (pending ?s1))" by simp
  from Cons.IH[OF d1 m1 l] obtain s' al where
    run: "app_run (map2 Respond ns rs') ?s1 = Inr (s', al)" "pending s' = []" "length al = length ns"
    by blast
  obtain s1 al1 where r1: "respond n r s = (s1, al1)" by (cases "respond n r s")
  then have "?s1 = s1" "length al1 = 1" using respond_one_alert [OF krq, of r] by simp_all
  with r1 run rs show ?case by simp
qed

section \<open>Properties\<close>

text \<open>C36. When the environment supplies fresh identifiers, well-typed files and a server whose restorable paintings are well typed, every reachable HW3 session state has the TypeScript type of its \<^verbatim>\<open>PaintingData\<close>: a string title, shape objects, and distinct shape identifiers.\<close>

theorem app_reach_typed_doc_wf: "app_reach_typed s \<Longrightarrow> doc_wf s"
proof (induction rule: app_reach_typed.induct)
  case init
  show ?case by (simp add: doc_wf_def painting_of_def app_init_def)
next
  case (step s e s' al)
  from step.IH step.hyps(2,3) show ?case by (rule app_step_doc_wf)
qed

text \<open>C37. From any reachable session, delivering one outcome (a response or a network failure) for each request in flight, in any order, runs to the end without an exception, leaves no request pending, and shows exactly one alert per request.\<close>

theorem responses_drain:
  assumes "app_reach s" "mset ns = mset (map fst (pending s))" "length rs = length ns"
  shows "\<exists>s' al. app_run (map2 Respond ns rs) s = Inr (s', al) \<and> pending s' = [] \<and> length al = length ns"
proof -
  from assms(1) have "ids_ok s"
  proof (induction rule: app_reach.induct)
    case init
    show ?case by (simp add: ids_ok_def app_init_def)
  next
    case (step s e s' al)
    from step.IH step.hyps(2) show ?case by (rule app_step_ids)
  qed
  then have "distinct (map fst (pending s))" by (simp add: ids_ok_def)
  from responses_drain_inv[OF this assms(2,3)] show ?thesis .
qed

theorem app_reach_typed_doc_wf_witness:
  "doc_wf (app_init\<lparr>shapes := [shape_json \<lparr>shape_id = ''u1'', shape_type = Circle, shape_x = 1, shape_y = 2\<rparr>]\<rparr>)"
proof -
  have "app_reach_typed (app_init\<lparr>shapes := [shape_json \<lparr>shape_id = ''u1'', shape_type = Circle, shape_x = 1, shape_y = 2\<rparr>]\<rparr>)"
    by (rule app_reach_typed.step [OF app_reach_typed.init,
          where e = "CanvasEv (CanvasClick ''u1'' \<lparr>clientX = 1, clientY = 2, screenCTM = None\<rparr>)"])
       (simp_all add: fresh_id_def app_init_def handleCanvasClick_def newShape_def svgPoint_def matrixTransform_def)
  then show ?thesis by (rule app_reach_typed_doc_wf)
qed

theorem responses_drain_witness:
  "\<exists>s' al. app_run (map2 Respond [0] [None]) awaiting_login = Inr (s', al) \<and> pending s' = [] \<and> length al = 1"
proof -
  have r0: "app_reach (app_init\<lparr>authModal := Some Login\<rparr>)"
    by (rule app_reach.step [OF app_reach.init, of OpenLogin]) simp
  have r1: "app_reach awaiting_login"
    by (rule app_reach.step [OF r0, of "SubmitAuth ''bob'' ''pw''"])
       (simp add: handleSubmit_def send_def app_init_def)
  have "mset [0::nat] = mset (map fst (pending awaiting_login))" by simp
  from responses_drain [OF r1 this, of "[None]"] show ?thesis by simp
qed

end
