(* ===== verification/Canvas_Spec.thy ===== *)
theory Canvas_Spec
  imports Session_Run
begin

text \<open>
  The document as \<^verbatim>\<open>spec.md\<close> \<section>3 and \<section>4 describe it, as an abstract machine over
  \<^verbatim>\<open>PaintingData\<close>: placing appends a shape whose identifier is new, deleting removes the
  shapes with an identifier, editing the title renames, a successful import or restore
  replaces the whole document by one with a non-empty title and distinct identifiers, and
  every other event leaves it alone. The typed view \<open>painting_of\<close> is a refinement
  mapping from the canvas state of HW2, and from the session state of HW3, to this
  machine, and \<open>abs_event\<close>, \<open>abs_app_event\<close> name the abstract step each event of the
  code stands for: every step of the code is that step of the machine on the mapped
  states (a forward simulation).
\<close>

section \<open>The abstract document machine\<close>

datatype doc_event = Place Shape | Delete string | Rename string | Replace PaintingData | Stutter

inductive doc_step :: "PaintingData \<Rightarrow> doc_event \<Rightarrow> PaintingData \<Rightarrow> bool" where
  place: "shape_id sh \<notin> shape_id ` set (pd_shapes d) \<Longrightarrow> doc_step d (Place sh) (doc_place sh d)"
| delete: "doc_step d (Delete i) (doc_delete i d)"
| rename: "doc_step d (Rename t) (d\<lparr>pd_title := t\<rparr>)"
| replace: "pd_title d' \<noteq> [] \<Longrightarrow> distinct (map shape_id (pd_shapes d')) \<Longrightarrow> doc_step d (Replace d') d'"
| stutter: "doc_step d Stutter d"

section \<open>The refinement mapping on events\<close>

definition abs_load :: "jval option \<Rightarrow> doc_event" where
  "abs_load p =
     (case p of
        None \<Rightarrow> Stutter
      | Some v \<Rightarrow>
          (case validatePainting v of
             Inr (Some (t, vs)) \<Rightarrow>
               (case painting_of (canvas_init\<lparr>title := t, shapes := vs\<rparr>) of
                  Some d' \<Rightarrow> Replace d'
                | None \<Rightarrow> Stutter)
           | _ \<Rightarrow> Stutter))"

fun abs_event :: "canvas_event \<Rightarrow> 'a canvas_scheme \<Rightarrow> doc_event" where
  "abs_event (CanvasClick u ev) s = Place (newShape u (selectedShape s) (svgPoint ev))"
| "abs_event (DragStart t) s = Stutter"
| "abs_event (Drop u ev) s =
     (case draggedShape s of None \<Rightarrow> Stutter | Some t \<Rightarrow> Place (newShape u t (svgPoint ev)))"
| "abs_event (DoubleClickShape i) s = Delete i"
| "abs_event (SelectTool t) s = Stutter"
| "abs_event (EditTitle v) s = Rename v"
| "abs_event (FileLoaded p) s = abs_load p"

text \<open>
  In the session, a response stands for a replacement exactly when it answers a pending
  restore with a 2xx status and its body passes the import check; every other session event
  leaves the document alone.
\<close>

fun abs_app_event :: "app_event \<Rightarrow> 'a app_scheme \<Rightarrow> doc_event" where
  "abs_app_event (CanvasEv e) s = abs_event e s"
| "abs_app_event (Respond n r) s =
     (case (map_of (pending s) n, r) of
        (Some (PendingRestore, rq), Some p) \<Rightarrow> (if resp_ok p then abs_load (resp_json p) else Stutter)
      | _ \<Rightarrow> Stutter)"
| "abs_app_event e s = Stutter"

section \<open>Lemmas\<close>

lemma painting_of_cong:
  "title s' = title s \<Longrightarrow> shapes s' = shapes s \<Longrightarrow> painting_of s' = painting_of s"
  by (simp add: painting_of_def)

lemma painting_of_draggedShape_upd [simp]: "painting_of (s\<lparr>draggedShape := x\<rparr>) = painting_of s"
  by (simp add: painting_of_def)

lemma painting_of_selectedShape_upd [simp]: "painting_of (s\<lparr>selectedShape := x\<rparr>) = painting_of s"
  by (simp add: painting_of_def)

lemma painting_of_title_nonempty:
  assumes "validatePainting v = Inr (Some (t, vs))" "painting_of (canvas_init\<lparr>title := t, shapes := vs\<rparr>) = Some d'"
  shows "pd_title d' \<noteq> []"
  using assms
  by (auto simp: validatePainting_def painting_of_def split: sum.splits option.splits if_splits jval.splits
      Option.bind_splits)

lemma load_simulates:
  assumes "file_ok (Some v)" "validatePainting v = Inr (Some (t, vs))"
  shows "\<exists>d'. painting_of (s\<lparr>title := t, shapes := vs\<rparr>) = Some d' \<and> doc_step d (abs_load (Some v)) d'"
proof -
  from assms have "doc_wf (canvas_init\<lparr>title := t, shapes := vs\<rparr>)" by (simp add: file_ok_def)
  then obtain d' where d': "painting_of (canvas_init\<lparr>title := t, shapes := vs\<rparr>) = Some d'"
    and dist: "distinct (map shape_id (pd_shapes d'))" by (auto simp: doc_wf_iff)
  have "painting_of (s\<lparr>title := t, shapes := vs\<rparr>) = Some d'"
    using painting_of_cong [of "s\<lparr>title := t, shapes := vs\<rparr>" "canvas_init\<lparr>title := t, shapes := vs\<rparr>"] d'
    by simp
  moreover have "doc_step d (abs_load (Some v)) d'"
    using assms(2) d' dist painting_of_title_nonempty [OF assms(2) d']
    by (simp add: abs_load_def doc_step.replace)
  ultimately show ?thesis by blast
qed

lemma canvas_step_simulates:
  assumes "painting_of s = Some d" "env_ok e s" "canvas_step e s = Inr (s', al)"
  shows "\<exists>d'. painting_of s' = Some d' \<and> doc_step d (abs_event e s) d'"
proof (cases e)
  case (CanvasClick u ev)
  with assms have "s' = s\<lparr>shapes := shapes s @ [shape_json (newShape u (selectedShape s) (svgPoint ev))]\<rparr>"
    by (simp add: handleCanvasClick_appends)
  moreover from assms(1,2) CanvasClick have "u \<notin> shape_id ` set (pd_shapes d)"
    by (simp add: fresh_id_not_in_painting)
  ultimately show ?thesis using assms(1) CanvasClick
    by (auto simp: painting_of_snoc newShape_def intro: doc_step.place)
next
  case (Drop u ev)
  show ?thesis
  proof (cases "draggedShape s")
    case None
    with assms Drop show ?thesis by (auto simp: handleDrop_def intro: doc_step.stutter)
  next
    case (Some t)
    with assms Drop have "s' = s\<lparr>shapes := shapes s @ [shape_json (newShape u t (svgPoint ev))], draggedShape := None\<rparr>"
      by (simp add: handleDrop_def)
    moreover from assms(1,2) Drop have "u \<notin> shape_id ` set (pd_shapes d)"
      by (simp add: fresh_id_not_in_painting)
    moreover have "painting_of (s\<lparr>shapes := shapes s @ [shape_json (newShape u t (svgPoint ev))], draggedShape := None\<rparr>)
        = Some (doc_place (newShape u t (svgPoint ev)) d)"
      using painting_of_snoc [OF assms(1) shape_of_json_shape_json [of "newShape u t (svgPoint ev)"]]
        painting_of_cong [of "s\<lparr>shapes := shapes s @ [shape_json (newShape u t (svgPoint ev))], draggedShape := None\<rparr>"
          "s\<lparr>shapes := shapes s @ [shape_json (newShape u t (svgPoint ev))]\<rparr>"]
      by simp
    ultimately show ?thesis using Some Drop by (auto simp: newShape_def intro: doc_step.place)
  qed
next
  case (DoubleClickShape i)
  obtain s2 where "handleDeleteShape i s = Inr s2" "painting_of s2 = Some (doc_delete i d)"
    using handleDeleteShape_decoded [OF assms(1)] by blast
  with assms(3) DoubleClickShape show ?thesis by (auto intro: doc_step.delete)
next
  case (EditTitle v)
  with assms have "s' = s\<lparr>title := JStr v\<rparr>" by (simp add: setTitle_def)
  with assms(1) have "painting_of s' = Some (d\<lparr>pd_title := v\<rparr>)"
    by (auto simp: painting_of_def split: Option.bind_splits)
  with EditTitle show ?thesis by (auto intro: doc_step.rename)
next
  case (FileLoaded p)
  with assms(3) have r: "readerOnload p s = (s', al)" by simp
  show ?thesis
  proof (cases "\<exists>v t vs. p = Some v \<and> validatePainting v = Inr (Some (t, vs))")
    case True
    then obtain v t vs where p: "p = Some v" and val: "validatePainting v = Inr (Some (t, vs))" by blast
    with r have "s' = s\<lparr>title := t, shapes := vs\<rparr>" by (simp add: readerOnload_def)
    with assms(2) FileLoaded p val load_simulates [of v t vs s d] show ?thesis by simp
  next
    case False
    with readerOnload_cases [OF r] have "s' = s" by blast
    moreover from False have "abs_load p = Stutter"
      by (auto simp: abs_load_def split: option.splits sum.splits prod.splits)
    ultimately show ?thesis using assms(1) FileLoaded by (auto intro: doc_step.stutter)
  qed
qed (use assms in \<open>auto simp: handleDragStart_def setSelectedShape_def intro: doc_step.stutter\<close>)

lemma stutter_simulates:
  "painting_of s = Some d \<Longrightarrow> title s' = title s \<Longrightarrow> shapes s' = shapes s
   \<Longrightarrow> \<exists>d'. painting_of s' = Some d' \<and> doc_step d Stutter d'"
  using painting_of_cong[of s' s] by (auto intro: doc_step.stutter)

lemma respond_simulates:
  assumes "painting_of s = Some d" "resp_typed r" "respond n r s = (s', al)"
  shows "\<exists>d'. painting_of s' = Some d' \<and> doc_step d (abs_app_event (Respond n r) s) d'"
proof (cases "\<exists>rq p b t vs. map_of (pending s) n = Some (PendingRestore, rq) \<and> r = Some p \<and> resp_ok p
                 \<and> resp_json p = Some b \<and> validatePainting b = Inr (Some (t, vs))")
  case True
  then obtain rq p b t vs where m: "map_of (pending s) n = Some (PendingRestore, rq)" and rp: "r = Some p"
    and ok: "resp_ok p" and b: "resp_json p = Some b" and val: "validatePainting b = Inr (Some (t, vs))"
    by blast
  from assms(3) m rp ok b val have s': "s' = s\<lparr>pending := filter (\<lambda>x. fst x \<noteq> n) (pending s), title := t, shapes := vs\<rparr>"
    by (simp add: respond_pending restoreResponse_ok)
  from assms(2) rp b have "file_ok (Some b)" by (simp add: resp_typed_def)
  from load_simulates[OF this val, of s d] obtain d' where
    "painting_of (s\<lparr>title := t, shapes := vs\<rparr>) = Some d'" "doc_step d (abs_load (Some b)) d'" by blast
  with s' m rp ok b show ?thesis
    using painting_of_cong[of s' "s\<lparr>title := t, shapes := vs\<rparr>"] by auto
next
  case False
  have same: "title s' = title s \<and> shapes s' = shapes s"
    using respond_painting[OF assms(3)] False by blast
  have abs: "abs_app_event (Respond n r) s = Stutter"
    using False by (auto simp: abs_load_def split: option.splits pending_kind.splits if_splits sum.splits prod.splits)
  from stutter_simulates[OF assms(1)] same have "\<exists>d'. painting_of s' = Some d' \<and> doc_step d Stutter d'"
    by blast
  with abs show ?thesis by (simp only:)
qed

section \<open>Properties\<close>

text \<open>C13. Every handler of the HW2 canvas performs, on a well-typed painting and in an
  environment that supplies fresh identifiers and well-typed files, exactly the abstract step
  its event stands for: a click or a drop places the new shape under the pointer with its
  fresh identifier, a double-click deletes by identifier, the title input renames, a
  successful import replaces the document, and the tool events leave it alone.\<close>

theorem canvas_step_refines:
  assumes "painting_of s = Some d" "env_ok e s" "canvas_step e s = Inr (s', al)"
  shows "\<exists>d'. painting_of s' = Some d' \<and> doc_step d (abs_event e s) d'"
  using canvas_step_simulates[OF assms] .

theorem canvas_step_refines_witness:
  "\<exists>d'. painting_of (canvas_init\<lparr>title := JStr ''Art''\<rparr>) = Some d'
      \<and> doc_step \<lparr>pd_title = ''Untitled'', pd_shapes = []\<rparr> (abs_event (EditTitle ''Art'') canvas_init) d'"
proof -
  have p: "painting_of canvas_init = Some \<lparr>pd_title = ''Untitled'', pd_shapes = []\<rparr>"
    by (simp add: painting_of_def canvas_init_def)
  have "canvas_step (EditTitle ''Art'') canvas_init = Inr (canvas_init\<lparr>title := JStr ''Art''\<rparr>, [])"
    by (simp add: setTitle_def)
  from canvas_step_refines[OF p _ this] show ?thesis by simp
qed

text \<open>C34. Every event of the HW3 session performs, on a well-typed painting and in a
  well-typed environment, exactly the abstract step \<open>abs_app_event\<close> names: the canvas
  events as in HW2, a valid 2xx answer to a pending restore replaces the document, and
  authentication, save, logout and every other response leave it alone.\<close>

theorem session_step_refines:
  assumes "painting_of s = Some d" "app_env_ok e s" "app_step e s = Inr (s', al)"
  shows "\<exists>d'. painting_of s' = Some d' \<and> doc_step d (abs_app_event e s) d'"
proof (cases e)
  case (CanvasEv ce)
  with assms(3) obtain al0 where "canvas_step ce s = Inr (s', al0)"
    by (cases "canvas_step ce s") (auto simp: map_sum_id_Inr_iff)
  with assms(1,2) CanvasEv canvas_step_simulates show ?thesis by fastforce
next
  case (Respond n r)
  with assms respond_simulates show ?thesis by (simp add: resp_typed_def)
next
  case (SubmitAuth u pw)
  with assms stutter_simulates[OF assms(1), of s'] show ?thesis
    by (auto simp: handleSubmit_def send_def split: option.splits if_splits)
qed (use assms stutter_simulates[OF assms(1), of s'] in \<open>auto simp: handleLogout_def handleSave_def
        handleRestore_def send_def split: if_splits\<close>)

theorem session_step_refines_witness:
  "\<exists>d'. painting_of (fst (respond 0 (Some (ok_resp saved_body)) (logged_in\<lparr>pending := [(0, PendingRestore, restore_req)]\<rparr>))) = Some d'
      \<and> doc_step \<lparr>pd_title = ''Untitled'', pd_shapes = []\<rparr>
           (abs_app_event (Respond 0 (Some (ok_resp saved_body))) (logged_in\<lparr>pending := [(0, PendingRestore, restore_req)]\<rparr>)) d'"
proof -
  have p: "painting_of (logged_in\<lparr>pending := [(0, PendingRestore, restore_req)]\<rparr>) = Some \<lparr>pd_title = ''Untitled'', pd_shapes = []\<rparr>"
    by (simp add: painting_of_def app_init_def)
  have t: "app_env_ok (Respond 0 (Some (ok_resp saved_body))) (logged_in\<lparr>pending := [(0, PendingRestore, restore_req)]\<rparr>)"
    by (simp add: resp_typed_def file_ok_def validatePainting_def doc_wf_def painting_of_def canvas_init_def)
  have "app_step (Respond 0 (Some (ok_resp saved_body))) (logged_in\<lparr>pending := [(0, PendingRestore, restore_req)]\<rparr>)
     = Inr (fst (respond 0 (Some (ok_resp saved_body)) (logged_in\<lparr>pending := [(0, PendingRestore, restore_req)]\<rparr>)),
            snd (respond 0 (Some (ok_resp saved_body)) (logged_in\<lparr>pending := [(0, PendingRestore, restore_req)]\<rparr>)))"
    by simp
  from session_step_refines[OF p t this] show ?thesis .
qed

end
