(* ===== verification/Auth_Modal.thy ===== *)
theory Auth_Modal
  imports Render
begin

text \<open>
  The \<^verbatim>\<open>AuthModal\<close> component of \<^verbatim>\<open>src/HW3/frontend/src/App.tsx\<close> (lines 81--165)
  and the page that mounts it (lines 430--436). Its two \<^verbatim>\<open>useState\<close> hooks are the
  record \<open>modal_form\<close>; the page state \<open>ui\<close> extends the session record of theory
  \<open>Session\<close> with the mounted component's state, \<open>None\<close> while
  \<^verbatim>\<open>{authModal && <AuthModal .../>}\<close> renders nothing. A click is dispatched along the
  path from its target to the overlay, running the \<^verbatim>\<open>onClick\<close> handlers it meets
  until one calls \<^verbatim>\<open>stopPropagation\<close>; a submit attempt passes the browser's
  constraint validation of the two \<^verbatim>\<open>required\<close> inputs before the form's
  \<^verbatim>\<open>onSubmit\<close> (\<open>handleSubmit\<close>) runs. After every event React reconciles the
  tree: the component unmounts when \<^verbatim>\<open>authModal\<close> becomes \<^verbatim>\<open>null\<close> and mounts
  with empty fields when it becomes set.
\<close>

section \<open>The component's state and element tree\<close>

record modal_form =
  username :: string
  password :: string

definition form_init :: modal_form where
  "form_init = \<lparr>username = [], password = []\<rparr>"

datatype modal_elem =
    Overlay | Content | Heading | AuthForm | UserInput | PassInput | SubmitButton | CancelButton

text \<open>The parent of each element in the JSX the component returns.\<close>

fun modal_parent :: "modal_elem \<Rightarrow> modal_elem option" where
  "modal_parent Overlay = None"
| "modal_parent Content = Some Overlay"
| "modal_parent Heading = Some Content"
| "modal_parent AuthForm = Some Content"
| "modal_parent UserInput = Some AuthForm"
| "modal_parent PassInput = Some AuthForm"
| "modal_parent SubmitButton = Some AuthForm"
| "modal_parent CancelButton = Some Content"

fun elem_depth :: "modal_elem \<Rightarrow> nat" where
  "elem_depth Overlay = 0"
| "elem_depth Content = 1"
| "elem_depth Heading = 2"
| "elem_depth AuthForm = 2"
| "elem_depth CancelButton = 2"
| "elem_depth UserInput = 3"
| "elem_depth PassInput = 3"
| "elem_depth SubmitButton = 3"

text \<open>The bubbling path of an event: its target and the target's ancestors.\<close>

function click_path :: "modal_elem \<Rightarrow> modal_elem list" where
  "click_path e = e # (case modal_parent e of None \<Rightarrow> [] | Some p \<Rightarrow> click_path p)"
  by pat_completeness auto
termination
proof (relation "measure elem_depth")
  show "wf (measure elem_depth)" by simp
next
  fix e p assume "modal_parent e = Some p"
  then show "(p, e) \<in> measure elem_depth" by (cases e) auto
qed

text \<open>
  The \<^verbatim>\<open>onClick\<close> props: the overlay and the Cancel button call \<^verbatim>\<open>onClose\<close>, the
  content box stops the propagation.
\<close>

datatype click_handler = OnClose | StopPropagation

fun modal_onClick :: "modal_elem \<Rightarrow> click_handler option" where
  "modal_onClick Overlay = Some OnClose"
| "modal_onClick Content = Some StopPropagation"
| "modal_onClick CancelButton = Some OnClose"
| "modal_onClick _ = None"

fun bubble :: "modal_elem list \<Rightarrow> click_handler list" where
  "bubble [] = []"
| "bubble (e # es) =
     (case modal_onClick e of
        None \<Rightarrow> bubble es
      | Some StopPropagation \<Rightarrow> [StopPropagation]
      | Some OnClose \<Rightarrow> OnClose # bubble es)"

text \<open>\<^verbatim>\<open>onClose\<close> is \<^verbatim>\<open>() => setAuthModal(null)\<close>, the session event \<open>CloseModal\<close>.\<close>

fun handler_event :: "click_handler \<Rightarrow> app_event option" where
  "handler_event OnClose = Some CloseModal"
| "handler_event StopPropagation = None"

definition click_events :: "modal_elem \<Rightarrow> app_event list" where
  "click_events e = List.map_filter handler_event (bubble (click_path e))"

section \<open>Rendering and submission\<close>

definition modal_heading :: "auth_mode \<Rightarrow> string" where
  "modal_heading m = (if m = Signup then ''Create Account'' else ''Log In'')"

definition submit_label :: "auth_mode \<Rightarrow> string" where
  "submit_label m = (if m = Signup then ''Sign Up'' else ''Login'')"

text \<open>
  The text each element shows: the heading and the submit label by mode, the controlled
  inputs their state.
\<close>

definition modalView :: "auth_mode \<Rightarrow> modal_form \<Rightarrow> (modal_elem \<times> string) list" where
  "modalView m f =
     [(Heading, modal_heading m), (UserInput, username f), (PassInput, password f),
      (SubmitButton, submit_label m), (CancelButton, ''Cancel'')]"

text \<open>
  Constraint validation of the form: a \<^verbatim>\<open>required\<close> text or password input suffers
  from a missing value exactly when its value is empty, and the browser then fires no
  \<^verbatim>\<open>submit\<close> event.
\<close>

definition form_valid :: "modal_form \<Rightarrow> bool" where
  "form_valid f \<longleftrightarrow> username f \<noteq> [] \<and> password f \<noteq> []"

definition submit_events :: "modal_form \<Rightarrow> app_event list" where
  "submit_events f = (if form_valid f then [SubmitAuth (username f) (password f)] else [])"

text \<open>
  The user's actions on the modal: typing in either input, pressing Enter in one of them,
  and clicking an element. A click on the submit button first bubbles and then activates
  the button, which submits the form; Enter in an input is the form's implicit submission,
  which fires that click at the submit button.
\<close>

datatype modal_event = TypeUsername string | TypePassword string | PressEnter | ClickModal modal_elem

fun modal_events :: "modal_event \<Rightarrow> modal_form \<Rightarrow> app_event list" where
  "modal_events PressEnter f = click_events SubmitButton @ submit_events f"
| "modal_events (ClickModal e) f =
     click_events e @ (if e = SubmitButton then submit_events f else [])"
| "modal_events (TypeUsername v) f = []"
| "modal_events (TypePassword v) f = []"

fun modal_input :: "modal_event \<Rightarrow> modal_form \<Rightarrow> modal_form" where
  "modal_input (TypeUsername v) f = f\<lparr>username := v\<rparr>"
| "modal_input (TypePassword v) f = f\<lparr>password := v\<rparr>"
| "modal_input PressEnter f = f"
| "modal_input (ClickModal e) f = f"

section \<open>The page: session state and the mounted modal\<close>

record ui = app +
  modal :: "modal_form option"

definition ui_init :: ui where
  "ui_init = app.extend app_init \<lparr>modal = None\<rparr>"

text \<open>React's reconciliation after an event: unmount, fresh mount, or keep the state.\<close>

definition reconcile :: "'a ui_scheme \<Rightarrow> 'a ui_scheme" where
  "reconcile s =
     (case authModal s of
        None \<Rightarrow> s\<lparr>modal := None\<rparr>
      | Some m \<Rightarrow> (case modal s of None \<Rightarrow> s\<lparr>modal := Some form_init\<rparr> | Some f \<Rightarrow> s))"

definition lift_ui ::
  "('a ui_scheme \<times> alert list) js \<Rightarrow> ('a ui_scheme \<times> alert list) js" where
  "lift_ui r = map_sum id (\<lambda>(s', al). (reconcile s', al)) r"

datatype ui_event =
    CanvasUI canvas_event
  | HeaderClick button
  | ModalUI modal_event
  | Deliver nat "response option"

fun page_step :: "ui_event \<Rightarrow> 'a ui_scheme \<Rightarrow> ('a ui_scheme \<times> alert list) js" where
  "page_step (CanvasUI e) s = lift_ui (app_step (CanvasEv e) s)"
| "page_step (HeaderClick b) s =
     (if b \<in> set (headerButtons (truthy (token s)))
      then (case button_event b of None \<Rightarrow> Inr (s, []) | Some e \<Rightarrow> lift_ui (app_step e s))
      else Inr (s, []))"
| "page_step (ModalUI me) s =
     (case modal s of
        None \<Rightarrow> Inr (s, [])
      | Some f \<Rightarrow> lift_ui (app_run (modal_events me f) (s\<lparr>modal := Some (modal_input me f)\<rparr>)))"
| "page_step (Deliver n r) s = lift_ui (app_step (Respond n r) s)"

fun page_run :: "ui_event list \<Rightarrow> 'a ui_scheme \<Rightarrow> ('a ui_scheme \<times> alert list) js" where
  "page_run [] s = Inr (s, [])"
| "page_run (e # es) s =
     (case page_step e s of
        Inl err \<Rightarrow> Inl err
      | Inr (s', al) \<Rightarrow> map_sum id (\<lambda>(s'', al'). (s'', al @ al')) (page_run es s'))"

section \<open>Lemmas on the modal and the page\<close>

lemma click_events_eq:
  "click_events e = (if e = Overlay \<or> e = CancelButton then [CloseModal] else [])"
  by (cases e) (simp_all add: click_events_def List.map_filter_simps)

lemma reconcile_fields [simp]:
  "app.truncate (reconcile s) = app.truncate s" "authModal (reconcile s) = authModal s"
  "token (reconcile s) = token s" "pending (reconcile s) = pending s"
  "next_req (reconcile s) = next_req s"
  by (simp_all add: reconcile_def app.truncate_def split: option.split)

lemma app_inv_modal_upd [simp]: "app_inv (s\<lparr>modal := x\<rparr>) = app_inv s"
  by (simp add: app_inv_def ids_ok_def)

lemma app_inv_reconcile [simp]: "app_inv (reconcile s) = app_inv s"
  by (simp add: reconcile_def split: option.split)

lemma handleSubmit_authModal: "handleSubmit m u pw s = (s', al) \<Longrightarrow> authModal s' = authModal s"
  by (auto simp: handleSubmit_def send_def split: if_splits)

lemma lift_ui_Inr [simp]: "lift_ui (Inr (s, al)) = Inr (reconcile s, al)"
  by (simp add: lift_ui_def)

lemma page_step_modal_click:
  assumes "modal s = Some f" "authModal s = Some m" "e \<noteq> SubmitButton"
  shows "page_step (ModalUI (ClickModal e)) s =
           Inr (if e = Overlay \<or> e = CancelButton then s\<lparr>authModal := None, modal := None\<rparr> else s, [])"
  using assms by (auto simp: click_events_eq reconcile_def)

lemma readerOnload_no_fill: "''Please fill in all fields.'' \<notin> set (snd (readerOnload p s))"
  by (simp add: readerOnload_def msg_read_error_def msg_invalid_format_def
           split: option.split sum.split prod.split)

lemma canvas_step_no_fill:
  assumes "canvas_step e s = Inr (s', al)"
  shows "''Please fill in all fields.'' \<notin> set al"
proof (cases e)
  case (FileLoaded p)
  with assms readerOnload_no_fill[of p s] show ?thesis by simp
qed (use assms in \<open>auto simp: map_sum_id_Inr_iff\<close>)

lemma authResponse_no_fill: "Alert ''Please fill in all fields.'' \<notin> set (snd (authResponse m u r s))"
  by (simp add: authResponse_def msg_auth_connect_def split: option.split sum.split)

lemma saveResponse_no_fill: "Alert ''Please fill in all fields.'' \<notin> set (snd (saveResponse r s))"
  by (simp add: saveResponse_def msg_save_connect_def split: option.split sum.split)

lemma restoreResponse_no_fill: "Alert ''Please fill in all fields.'' \<notin> set (snd (restoreResponse r s))"
  by (simp add: restoreResponse_def msg_restore_connect_def msg_no_saved_def Let_def
           split: option.split sum.split prod.split)

lemma respond_no_fill: "Alert ''Please fill in all fields.'' \<notin> set (snd (respond n r s))"
  by (simp add: respond_def Let_def authResponse_no_fill saveResponse_no_fill restoreResponse_no_fill
           split: option.split pending_kind.split)

lemma app_step_fill_alert:
  assumes "app_step e s = Inr (s', al)" "Alert ''Please fill in all fields.'' \<in> set al"
  shows "\<exists>u pw. e = SubmitAuth u pw \<and> (u = [] \<or> pw = [])"
proof (cases e)
  case (CanvasEv ce)
  with assms canvas_step_no_fill[of ce s] show ?thesis by (auto simp: map_sum_id_Inr_iff)
next
  case (Respond n r)
  with assms respond_no_fill[of n r s] show ?thesis by simp
qed (use assms in \<open>auto simp: handleSubmit_def handleSave_def handleRestore_def handleLogout_def
                        split: option.splits if_splits\<close>)

lemma lift_ui_Inr_iff: "lift_ui r = Inr (s', al) \<longleftrightarrow> (\<exists>s''. r = Inr (s'', al) \<and> s' = reconcile s'')"
  by (cases r) (auto simp: lift_ui_def)

lemma app_run_fill_alert:
  assumes "app_run es s = Inr (s', al)" "Alert ''Please fill in all fields.'' \<in> set al"
  shows "\<exists>u pw. SubmitAuth u pw \<in> set es \<and> (u = [] \<or> pw = [])"
  using assms
proof (induction es arbitrary: s al)
  case Nil then show ?case by simp
next
  case (Cons e es)
  then obtain s1 al1 where step: "app_step e s = Inr (s1, al1)"
    by (auto split: sum.splits)
  with Cons.prems obtain al2 where run: "app_run es s1 = Inr (s', al2)" and al: "al = al1 @ al2"
    by (cases "app_run es s1") auto
  show ?case
  proof (cases "Alert ''Please fill in all fields.'' \<in> set al1")
    case True
    with app_step_fill_alert[OF step] show ?thesis by auto
  next
    case False
    with Cons.prems(2) al have "Alert ''Please fill in all fields.'' \<in> set al2" by simp
    with Cons.IH[OF run] show ?thesis by auto
  qed
qed

lemma modal_events_submit:
  "SubmitAuth u pw \<in> set (modal_events me f) \<Longrightarrow> u = username f \<and> pw = password f \<and> form_valid f"
  by (cases me) (auto simp: click_events_eq submit_events_def split: if_splits)

lemma button_event_not_submit: "button_event b \<noteq> Some (SubmitAuth u pw)"
  by (cases b) auto

section \<open>Properties of the authentication modal\<close>

text \<open>
  C12. A click on the open authentication modal closes it exactly when it lands on the
  overlay or on the Cancel button: the content box stops the propagation of every other
  click, so typing into, or clicking within, the form keeps the modal and its fields.
\<close>

theorem modal_click_closes:
  assumes "modal s = Some f" "authModal s = Some m"
  shows "\<exists>s' al. page_step (ModalUI (ClickModal e)) s = Inr (s', al)
                \<and> (authModal s' = None \<longleftrightarrow> e = Overlay \<or> e = CancelButton)"
proof (cases "e = SubmitButton")
  case True
  with assms show ?thesis
    by (auto simp: click_events_eq submit_events_def lift_ui_def dest: handleSubmit_authModal
             split: prod.split)
next
  case False
  let ?s' = "if e = Overlay \<or> e = CancelButton then s\<lparr>authModal := None, modal := None\<rparr> else s"
  show ?thesis
  proof (intro exI conjI)
    show "page_step (ModalUI (ClickModal e)) s = Inr (?s', [])"
      by (rule page_step_modal_click[OF assms False])
    show "authModal ?s' = None \<longleftrightarrow> e = Overlay \<or> e = CancelButton"
      using assms by simp
  qed
qed

theorem modal_click_closes_witness:
  "\<exists>s' al. page_step (ModalUI (ClickModal Content)) (ui_init\<lparr>authModal := Some Login, modal := Some form_init\<rparr>) = Inr (s', al)
      \<and> (authModal s' = None \<longleftrightarrow> Content = Overlay \<or> Content = CancelButton)"
  by (rule modal_click_closes) simp_all

text \<open>
  C16. Cancelling the modal unmounts \<^verbatim>\<open>AuthModal\<close>: reopening it with the Login button
  (logged out) mounts it with empty fields, so pressing Enter right away sends no request
  and shows no alert; the credentials typed before are gone.
\<close>

theorem cancel_reopen_clears_form:
  assumes "modal s = Some f" "authModal s = Some m" "\<not> truthy (token s)"
  shows "page_run [ModalUI (ClickModal CancelButton), HeaderClick LoginBtn, ModalUI PressEnter] s
           = Inr (s\<lparr>authModal := Some Login, modal := Some form_init\<rparr>, [])"
  using assms
  by (simp add: page_step_modal_click headerButtons_def click_events_eq submit_events_def
                form_valid_def form_init_def reconcile_def)

theorem cancel_reopen_clears_form_witness:
  "page_run [ModalUI (ClickModal CancelButton), HeaderClick LoginBtn, ModalUI PressEnter]
      (ui_init\<lparr>authModal := Some Signup, modal := Some \<lparr>username = ''bob'', password = ''pw''\<rparr>\<rparr>)
     = Inr (ui_init\<lparr>authModal := Some Login, modal := Some form_init\<rparr>, [])"
proof -
  have "\<not> truthy (token (ui_init\<lparr>authModal := Some Signup, modal := Some \<lparr>username = ''bob'', password = ''pw''\<rparr>\<rparr>))"
    by (simp add: ui_init_def app_init_def app.extend_def)
  from cancel_reopen_clears_form[OF _ _ this] show ?thesis by simp
qed

text \<open>
  C17. No event of the page ever shows the code's own alert ''Please fill in all fields.'':
  the two inputs are \<^verbatim>\<open>required\<close>, so the browser submits the form only with both
  fields non-empty, and no other handler raises that alert.
\<close>

theorem fill_in_alert_unreachable:
  assumes "page_step e s = Inr (s', al)"
  shows "Alert ''Please fill in all fields.'' \<notin> set al"
proof
  assume fill: "Alert ''Please fill in all fields.'' \<in> set al"
  show False
  proof (cases e)
    case (ModalUI me)
    with assms fill obtain f s1 where "app_run (modal_events me f) (s\<lparr>modal := Some (modal_input me f)\<rparr>) = Inr (s1, al)"
      by (auto simp: lift_ui_Inr_iff split: option.splits)
    from app_run_fill_alert[OF this fill] show False
      by (fastforce dest: modal_events_submit simp: form_valid_def)
  next
    case (HeaderClick b)
    with assms fill obtain ae s'' where "button_event b = Some ae" "app_step ae s = Inr (s'', al)"
      by (auto simp: lift_ui_Inr_iff simp del: app_step.simps split: if_splits option.splits)
    with app_step_fill_alert[OF _ fill] button_event_not_submit show False by blast
  qed (use assms fill app_step_fill_alert in \<open>fastforce simp: lift_ui_Inr_iff simp del: app_step.simps\<close>)+
qed

theorem fill_in_alert_unreachable_witness:
  "page_step (ModalUI PressEnter) (ui_init\<lparr>authModal := Some Login, modal := Some form_init\<rparr>)
     = Inr (ui_init\<lparr>authModal := Some Login, modal := Some form_init\<rparr>, [])
   \<and> Alert ''Please fill in all fields.'' \<notin> set []"
proof -
  have "page_step (ModalUI PressEnter) (ui_init\<lparr>authModal := Some Login, modal := Some form_init\<rparr>)
     = Inr (ui_init\<lparr>authModal := Some Login, modal := Some form_init\<rparr>, [])"
    by (simp add: click_events_eq submit_events_def form_valid_def form_init_def reconcile_def)
  with fill_in_alert_unreachable[OF this] show ?thesis by simp
qed

text \<open>
  C33. What the user types is what is sent: in an open modal, typing a username and a
  password and clicking the submit button keeps the modal open with those values and
  issues one POST to the endpoint of the modal's mode, without a credential, whose body
  carries exactly the typed username and password; the continuation remembers the mode
  and the username for its alert.
\<close>

theorem typed_credentials_sent:
  assumes "modal s = Some f" "authModal s = Some m" "u \<noteq> []" "pw \<noteq> []"
  shows "page_run [ModalUI (TypeUsername u), ModalUI (TypePassword pw), ModalUI (ClickModal SubmitButton)] s
           = Inr (s\<lparr>modal := Some \<lparr>username = u, password = pw\<rparr>,
                    pending := pending s @ [(next_req s, PendingAuth m u,
                       \<lparr>req_url = authUrl m, req_method = POST, req_token = None,
                        req_body = Some (JObj [(''username'', JStr u), (''password'', JStr pw)])\<rparr>)],
                    next_req := Suc (next_req s)\<rparr>, [])"
  using assms
  by (simp add: click_events_eq submit_events_def form_valid_def reconcile_def handleSubmit_def send_def)

theorem typed_credentials_sent_witness:
  "page_run [ModalUI (TypeUsername ''bob''), ModalUI (TypePassword ''pw''), ModalUI (ClickModal SubmitButton)]
      (ui_init\<lparr>authModal := Some Login, modal := Some form_init\<rparr>)
   = Inr (ui_init\<lparr>authModal := Some Login, modal := Some \<lparr>username = ''bob'', password = ''pw''\<rparr>,
            pending := [(0, PendingAuth Login ''bob'', \<lparr>req_url = authUrl Login, req_method = POST, req_token = None,
                        req_body = Some (JObj [(''username'', JStr ''bob''), (''password'', JStr ''pw'')])\<rparr>)],
            next_req := 1\<rparr>, [])"
  using typed_credentials_sent[where s="ui_init\<lparr>authModal := Some Login, modal := Some form_init\<rparr>"
      and f=form_init and m=Login and u="''bob''" and pw="''pw''"]
  by (simp add: ui_init_def app_init_def app.extend_def)

end
