(* ===== verification/Spec2Isabelle.thy ===== *)
theory Spec2Isabelle
  imports Render RegExp Canvas_Spec Auth_Modal
begin

text \<open>
  \<^bold>\<open>A verification model of the WebProgrammingAssignments exercises.\<close>

  The repository holds three browser programs. \<^verbatim>\<open>src/HW1/script.js\<close> binds arithmetic
  formulas written in \<^verbatim>\<open><formula evaluator="...">\<close> elements to the input fields their
  identifiers name and re-evaluates them on every input. \<^verbatim>\<open>src/HW2/src/App.tsx\<close> is
  a React shape canvas: click or drop to place a circle, square or triangle, double-click
  to delete it, a title, JSON export and import, and a footer counting the shapes.
  \<^verbatim>\<open>src/HW3/frontend/src/App.tsx\<close> repeats that canvas and adds signup and login
  against a server at \<^verbatim>\<open>localhost:8080\<close>, a bearer token, and remote save and restore.
  The parts interact only through the React state of \<^verbatim>\<open>App\<close> and the events the JSX
  wires to its handlers.

  \<^bold>\<open>Theories.\<close>
  \<^item> \<open>Prelude\<close>: the runtime error \<open>TypeError\<close> and the result type
    \<open>'a js = js_error + 'a\<close>; \<^verbatim>\<open>Array.prototype.filter\<close> and \<^verbatim>\<open>reduce\<close> with a
    callback that may throw (\<open>filter_js\<close>, \<open>foldl_js\<close>); shared list facts.
  \<^item> \<open>JsValue\<close>: the JSON values the programs handle (\<open>jval\<close>), property reads that
    throw on \<^verbatim>\<open>null\<close> and keep the last of duplicate keys (\<open>js_get\<close>), truthiness,
    \<^verbatim>\<open>Array.isArray\<close>, \<^verbatim>\<open>!==\<close> against a string.
  \<^item> \<open>Canvas\<close>: the canvas state of HW2 (and HW3) as the record \<open>canvas\<close> with the
    fields of its \<^verbatim>\<open>useState\<close> hooks; one definition per handler
    (\<open>handleCanvasClick\<close>, \<open>handleDragStart\<close>, \<open>handleDrop\<close>, \<open>handleDeleteShape\<close>,
    \<open>setSelectedShape\<close>, \<open>setTitle\<close>); the pointer transform \<open>svgPoint\<close> through the
    inverse of the screen matrix. The typed view \<open>painting_of\<close> decodes a state into
    the TypeScript \<^verbatim>\<open>PaintingData\<close>; \<open>doc_wf\<close> adds distinct identifiers; \<open>doc_place\<close>
    and \<open>doc_delete\<close> are the abstract operations of \<^verbatim>\<open>spec.md\<close> \<section>4.
  \<^item> \<open>Painting_IO\<close>: the file side of the canvas: \<open>validatePainting\<close>,
    \<open>handleFileChange\<close> and the reader callback \<open>readerOnload\<close>, \<open>handleExport\<close> with
    its sanitised file name, and the footer's \<open>shapeCounts\<close> reduction.
  \<^item> \<open>Canvas_Events\<close>: the dispatch \<open>canvas_step\<close> of the JSX events to those
    handlers, the well-formed environment (\<open>env_ok\<close>), and the reachable states
    \<open>canvas_reach\<close>.
  \<^item> \<open>Formula\<close>: HW1. The identifier regex as the scanner \<open>scan\<close>, \<open>getInputIds\<close>,
    the substitution \<open>subst_segs\<close> and \<open>evaluateFormula\<close>; the page as a record of
    elements, formulas, shown texts and registered listeners; \<open>script_init\<close> runs the
    script's top level, \<open>input_event\<close> one \<^verbatim>\<open>input\<close> event.
  \<^item> \<open>Session\<close>: HW3's session, the record \<open>app\<close> extending \<open>canvas\<close> with the token,
    the open modal and the requests in flight. Each \<^verbatim>\<open>async\<close> handler is cut at its
    \<^verbatim>\<open>await fetch\<close>: \<open>handleSubmit\<close>, \<open>handleSave\<close>, \<open>handleRestore\<close> send (record a
    pending request), and \<open>authResponse\<close>, \<open>saveResponse\<close>, \<open>restoreResponse\<close> are
    their continuations, run by \<open>respond\<close> when the environment delivers the response,
    in any order. \<open>app_step\<close> dispatches all events; \<open>app_reach\<close> are the reachable
    sessions.
  \<^item> \<open>RegExp\<close>: \<^verbatim>\<open>String.prototype.match\<close> with the global identifier
    regex as ECMAScript runs it (a search from \<^verbatim>\<open>lastIndex\<close>, \<open>exec_from\<close>, inside a
    \<open>while_option\<close> loop over \<^verbatim>\<open>lastIndex\<close> and the matches), and \<^verbatim>\<open>getInputIds\<close>
    written over it (\<open>getInputIds_js\<close>).
  \<^item> \<open>Session_Run\<close>: runs of many session events; the sessions reachable when the
    environment is well typed (\<open>app_reach_typed\<close>); the delivery of all outstanding
    responses.
  \<^item> \<open>Render\<close>: the JSX of \<^verbatim>\<open>Shape\<close>, \<^verbatim>\<open>Canvas\<close> and \<^verbatim>\<open>Header\<close> in HW3: the SVG
    element of each shape, the click that stops at a shape, the double-click that deletes
    it, the buttons shown for \<^verbatim>\<open>isLoggedIn\<close>, the toolbar and the footer; hit
    testing is the browser's. HW2's \<^verbatim>\<open>Header\<close> (\<open>headerView\<close>, \<open>header_event\<close>):
    the title input, Export (a download or a \<^verbatim>\<open>TypeError\<close>) and Import
    (\<open>handleImportClick\<close>, the file dialog), as requests to the host.
  \<^item> \<open>Canvas_Spec\<close>: the document of \<^verbatim>\<open>spec.md\<close> \<section>4 as an abstract machine
    (\<open>doc_step\<close>: place with a new identifier, delete, rename, replace wholesale) and the
    refinement mapping \<open>painting_of\<close> from HW2's canvas and HW3's session to it, with
    \<open>abs_event\<close> and \<open>abs_app_event\<close> naming the abstract step of each event.
  \<^item> \<open>Auth_Modal\<close>: HW3's \<^verbatim>\<open>AuthModal\<close> component (lines 81--165) and its mount
    point: the record \<open>modal_form\<close> of its username and password hooks, the element tree
    and the bubbling of a click to the overlay (\<open>click_path\<close>, \<open>bubble\<close>, with the
    content box's \<^verbatim>\<open>stopPropagation\<close>), the browser's validation of the
    \<^verbatim>\<open>required\<close> inputs (\<open>form_valid\<close>), and the page state \<open>ui\<close>, the session
    record extended with the mounted component's state, stepped by \<open>page_step\<close>
    (canvas, header buttons, modal and network events) with React's mount and unmount
    (\<open>reconcile\<close>) after each event.
  \<^item> This theory: the properties that span the canvas handlers and their rendering.

  \<^bold>\<open>What is shown.\<close>
  Canvas: the document invariant holds in every reachable state (C1); export and import
  are inverse (C2); deleting removes exactly the shape with the identifier (C3); the
  handlers refine the abstract placement and deletion (C6 to C8); a placed shape lies
  under the pointer (C9); every canvas handler performs exactly the abstract step its event
  stands for (C13); the import rejects a non-array (C4) and reports exactly unparseable and
  null files as unreadable (C5). Formula: after any sequence of inputs every formula shows
  the value of its expression over the current inputs (C15); the outcome of an evaluation
  on every branch (C18); exactly one listener per formula and identifier (C19);
  \<^verbatim>\<open>getInputIds\<close> returns, without repetitions, exactly the identifiers of
  \<^verbatim>\<open>/[a-zA-Z]\w*/g\<close>, stated over the character classes as the regex writes them (C35).
  Session: no request without a token (C21); where the token comes from (C22); the request
  bookkeeping invariant (C23); save then restore returns the saved painting (C24); the
  restore error classes (C25); only a valid restore changes the painting (C26); last
  response wins (C27); every session event performs the abstract step
  \<open>abs_app_event\<close> names (C34). Here: a double-click on empty canvas leaves the painting
  as it was (C32). Authentication modal: a click closes it exactly on the overlay or Cancel
  (C12); cancelling discards the typed credentials (C16); the request carries exactly the
  typed credentials to the endpoint of the mode (C33). A well-typed environment keeps every
  HW3 session state of type \<^verbatim>\<open>PaintingData\<close> (C36); outstanding requests all resolve,
  one alert each, once their responses are delivered (C37). A rendered shape covers at most
  its 40 by 43 box around the anchor (C38); the placeholder and the footer agree (C39).
  The findings are proved for all inputs of their kind: any truthy title and any array
  of shapes imported without check (C10), the untitled export rejected by the import (C11),
  duplicate identifiers accepted and deleted together (C14), a formula naming an identifier
  without element, such as the e5 of \<^verbatim>\<open>1e5\<close>, aborting the script for every later
  formula (C20), error bodies that are not JSON reported as network failures (C28), a
  login without token called a signup (C29), a cancelled modal that still logs in (C30), a
  restore that lands after logout (C31), and the fill-in-all-fields alert that the
  \<^verbatim>\<open>required\<close> inputs make unreachable (C17).

  \<^bold>\<open>Assumptions and bounds.\<close> There is no fuel: every loop of the model is
  structural recursion over a list, except \<open>scan\<close>, \<open>replace_ws\<close> and
  \<open>exec_from\<close>, which terminate by the length of the remaining text, and the match loop,
  a \<open>while_option\<close> whose returning is proved (\<open>match_loop_Some\<close>, used by C35) with the measure
  \<open>length S - lastIndex\<close>, and the bubbling path \<open>click_path\<close>, by the depth of the
  element. Numbers are real numbers: no
  \<^verbatim>\<open>NaN\<close>, no infinities, no rounding. In particular a singular screen matrix
  (determinant 0), whose inverse JavaScript fills with \<^verbatim>\<open>NaN\<close>, gives the model's
  \<open>matrix_inverse\<close> a division by zero, which is 0 in HOL. The placement under the
  pointer (C9) assumes an invertible matrix; the double-click on empty canvas (C32) is
  stated for the model's arithmetic, where the second click meets the first click's
  shape, whereas in the browser a shape at \<^verbatim>\<open>NaN\<close> coordinates is not drawn and
  cannot be hit. \<^verbatim>\<open>JSON.parse\<close> is modelled by the value
  it returns (\<open>None\<close> when it throws); the export carries the value that is serialised, so
  the round trip presumes that \<^verbatim>\<open>JSON.parse\<close> inverts \<^verbatim>\<open>JSON.stringify\<close> on
  finite data. \<^verbatim>\<open>crypto.randomUUID()\<close> is an event argument, assumed fresh where a
  theorem says so (\<open>fresh_id\<close>). HW1's \<^verbatim>\<open>eval\<close> is a parameter. The server is the
  environment: any response, or none, to any pending request.

  \<^bold>\<open>Not modelled.\<close> The CSS and the icons (no behaviour), the input field events
  of the title (modelled as the \<open>EditTitle\<close> event), the file dialog and the
  download link (host I/O: the model stops at the value and file name handed to them),
  the React render scheduling (each handler's state updates are applied together, as
  React batches them), the CSS that places the modal overlay over the header (the model
  lets a header button be clicked while the modal is open), \<^verbatim>\<open>handleDragOver\<close>
  (its \<^verbatim>\<open>preventDefault\<close> only lets the browser deliver the drop, which the model
  always delivers), the file dialog itself (after \<open>OpenFileDialog\<close> the chosen file
  reaches \<open>handleFileChange\<close>), the TypeScript interfaces of the props (types
  only), the HW3 copies of HW2's handlers, toolbar and footer (the HW2 definitions model
  both), and the backend, which is not part of the repository.
\<close>

section \<open>Pointer input on the rendered canvas\<close>

text \<open>C32. A double-click on a point of the canvas where no shape lies leaves the state exactly as it was: the first click places a shape there (a fresh identifier), the second click lands on that shape and stops, and the double-click deletes it.\<close>

theorem double_click_empty_point:
  assumes "painting_of s = Some d" "fresh_id u s" "shapeAt (pd_shapes d) (svgPoint ev) = None"
  shows "ui_run (double_click u u' ev) s = Some (Inr (s, []))"
proof -
  let ?n = "newShape u (selectedShape s) (svgPoint ev)"
  let ?s1 = "s\<lparr>shapes := shapes s @ [shape_json ?n]\<rparr>"
  have t0: "those (map shape_of_json (shapes s)) = Some (pd_shapes d)"
    using assms(1) by (rule painting_of_shapes)
  then have t1: "those (map shape_of_json (shapes ?s1)) = Some (pd_shapes d @ [?n])"
    by (simp add: those_append)
  have step1: "ui_step u (Click ev) s = Some (Inr (?s1, []))"
    using t0 assms(3) by (simp add: ui_step_def pointer_event_Click handleCanvasClick_appends)
  have step2: "ui_step u' (Click ev) ?s1 = Some (Inr (?s1, []))"
    using t1 by (simp add: ui_step_def pointer_event_Click shapeAt_snoc_newShape)
  have keep: "filter_js (delete_pred u) (shapes s) = Inr (shapes s)"
    using t0 assms(2) by (simp add: fresh_id_def delete_fresh_keeps)
  have "delete_pred u (shape_json ?n) = Inr False"
    using delete_pred_shape_json[of ?n] by simp
  then have "filter_js (delete_pred u) [shape_json ?n] = Inr []" by simp
  from filter_js_append_Inr[OF keep this] have "handleDeleteShape u ?s1 = Inr s"
    by (simp add: handleDeleteShape_def)
  then have step3: "ui_step u' (DoubleClick ev) ?s1 = Some (Inr (s, []))"
    using t1 by (simp add: ui_step_def pointer_event_DoubleClick shapeAt_snoc_newShape)
  from step1 step2 step3 show ?thesis by (simp add: double_click_def)
qed

theorem double_click_empty_point_witness:
  "ui_run (double_click ''u1'' ''u2'' \<lparr>clientX = 5, clientY = 7, screenCTM = None\<rparr>)
     (canvas_init\<lparr>shapes := [shape_json \<lparr>shape_id = ''a'', shape_type = Circle, shape_x = 100, shape_y = 100\<rparr>]\<rparr>)
   = Some (Inr (canvas_init\<lparr>shapes := [shape_json \<lparr>shape_id = ''a'', shape_type = Circle, shape_x = 100, shape_y = 100\<rparr>]\<rparr>, []))"
proof (rule double_click_empty_point)
  show "painting_of (canvas_init\<lparr>shapes := [shape_json \<lparr>shape_id = ''a'', shape_type = Circle, shape_x = 100, shape_y = 100\<rparr>]\<rparr>)
      = Some \<lparr>pd_title = ''Untitled'', pd_shapes = [\<lparr>shape_id = ''a'', shape_type = Circle, shape_x = 100, shape_y = 100\<rparr>]\<rparr>"
    by (simp add: painting_of_def canvas_init_def)
  show "fresh_id ''u1'' (canvas_init\<lparr>shapes := [shape_json \<lparr>shape_id = ''a'', shape_type = Circle, shape_x = 100, shape_y = 100\<rparr>]\<rparr>)"
    by (simp add: fresh_id_def canvas_init_def shape_json_def)
  show "shapeAt (pd_shapes \<lparr>pd_title = ''Untitled'', pd_shapes = [\<lparr>shape_id = ''a'', shape_type = Circle, shape_x = 100, shape_y = 100\<rparr>]\<rparr>)
      (svgPoint \<lparr>clientX = 5, clientY = 7, screenCTM = None\<rparr>) = None"
    by (simp add: shapeAt_def shapeElem_def svgPoint_def matrixTransform_def power2_eq_square)
qed

text \<open>A double-click on a shape changes only the shapes: the clicks stop at the shape, and the painting loses the topmost shape under the pointer together with every shape that carries its identifier.\<close>

theorem double_click_on_shape:
  assumes "painting_of s = Some d" "shapeAt (pd_shapes d) (svgPoint ev) = Some sh"
  shows "\<exists>s'. ui_run (double_click u u' ev) s = Some (Inr (s', []))
           \<and> painting_of s' = Some (doc_delete (shape_id sh) d) \<and> s' = s\<lparr>shapes := shapes s'\<rparr>"
proof -
  have t0: "those (map shape_of_json (shapes s)) = Some (pd_shapes d)"
    using assms(1) by (rule painting_of_shapes)
  obtain s' where del: "handleDeleteShape (shape_id sh) s = Inr s'" and s': "s' = s\<lparr>shapes := shapes s'\<rparr>"
    and p: "painting_of s' = Some (doc_delete (shape_id sh) d)"
    using handleDeleteShape_decoded[OF assms(1)] by blast
  have "ui_step u (Click ev) s = Some (Inr (s, []))" "ui_step u' (Click ev) s = Some (Inr (s, []))"
    using t0 assms(2) by (simp_all add: ui_step_def pointer_event_Click)
  moreover have "ui_step u' (DoubleClick ev) s = Some (Inr (s', []))"
    using t0 assms(2) del by (simp add: ui_step_def pointer_event_DoubleClick)
  ultimately show ?thesis using s' p by (simp add: double_click_def)
qed

theorem double_click_on_shape_witness:
  "\<exists>s'. ui_run (double_click ''u1'' ''u2'' \<lparr>clientX = 12, clientY = 9, screenCTM = None\<rparr>)
          (canvas_init\<lparr>shapes := [shape_json \<lparr>shape_id = ''a'', shape_type = Square, shape_x = 10, shape_y = 10\<rparr>]\<rparr>)
        = Some (Inr (s', []))
      \<and> painting_of s' = Some \<lparr>pd_title = ''Untitled'', pd_shapes = []\<rparr>"
proof -
  have p: "painting_of (canvas_init\<lparr>shapes := [shape_json \<lparr>shape_id = ''a'', shape_type = Square, shape_x = 10, shape_y = 10\<rparr>]\<rparr>)
      = Some \<lparr>pd_title = ''Untitled'', pd_shapes = [\<lparr>shape_id = ''a'', shape_type = Square, shape_x = 10, shape_y = 10\<rparr>]\<rparr>"
    by (simp add: painting_of_def canvas_init_def)
  have h: "shapeAt (pd_shapes \<lparr>pd_title = ''Untitled'', pd_shapes = [\<lparr>shape_id = ''a'', shape_type = Square, shape_x = 10, shape_y = 10\<rparr>]\<rparr>)
      (svgPoint \<lparr>clientX = 12, clientY = 9, screenCTM = None\<rparr>) = Some \<lparr>shape_id = ''a'', shape_type = Square, shape_x = 10, shape_y = 10\<rparr>"
    by (simp add: shapeAt_def shapeElem_def svgPoint_def matrixTransform_def)
  from double_click_on_shape[OF p h, of "''u1''" "''u2''"] show ?thesis by (auto simp: doc_delete_def)
qed

section \<open>The header and the session handlers\<close>

text \<open>No button the header shows leads to the must-be-logged-in alerts: Save and Restore are shown only when the token is truthy, which is the condition of their handlers.\<close>

theorem header_buttons_logged_in:
  assumes "b \<in> set (headerButtons (truthy (token s)))" "button_event b = Some e" "app_step e s = Inr (s', al)"
  shows "Alert ''You must be logged in to save your painting.'' \<notin> set al
       \<and> Alert ''You must be logged in to restore a painting.'' \<notin> set al"
  using assms
  by (cases b) (auto simp: headerButtons_def handleSave_def handleRestore_def handleLogout_def split: if_splits)

theorem header_buttons_logged_in_witness:
  "SaveBtn \<in> set (headerButtons (truthy (token (app_init\<lparr>token := Some (JStr ''jwt'')\<rparr>))))
   \<and> app_step Save (app_init\<lparr>token := Some (JStr ''jwt'')\<rparr>) = Inr (fst (handleSave (app_init\<lparr>token := Some (JStr ''jwt'')\<rparr>)), [])
   \<and> Alert ''You must be logged in to save your painting.'' \<notin> set (snd (handleSave (app_init\<lparr>token := Some (JStr ''jwt'')\<rparr>)))"
proof -
  have b: "SaveBtn \<in> set (headerButtons (truthy (token (app_init\<lparr>token := Some (JStr ''jwt'')\<rparr>))))"
    by (simp add: headerButtons_def)
  have st: "app_step Save (app_init\<lparr>token := Some (JStr ''jwt'')\<rparr>) = Inr (fst (handleSave (app_init\<lparr>token := Some (JStr ''jwt'')\<rparr>)), snd (handleSave (app_init\<lparr>token := Some (JStr ''jwt'')\<rparr>)))"
    by simp
  have "snd (handleSave (app_init\<lparr>token := Some (JStr ''jwt'')\<rparr>)) = []" by (simp add: handleSave_def)
  with header_buttons_logged_in[OF b _ st] b st show ?thesis by simp
qed

end
